(* ===== verification/Go_Prelude.thy ===== *)
theory Go_Prelude
  imports
    Main
    "HOL-Library.Sublist"
    "HOL-Library.Char_ord"
    "HOL-Library.List_Lexorder"
    "HOL-Library.Finite_Map"
    "HOL-Library.Code_Target_Numeral"
begin

text \<open>
  The part of Go and of its standard library that the modelled packages use, and the generic
  lemmas the component theories share.

  A Go \<open>string\<close> is a byte sequence; it is modelled by HOL's \<open>string\<close> (a list of 8-bit
  characters), so \<open>len\<close>, slicing, comparison and the functions of package \<open>strings\<close> below
  work on bytes as they do in Go. A Go \<open>map\<close> is finite and has no order; it is modelled by
  a finite map (\<open>fmap\<close>), whose equality is extensional. A Go call that returns
  \<open>(value, error)\<close> is modelled by a sum, \<open>Inl\<close> carrying the error.
\<close>

named_theorems go_simps \<open>evaluation rules for the Go string and number functions\<close>

subsection \<open>Results\<close>

type_synonym ('e, 'a) result = "'e + 'a"

fun bindR :: "('e, 'a) result \<Rightarrow> ('a \<Rightarrow> ('e, 'b) result) \<Rightarrow> ('e, 'b) result" where
  "bindR (Inl e) f = Inl e"
| "bindR (Inr a) f = f a"

lemma bindR_eq_Inr: "bindR r f = Inr b \<longleftrightarrow> (\<exists>a. r = Inr a \<and> f a = Inr b)"
  by (cases r) auto

lemma bindR_eq_Inl: "bindR r f = Inl e \<longleftrightarrow> r = Inl e \<or> (\<exists>a. r = Inr a \<and> f a = Inl e)"
  by (cases r) auto

text \<open>A loop that appends what each item yields and stops at the first error.\<close>

fun concatMapR :: "('a \<Rightarrow> ('e, 'b list) result) \<Rightarrow> 'a list \<Rightarrow> ('e, 'b list) result" where
  "concatMapR f [] = Inr []"
| "concatMapR f (x # xs) =
     bindR (f x) (\<lambda>ys. bindR (concatMapR f xs) (\<lambda>zs. Inr (ys @ zs)))"

lemma concatMapR_eq_Inr:
  "concatMapR f xs = Inr zs \<longleftrightarrow>
     (\<exists>yss. list_all2 (\<lambda>x ys. f x = Inr ys) xs yss \<and> zs = concat yss)"
proof (induction xs arbitrary: zs)
  case Nil
  then show ?case by auto
next
  case (Cons x xs)
  show ?case
    by (auto simp: bindR_eq_Inr Cons.IH list_all2_Cons1) (metis concat.simps(2))
qed

lemma concatMapR_set:
  assumes "concatMapR f xs = Inr zs" and "z \<in> set zs"
  obtains x ys where "x \<in> set xs" and "f x = Inr ys" and "z \<in> set ys"
proof -
  from assms(1) obtain yss where yss: "list_all2 (\<lambda>x ys. f x = Inr ys) xs yss" "zs = concat yss"
    by (auto simp: concatMapR_eq_Inr)
  with assms(2) obtain ys where "ys \<in> set yss" "z \<in> set ys"
    by auto
  then obtain i where "i < length yss" "z \<in> set (yss ! i)"
    by (auto simp: in_set_conv_nth)
  with yss show ?thesis
    by (intro that[of "xs ! i" "yss ! i"]) (auto simp: list_all2_conv_all_nth)
qed

lemma concatMapR_mem:
  "concatMapR f xs = Inr zs \<Longrightarrow>
   (\<forall>x \<in> set xs. \<exists>ys. f x = Inr ys) \<and> (z \<in> set zs \<longleftrightarrow> (\<exists>x \<in> set xs. \<exists>ys. f x = Inr ys \<and> z \<in> set ys))"
  by (induction xs arbitrary: zs) (auto simp: bindR_eq_Inr)

lemma first_occurrence_unique:
  "c \<notin> set xs \<Longrightarrow> c \<notin> set xs' \<Longrightarrow> xs @ c # ys = xs' @ c # ys' \<longleftrightarrow> xs = xs' \<and> ys = ys'"
proof (induction xs arbitrary: xs')
  case Nil
  then show ?case by (cases xs') auto
next
  case (Cons x xs)
  then show ?case by (cases xs') auto
qed

subsection \<open>Package strings\<close>

abbreviation hasPrefix :: "string \<Rightarrow> string \<Rightarrow> bool" where
  "hasPrefix s p \<equiv> prefix p s"

abbreviation hasSuffix :: "string \<Rightarrow> string \<Rightarrow> bool" where
  "hasSuffix s p \<equiv> suffix p s"

definition trimPrefix :: "string \<Rightarrow> string \<Rightarrow> string" where
  "trimPrefix s p = (if prefix p s then drop (length p) s else s)"

text \<open>\<open>strings.Split\<close> and \<open>strings.SplitN(s, sep, 2)\<close> for a one-byte separator.\<close>

fun splitOn :: "char \<Rightarrow> string \<Rightarrow> string list" where
  "splitOn c [] = [[]]"
| "splitOn c (x # xs) =
     (if x = c then [] # splitOn c xs
      else (case splitOn c xs of [] \<Rightarrow> [[x]] | y # ys \<Rightarrow> (x # y) # ys))"

definition splitN2 :: "char \<Rightarrow> string \<Rightarrow> string list" where
  "splitN2 c s =
     (if c \<in> set s then [takeWhile (\<lambda>x. x \<noteq> c) s, tl (dropWhile (\<lambda>x. x \<noteq> c) s)] else [s])"

fun joinWith :: "string \<Rightarrow> string list \<Rightarrow> string" where
  "joinWith sep [] = []"
| "joinWith sep [s] = s"
| "joinWith sep (s # t # ts) = s @ sep @ joinWith sep (t # ts)"

text \<open>\<open>strings.ReplaceAll\<close> for a non-empty \<open>old\<close>: leftmost matches, not overlapping.\<close>

function replaceAll :: "string \<Rightarrow> string \<Rightarrow> string \<Rightarrow> string" where
  "replaceAll old new s =
     (if old = [] \<or> s = [] then s
      else if prefix old s then new @ replaceAll old new (drop (length old) s)
      else hd s # replaceAll old new (tl s))"
  by pat_completeness auto
termination
  by (relation "measure (\<lambda>(old, new, s). length s)") auto

declare replaceAll.simps [simp del]

text \<open>
  \<open>strings.ToLower\<close> on ASCII letters. The model uses it only to compare with ASCII keywords
  that no other code point lowers into.
\<close>

definition toLowerChar :: "char \<Rightarrow> char" where
  "toLowerChar c =
     (if 65 \<le> (of_char c :: nat) \<and> (of_char c :: nat) \<le> 90 then char_of ((of_char c :: nat) + 32)
      else c)"

definition toLower :: "string \<Rightarrow> string" where
  "toLower = map toLowerChar"

text \<open>
  \<open>strings.TrimSpace\<close>: the UTF-8 encodings of the code points for which
  \<open>unicode.IsSpace\<close> holds are cut from both ends.
\<close>

definition spaceSeqs :: "string list" where
  "spaceSeqs =
     [[CHR 0x09], [CHR 0x0A], [CHR 0x0B], [CHR 0x0C], [CHR 0x0D], [CHR 0x20],
      [CHR 0xC2, CHR 0x85], [CHR 0xC2, CHR 0xA0], [CHR 0xE1, CHR 0x9A, CHR 0x80],
      [CHR 0xE2, CHR 0x80, CHR 0x80], [CHR 0xE2, CHR 0x80, CHR 0x81],
      [CHR 0xE2, CHR 0x80, CHR 0x82], [CHR 0xE2, CHR 0x80, CHR 0x83],
      [CHR 0xE2, CHR 0x80, CHR 0x84], [CHR 0xE2, CHR 0x80, CHR 0x85],
      [CHR 0xE2, CHR 0x80, CHR 0x86], [CHR 0xE2, CHR 0x80, CHR 0x87],
      [CHR 0xE2, CHR 0x80, CHR 0x88], [CHR 0xE2, CHR 0x80, CHR 0x89],
      [CHR 0xE2, CHR 0x80, CHR 0x8A], [CHR 0xE2, CHR 0x80, CHR 0xA8],
      [CHR 0xE2, CHR 0x80, CHR 0xA9], [CHR 0xE2, CHR 0x80, CHR 0xAF],
      [CHR 0xE2, CHR 0x81, CHR 0x9F], [CHR 0xE3, CHR 0x80, CHR 0x80]]"

lemma spaceSeqs_nonempty: "q \<in> set spaceSeqs \<Longrightarrow> q \<noteq> []"
  by (auto simp: spaceSeqs_def)

function stripSeqs :: "string list \<Rightarrow> string \<Rightarrow> string" where
  "stripSeqs qs s =
     (case find (\<lambda>q. q \<noteq> [] \<and> prefix q s) qs of
        None \<Rightarrow> s
      | Some q \<Rightarrow> stripSeqs qs (drop (length q) s))"
  by pat_completeness auto
termination
proof (relation "measure (\<lambda>(qs, s). length s)", goal_cases)
  case 1
  show ?case by simp
next
  case (2 qs s q)
  then have "q \<noteq> []" and "prefix q s"
    by (auto simp: find_Some_iff)
  then show ?case
    by (auto simp: prefix_def)
qed

declare stripSeqs.simps [simp del]

definition trimSpace :: "string \<Rightarrow> string" where
  "trimSpace s = rev (stripSeqs (map rev spaceSeqs) (rev (stripSeqs spaceSeqs s)))"

subsection \<open>Package strconv\<close>

definition isDigit :: "char \<Rightarrow> bool" where
  "isDigit c \<longleftrightarrow> 48 \<le> (of_char c :: nat) \<and> (of_char c :: nat) \<le> 57"

definition digitVal :: "char \<Rightarrow> nat" where
  "digitVal c = of_char c - 48"

definition digitChar :: "nat \<Rightarrow> char" where
  "digitChar d = char_of (d + 48)"

definition digitsVal :: "string \<Rightarrow> nat" where
  "digitsVal = foldl (\<lambda>n c. n * 10 + digitVal c) 0"

definition maxInt64 :: int where "maxInt64 = 2 ^ 63 - 1"
definition minInt64 :: int where "minInt64 = - (2 ^ 63)"

text \<open>
  \<open>strconv.Atoi\<close>: an optional sign and at least one decimal digit, nothing else, with a
  value that fits the 64-bit \<open>int\<close>; every other input is an error.
\<close>

definition atoi :: "string \<Rightarrow> int option" where
  "atoi s =
     (let neg = prefix ''-'' s;
          ds = (if prefix ''-'' s \<or> prefix ''+'' s then tl s else s);
          v = (if neg then - int (digitsVal ds) else int (digitsVal ds))
      in if ds \<noteq> [] \<and> list_all isDigit ds \<and> minInt64 \<le> v \<and> v \<le> maxInt64 then Some v else None)"

fun itoaNat :: "nat \<Rightarrow> string" where
  "itoaNat n = (if n < 10 then [digitChar n] else itoaNat (n div 10) @ [digitChar (n mod 10)])"

declare itoaNat.simps [simp del]

definition itoa :: "int \<Rightarrow> string" where
  "itoa i = (if i < 0 then ''-'' @ itoaNat (nat (- i)) else itoaNat (nat i))"

subsection \<open>Lemmas on splitting and joining\<close>

lemma splitOn_not_Nil [simp]: "splitOn c s \<noteq> []"
  by (induction s) (auto split: list.splits)

lemma splitOn_no_sep: "c \<notin> set s \<Longrightarrow> splitOn c s = [s]"
  by (induction s) auto

lemma splitOn_append_sep: "c \<notin> set s \<Longrightarrow> splitOn c (s @ c # t) = s # splitOn c t"
  by (induction s) auto

lemma splitOn_parts_no_sep: "p \<in> set (splitOn c s) \<Longrightarrow> c \<notin> set p"
proof (induction s arbitrary: p)
  case Nil
  then show ?case by simp
next
  case (Cons x xs)
  then show ?case
    by (cases "splitOn c xs") (auto split: if_splits)
qed

text \<open>Joining after a leading separator, the shape of a path \<open>/a/b/c\<close>.\<close>

definition prefixEach :: "char \<Rightarrow> string list \<Rightarrow> string" where
  "prefixEach c ss = concat (map (\<lambda>s. c # s) ss)"

lemma splitOn_prefixEach:
  "\<forall>s \<in> set (s0 # ss). c \<notin> set s \<Longrightarrow> splitOn c (s0 @ prefixEach c ss) = s0 # ss"
proof (induction ss arbitrary: s0)
  case Nil
  then show ?case by (simp add: prefixEach_def splitOn_no_sep)
next
  case (Cons t ts)
  have "s0 @ prefixEach c (t # ts) = s0 @ c # (t @ prefixEach c ts)"
    by (simp add: prefixEach_def)
  with Cons show ?case
    by (simp add: splitOn_append_sep)
qed

lemma splitOn_join: "joinWith [c] (splitOn c s) = s"
proof (induction s)
  case Nil
  then show ?case by simp
next
  case (Cons x xs)
  obtain y ys where "splitOn c xs = y # ys"
    by (cases "splitOn c xs") auto
  with Cons show ?case
    by (cases ys) auto
qed

lemma splitOn_append: "splitOn c (s @ c # t) = splitOn c s @ splitOn c t"
  by (induction s) (auto split: list.splits)

lemma joinWith_append:
  "xs \<noteq> [] \<Longrightarrow> ys \<noteq> [] \<Longrightarrow> joinWith sep (xs @ ys) = joinWith sep xs @ sep @ joinWith sep ys"
proof (induction sep xs rule: joinWith.induct)
  case (2 sep s)
  then show ?case by (cases ys) auto
qed auto

lemma splitOn_joinWith:
  "ss \<noteq> [] \<Longrightarrow> \<forall>s \<in> set ss. c \<notin> set s \<Longrightarrow> splitOn c (joinWith [c] ss) = ss"
  by (induction "[c]" ss rule: joinWith.induct) (auto simp: splitOn_no_sep splitOn_append)

lemma splitOn_prefix:
  "s = t \<or> prefix (t @ [c]) s \<longleftrightarrow> prefix (splitOn c t) (splitOn c s)"
proof
  assume "s = t \<or> prefix (t @ [c]) s"
  then show "prefix (splitOn c t) (splitOn c s)"
    by (auto simp: prefix_def splitOn_append)
next
  assume "prefix (splitOn c t) (splitOn c s)"
  then obtain us where us: "splitOn c s = splitOn c t @ us"
    by (auto simp: prefix_def)
  then have "s = joinWith [c] (splitOn c t @ us)"
    using splitOn_join[of c s] by simp
  then show "s = t \<or> prefix (t @ [c]) s"
    by (cases "us = []") (simp_all add: splitOn_join joinWith_append)
qed

lemma splitN2_Some: "c \<notin> set a \<Longrightarrow> splitN2 c (a @ c # b) = [a, b]"
  by (simp add: splitN2_def takeWhile_append dropWhile_append)

subsection \<open>Lemmas on numbers and their text\<close>

lemma isDigit_digitChar [simp]: "d < 10 \<Longrightarrow> isDigit (digitChar d)"
  by (simp add: isDigit_def digitChar_def)

lemma digitVal_digitChar [simp]: "d < 10 \<Longrightarrow> digitVal (digitChar d) = d"
  by (simp add: digitVal_def digitChar_def)

lemma digitsVal_snoc [simp]: "digitsVal (s @ [c]) = digitsVal s * 10 + digitVal c"
  by (simp add: digitsVal_def)

lemma itoaNat_not_Nil [simp]: "itoaNat n \<noteq> []"
  by (subst itoaNat.simps) simp

lemma itoaNat_digits: "list_all isDigit (itoaNat n)"
  by (induction n rule: itoaNat.induct) (subst itoaNat.simps, simp)

lemma digitsVal_itoaNat: "digitsVal (itoaNat n) = n"
proof (induction n rule: itoaNat.induct)
  case (1 n)
  show ?case
  proof (cases "n < 10")
    case True
    then show ?thesis by (subst itoaNat.simps) (simp add: digitsVal_def)
  next
    case False
    with 1 show ?thesis by (subst itoaNat.simps) simp
  qed
qed

lemma itoaNat_hd: "\<exists>c cs. itoaNat n = c # cs \<and> isDigit c"
  using itoaNat_digits[of n] by (cases "itoaNat n") auto

lemma isDigit_not_sign: "isDigit c \<Longrightarrow> c \<noteq> CHR ''-'' \<and> c \<noteq> CHR ''+''"
  by (auto simp: isDigit_def)

lemma isDigit_not_special: "isDigit c \<Longrightarrow> c \<noteq> CHR ''/'' \<and> c \<noteq> CHR ''~''"
  by (auto simp: isDigit_def)

lemma atoi_itoaNat: "int n \<le> maxInt64 \<Longrightarrow> atoi (itoaNat n) = Some (int n)"
proof -
  assume n: "int n \<le> maxInt64"
  obtain c cs where c: "itoaNat n = c # cs" "isDigit c"
    using itoaNat_hd by blast
  then have "\<not> prefix ''-'' (itoaNat n)" "\<not> prefix ''+'' (itoaNat n)"
    using isDigit_not_sign by auto
  moreover have "minInt64 \<le> int n"
    by (simp add: minInt64_def)
  ultimately show ?thesis
    using n itoaNat_digits[of n] digitsVal_itoaNat[of n]
    by (simp add: atoi_def)
qed

lemma atoi_range: "atoi s = Some v \<Longrightarrow> minInt64 \<le> v \<and> v \<le> maxInt64"
  by (auto simp: atoi_def Let_def split: if_splits)

lemma atoi_dash [simp]: "atoi ''-'' = None"
  by (simp add: atoi_def)

lemma atoi_Nil [simp]: "atoi [] = None"
  by (simp add: atoi_def)

subsection \<open>Lemmas on finite maps\<close>

lemma set_sorted_list_of_fmap: "(k, v) \<in> set (sorted_list_of_fmap m) \<longleftrightarrow> fmlookup m k = Some v"
  by (auto simp: sorted_list_of_fmap_def fmlookup_dom_iff)

lemma values_mem: "e \<in> set (map snd (sorted_list_of_fmap m)) \<longleftrightarrow> (\<exists>k. fmlookup m k = Some e)"
proof -
  have "e \<in> set (map snd (sorted_list_of_fmap m)) \<longleftrightarrow> (\<exists>k. (k, e) \<in> set (sorted_list_of_fmap m))"
    by force
  then show ?thesis by (simp add: set_sorted_list_of_fmap)
qed

lemma fmupd_same: "fmlookup m k = Some v \<Longrightarrow> fmupd k v m = m"
  by (rule fmap_ext) auto

lemma fmdrop_missing: "fmlookup m k = None \<Longrightarrow> fmdrop k m = m"
  by (rule fmap_ext) (simp add: fmlookup_drop)

lemma fmupd_fmlookup_eq: "fmupd k v m = fmupd k v' m' \<Longrightarrow> v = v'"
  by (metis fmupd_lookup option.inject)

subsection \<open>Lemmas on paths and pairs\<close>

lemma parallel_Cons_cases:
  assumes "r \<parallel> a # q"
  obtains s r' where "r = s # r'" and "s = a \<longrightarrow> r' \<parallel> q"
  using assms by (cases r) (auto simp: parallel_def)

lemma map_prod_id_eq [simp]: "map_prod f id x = (y, e) \<longleftrightarrow> (\<exists>z. x = (z, e) \<and> y = f z)"
  by (cases x) auto

end
