(* ===== verification/Json_Value.thy ===== *)
theory Json_Value
  imports Go_Prelude
begin

text \<open>
  The dynamically typed documents that templates render and patches change: Go's \<open>any\<close> as
  it occurs in a Kubernetes resource, \<^verbatim>\<open>src/internal/clone/deepcopy.go\<close> and the slice
  normalisation \<open>toAnySlice\<close> of \<^verbatim>\<open>src/internal/patch/rfc6902.go\<close>.

  \<open>JArr\<close> is \<open>[]any\<close> and \<open>JMaps\<close> is the distinct Go type \<open>[]map[string]any\<close>. A float
  is kept as the text \<open>%v\<close> prints for it: the code only copies floats and prints them.
  Documents are trees. The code keeps them so by cloning every value it inserts
  (\<open>clone.DeepCopy\<close>), which on trees is the identity (\<open>DeepCopy_id\<close> below).
\<close>

datatype jval =
    JNil
  | JBool bool
  | JInt int
  | JFloat string
  | JStr string
  | JArr "jval list"
  | JMaps "(string, jval) fmap list"
  | JObj "(string, jval) fmap"

type_synonym jobj = "(string, jval) fmap"

text \<open>Indexing a Go map: \<open>m[k]\<close> is nil where the key is missing.\<close>

definition orNil :: "jval option \<Rightarrow> jval" where
  "orNil x = (case x of None \<Rightarrow> JNil | Some v \<Rightarrow> v)"

lemma orNil_simps [simp]: "orNil None = JNil" "orNil (Some v) = v"
  by (simp_all add: orNil_def)

subsection \<open>Cloning\<close>

primrec DeepCopy :: "jval \<Rightarrow> jval" where
  "DeepCopy JNil = JNil"
| "DeepCopy (JBool b) = JBool b"
| "DeepCopy (JInt i) = JInt i"
| "DeepCopy (JFloat f) = JFloat f"
| "DeepCopy (JStr s) = JStr s"
| "DeepCopy (JArr xs) = JArr (map DeepCopy xs)"
| "DeepCopy (JMaps ms) = JMaps ms"
| "DeepCopy (JObj m) = JObj (fmmap DeepCopy m)"

definition DeepCopyMap :: "jobj \<Rightarrow> jobj" where
  "DeepCopyMap m = fmmap DeepCopy m"

lemma DeepCopy_id [simp]: "DeepCopy v = v"
proof (induction v)
  case (JArr xs)
  then show ?case by (simp add: map_idI)
next
  case (JObj m)
  have "fmlookup (fmmap DeepCopy m) k = fmlookup m k" for k
    using JObj by (cases "fmlookup m k") (auto intro: fmran'I)
  then show ?case by (auto intro: fmap_ext)
qed auto

lemma DeepCopyMap_id [simp]: "DeepCopyMap m = m"
  unfolding DeepCopyMap_def by (rule fmap_ext) (simp add: map_option_case split: option.splits)

lemmas fmmap_DeepCopy [simp] = DeepCopyMap_id[unfolded DeepCopyMap_def]

subsection \<open>Typed slices\<close>

definition toAnySlice :: "jval \<Rightarrow> jval list option" where
  "toAnySlice v =
     (case v of
        JArr arr \<Rightarrow> Some arr
      | JMaps ms \<Rightarrow> Some (map JObj ms)
      | _ \<Rightarrow> None)"

lemma toAnySlice_simps [simp]:
  "toAnySlice (JArr arr) = Some arr"
  "toAnySlice (JMaps ms) = Some (map JObj ms)"
  "toAnySlice (JObj m) = None"
  "toAnySlice JNil = None"
  by (simp_all add: toAnySlice_def)

lemma toAnySlice_Some: "toAnySlice v = Some arr \<longleftrightarrow> v = JArr arr \<or> (\<exists>ms. v = JMaps ms \<and> arr = map JObj ms)"
  by (cases v) (auto simp: toAnySlice_def)

subsection \<open>Printing with the verb v\<close>

definition sprintMap :: "(string, string) fmap \<Rightarrow> string" where
  "sprintMap m =
     ''map['' @ joinWith '' '' (map (\<lambda>(k, v). k @ '':'' @ v) (sorted_list_of_fmap m)) @ '']''"

primrec sprintv :: "jval \<Rightarrow> string" where
  "sprintv JNil = ''<nil>''"
| "sprintv (JBool b) = (if b then ''true'' else ''false'')"
| "sprintv (JInt i) = itoa i"
| "sprintv (JFloat f) = f"
| "sprintv (JStr s) = s"
| "sprintv (JArr xs) = ''['' @ joinWith '' '' (map sprintv xs) @ '']''"
| "sprintv (JMaps ms) = ''['' @ joinWith '' '' (map sprintMap (map (fmmap sprintv) ms)) @ '']''"
| "sprintv (JObj m) = sprintMap (fmmap sprintv m)"

end
