(* ===== verification/Patch_Path.thy ===== *)
theory Patch_Path
  imports Json_Value
begin

text \<open>
  Path expressions of the JSON patch engine: \<^verbatim>\<open>src/internal/patch/helpers.go\<close> (RFC 6901
  escaping and splitting) and \<^verbatim>\<open>src/internal/patch/expand_paths.go\<close> (filters, wildcards,
  indices and the append marker expanded to JSON Pointers).

  The two regular expressions of the package are modelled by the functions that decide them,
  \<open>filterExprMatch\<close> and \<open>containsFilterOrWildcard\<close>.
\<close>

named_theorems path_simps \<open>unfolding rules of the path functions\<close>

subsection \<open>Errors of the package\<close>

datatype patchError =
    UnclosedBracket string
  | UnsupportedArrayIndex string
  | ExpectsObject string
  | ExpectsArray
  | IndexOutOfBounds int
  | WildcardExpectsArray string
  | FilterExpectsArray string
  | UnsupportedFilter string
  | TooManyStates
  | NoMatches string
  | RootDocument string
  | EmptyPointer
  | PathDoesNotExist string
  | ExpectedArrayAt string
  | IndexOutOfBoundsAt int string
  | UnexpectedArrayTraversal string
  | CannotTraverse string
  | ParentMustBeMap
  | InvalidArrayIndex string
  | AddOutOfBounds int nat
  | ArrayTooLarge nat
  | ReplaceAppendMarker
  | ReplaceOutOfBounds int nat
  | ReplaceMissingKey string
  | RemoveAppendMarker
  | RemoveOutOfBounds int nat
  | UnsupportedOperation string
  | ExpectedIndexAt string
  | ParentIndexOutOfBounds string string
  | MergeValueNotObject
  | MergeAppendMarker
  | MergeInvalidIndex string
  | MergeOutOfBounds int
  | MergeParentNotContainer
  | MissingPathAt string
  | OperationFailed nat patchError

subsection \<open>RFC 6901 escaping (helpers.go)\<close>

definition escapePointerSegment :: "string \<Rightarrow> string" where
  "escapePointerSegment seg = replaceAll ''/'' ''~1'' (replaceAll ''~'' ''~0'' seg)"

definition unescapePointerSegment :: "string \<Rightarrow> string" where
  "unescapePointerSegment seg = replaceAll ''~0'' ''~'' (replaceAll ''~1'' ''/'' seg)"

definition splitAndUnescapePath :: "string \<Rightarrow> string list" where
  "splitAndUnescapePath path =
     (if path = [] then []
      else let trimmed = trimPrefix path ''/''
           in if trimmed = [] then [[]]
              else map unescapePointerSegment (splitOn (CHR ''/'') trimmed))"

definition splitPointer :: "string \<Rightarrow> string list" where
  "splitPointer pointer = splitAndUnescapePath pointer"

definition splitRawPath :: "string \<Rightarrow> string list" where
  "splitRawPath path = splitAndUnescapePath path"

subsection \<open>Path states and pointers (expand\_paths.go)\<close>

record pathState =
  pointer :: "string list"
  pvalue :: jval

definition appendPointer :: "string list \<Rightarrow> string \<Rightarrow> string list" where
  "appendPointer base segment = base @ [segment]"

definition buildJSONPointer :: "string list \<Rightarrow> string" where
  "buildJSONPointer segments =
     concat (map (\<lambda>seg. ''/'' @ (if seg = ''-'' then seg else escapePointerSegment seg)) segments)"

definition applyKey :: "pathState list \<Rightarrow> string \<Rightarrow> (patchError, pathState list) result" where
  "applyKey states key =
     (if key = [] then Inr states
      else concatMapR (\<lambda>st.
        case pvalue st of
          JObj m \<Rightarrow>
            Inr [\<lparr>pointer = appendPointer (pointer st) key,
                  pvalue = (case fmlookup m key of None \<Rightarrow> JNil | Some child \<Rightarrow> child)\<rparr>]
        | JNil \<Rightarrow> Inr [\<lparr>pointer = appendPointer (pointer st) key, pvalue = JNil\<rparr>]
        | _ \<Rightarrow> Inl (ExpectsObject key)) states)"

definition applyIndex :: "pathState list \<Rightarrow> int \<Rightarrow> (patchError, pathState list) result" where
  "applyIndex states index =
     concatMapR (\<lambda>st.
       case toAnySlice (pvalue st) of
         None \<Rightarrow> Inl ExpectsArray
       | Some arr \<Rightarrow>
           if index < 0 \<or> index \<ge> int (length arr) then Inl (IndexOutOfBounds index)
           else Inr [\<lparr>pointer = appendPointer (pointer st) (itoa index),
                      pvalue = arr ! nat index\<rparr>]) states"

definition applyDash :: "pathState list \<Rightarrow> pathState list" where
  "applyDash states = map (\<lambda>st. \<lparr>pointer = appendPointer (pointer st) ''-'', pvalue = JNil\<rparr>) states"

definition applyWildcard :: "pathState list \<Rightarrow> (patchError, pathState list) result" where
  "applyWildcard states =
     concatMapR (\<lambda>st.
       case toAnySlice (pvalue st) of
         None \<Rightarrow> Inl (WildcardExpectsArray (buildJSONPointer (pointer st)))
       | Some arr \<Rightarrow>
           Inr (map (\<lambda>(idx, item). \<lparr>pointer = appendPointer (pointer st) (itoa (int idx)),
                                     pvalue = item\<rparr>) (List.enumerate 0 arr))) states"

subsection \<open>Filters\<close>

definition isFieldChar :: "char \<Rightarrow> bool" where
  "isFieldChar c \<longleftrightarrow>
     (65 \<le> (of_char c :: nat) \<and> (of_char c :: nat) \<le> 90) \<or>
     (97 \<le> (of_char c :: nat) \<and> (of_char c :: nat) \<le> 122) \<or>
     isDigit c \<or> c = CHR ''_'' \<or> c = CHR ''.'' \<or> c = CHR ''-''"

definition isRegexSpace :: "char \<Rightarrow> bool" where
  "isRegexSpace c \<longleftrightarrow> c \<in> {CHR 0x09, CHR 0x0A, CHR 0x0C, CHR 0x0D, CHR 0x20}"

definition isQuote :: "char \<Rightarrow> bool" where
  "isQuote c \<longleftrightarrow> c = CHR 0x27 \<or> c = CHR 0x22"

text \<open>
  \<open>filterExpr.FindStringSubmatch\<close>: the character class of the field excludes blanks, quotes
  and the equals sign, and the last group is anchored at the end of the text, so the greedy match
  is unique and is found by scanning once. The two quotes need not be the same character.
\<close>

definition filterExprMatch :: "string \<Rightarrow> (string \<times> string) option" where
  "filterExprMatch s =
     (if \<not> prefix ''@.'' s then None
      else let field = takeWhile isFieldChar (drop 2 s);
               r = dropWhile isRegexSpace (dropWhile isFieldChar (drop 2 s))
           in if field = [] \<or> \<not> prefix ''=='' r then None
              else (case dropWhile isRegexSpace (drop 2 r) of
                      [] \<Rightarrow> None
                    | q # body \<Rightarrow>
                        if isQuote q \<and> body \<noteq> [] \<and> isQuote (last body) \<and>
                           CHR 0x0A \<notin> set (butlast body)
                        then Some (field, butlast body) else None))"

fun fieldAt :: "jval \<Rightarrow> string list \<Rightarrow> jval option" where
  "fieldAt current [] = Some current"
| "fieldAt current (segment # fieldPath) =
     (case current of
        JObj m \<Rightarrow> (case fmlookup m segment of None \<Rightarrow> None | Some next \<Rightarrow> fieldAt next fieldPath)
      | _ \<Rightarrow> None)"

definition matchesFilter :: "jval \<Rightarrow> string \<Rightarrow> (patchError, bool) result" where
  "matchesFilter item expr =
     (case filterExprMatch (trimSpace expr) of
        None \<Rightarrow> Inl (UnsupportedFilter expr)
      | Some (field, expected) \<Rightarrow>
          (case fieldAt item (splitOn (CHR ''.'') field) of
             None \<Rightarrow> Inr False
           | Some JNil \<Rightarrow> Inr (expected = [])
           | Some current \<Rightarrow> Inr (sprintv current = expected)))"

definition applyFilter :: "pathState list \<Rightarrow> string \<Rightarrow> (patchError, pathState list) result" where
  "applyFilter states expr =
     concatMapR (\<lambda>st.
       case toAnySlice (pvalue st) of
         None \<Rightarrow> Inl (FilterExpectsArray (buildJSONPointer (pointer st)))
       | Some arr \<Rightarrow>
           concatMapR (\<lambda>(idx, item).
             bindR (matchesFilter item expr) (\<lambda>match.
               Inr (if match
                    then [\<lparr>pointer = appendPointer (pointer st) (itoa (int idx)), pvalue = item\<rparr>]
                    else []))) (List.enumerate 0 arr)) states"

subsection \<open>Segments and paths\<close>

definition applyBracket :: "pathState list \<Rightarrow> string \<Rightarrow> (patchError, pathState list) result" where
  "applyBracket current content =
     (if prefix ''?('' content \<and> suffix '')'' content
      then applyFilter current (butlast (drop 2 content))
      else if content = ''*'' then applyWildcard current
      else if content = ''-'' then Inr (applyDash current)
      else (case atoi content of
              None \<Rightarrow> Inl (UnsupportedArrayIndex content)
            | Some index \<Rightarrow> applyIndex current index))"

definition applyToken :: "pathState list \<Rightarrow> string \<Rightarrow> (patchError, pathState list) result" where
  "applyToken current token =
     (if token = [] then Inr current
      else (case atoi token of
              Some idx \<Rightarrow> applyIndex current idx
            | None \<Rightarrow> applyKey current token))"

lemma bindR_fundef_cong [fundef_cong]:
  "r = r' \<Longrightarrow> (\<And>a. r' = Inr a \<Longrightarrow> f a = g a) \<Longrightarrow> bindR r f = bindR r' g"
  by (cases r') auto

function applySegmentLoop ::
    "string \<Rightarrow> pathState list \<Rightarrow> string \<Rightarrow> (patchError, pathState list) result" where
  "applySegmentLoop segment current remaining =
     (if remaining = [] then Inr current
      else if hd remaining = CHR ''['' then
        (if CHR '']'' \<notin> set remaining then Inl (UnclosedBracket segment)
         else bindR (applyBracket current (takeWhile (\<lambda>c. c \<noteq> CHR '']'') (tl remaining)))
                (\<lambda>cur. applySegmentLoop segment cur
                         (tl (dropWhile (\<lambda>c. c \<noteq> CHR '']'') remaining))))
      else bindR (applyToken current (takeWhile (\<lambda>c. c \<noteq> CHR ''['') remaining))
             (\<lambda>cur. applySegmentLoop segment cur (dropWhile (\<lambda>c. c \<noteq> CHR ''['') remaining)))"
  by pat_completeness auto
termination
proof (relation "measure (\<lambda>(segment, current, remaining). length remaining)", goal_cases)
  case 1
  show ?case by simp
next
  case (2 segment current remaining cur)
  then show ?case
    by (cases remaining) (auto simp: le_imp_less_Suc length_dropWhile_le less_Suc_eq_le
        intro: order.trans[OF diff_le_self])
next
  case (3 segment current remaining cur)
  then show ?case
    by (cases remaining) (auto simp: le_imp_less_Suc length_dropWhile_le)
qed

declare applySegmentLoop.simps [simp del]

lemma applySegmentLoop_done [simp]: "applySegmentLoop segment current [] = Inr current"
  by (subst applySegmentLoop.simps) simp

definition applySegment :: "pathState \<Rightarrow> string \<Rightarrow> (patchError, pathState list) result" where
  "applySegment state segment = applySegmentLoop segment [state] segment"

definition maxPathStates :: nat where "maxPathStates = 2 ^ 16"

fun expandStates ::
    "string \<Rightarrow> pathState list \<Rightarrow> pathState list \<Rightarrow> (patchError, pathState list) result" where
  "expandStates segment [] nextStates = Inr nextStates"
| "expandStates segment (st # states) nextStates =
     bindR (applySegment st segment) (\<lambda>expanded.
       if length nextStates + length expanded > maxPathStates then Inl TooManyStates
       else expandStates segment states (nextStates @ expanded))"

fun expandSegments :: "pathState list \<Rightarrow> string list \<Rightarrow> (patchError, pathState list) result" where
  "expandSegments states [] = Inr states"
| "expandSegments states (segment # segments) =
     (if segment = ''-'' then expandSegments (applyDash states) segments
      else bindR (expandStates segment states []) (\<lambda>next.
             if next = [] then Inr [] else expandSegments next segments))"

definition expandPaths :: "jobj \<Rightarrow> string \<Rightarrow> (patchError, string list) result" where
  "expandPaths root rawPath =
     (if rawPath = [] then Inr [[]]
      else bindR (expandSegments [\<lparr>pointer = [], pvalue = JObj root\<rparr>] (splitRawPath rawPath))
             (\<lambda>states. Inr (map (\<lambda>st. buildJSONPointer (pointer st)) states)))"

text \<open>
  \<open>filterOrWildcardPattern.MatchString\<close>: somewhere in the path there is \<open>[*]\<close>, or
  \<open>[?(\<close> followed, before any line break, by \<open>)]\<close>.
\<close>

fun closesFilter :: "string \<Rightarrow> bool" where
  "closesFilter [] = False"
| "closesFilter (c # cs) = (prefix '')]'' (c # cs) \<or> (c \<noteq> CHR 0x0A \<and> closesFilter cs))"

fun containsFilterOrWildcard :: "string \<Rightarrow> bool" where
  "containsFilterOrWildcard [] = False"
| "containsFilterOrWildcard (c # cs) =
     (prefix ''[*]'' (c # cs) \<or> (prefix ''[?('' (c # cs) \<and> closesFilter (drop 2 cs)) \<or>
      containsFilterOrWildcard cs)"

subsection \<open>Pointers survive building and splitting\<close>

lemma replaceAll_Nil [simp]: "replaceAll old new [] = []"
  by (subst replaceAll.simps) simp

lemma replaceAll_skip:
  "old \<noteq> [] \<Longrightarrow> \<not> prefix old (c # s) \<Longrightarrow> replaceAll old new (c # s) = c # replaceAll old new s"
  by (subst replaceAll.simps) simp

lemma replaceAll_hit: "old \<noteq> [] \<Longrightarrow> replaceAll old new (old @ s) = new @ replaceAll old new s"
  by (subst replaceAll.simps) simp

lemma replaceAll_char: "replaceAll [a] new s = concat (map (\<lambda>c. if c = a then new else [c]) s)"
proof (induction s)
  case Nil
  then show ?case by simp
next
  case (Cons c s)
  then show ?case
    using replaceAll_hit[of "[a]" new s] by (cases "c = a") (auto simp: replaceAll_skip)
qed

definition escapeChar :: "char \<Rightarrow> string" where
  "escapeChar c = (if c = CHR ''~'' then ''~0'' else if c = CHR ''/'' then ''~1'' else [c])"

lemma escapePointerSegment_chars: "escapePointerSegment s = concat (map escapeChar s)"
  unfolding escapePointerSegment_def replaceAll_char
  by (induction s) (auto simp: escapeChar_def)

lemma escapePointerSegment_Cons [simp]:
  "escapePointerSegment [] = []"
  "escapePointerSegment (c # s) = escapeChar c @ escapePointerSegment s"
  by (simp_all add: escapePointerSegment_chars)

lemma escapePointerSegment_eq_Nil [simp]: "escapePointerSegment s = [] \<longleftrightarrow> s = []"
  by (cases s) (auto simp: escapeChar_def)

lemma escapePointerSegment_no_slash: "CHR ''/'' \<notin> set (escapePointerSegment s)"
  by (induction s) (auto simp: escapeChar_def)

lemma unescape_slashes:
  "replaceAll ''~1'' ''/'' (escapePointerSegment s) =
     concat (map (\<lambda>c. if c = CHR ''~'' then ''~0'' else [c]) s)"
proof (induction s)
  case Nil
  then show ?case by simp
next
  case (Cons c s)
  then show ?case
    using replaceAll_hit[of "''~1''" "''/''" "escapePointerSegment s"]
    by (auto simp: escapeChar_def replaceAll_skip)
qed

lemma unescape_tildes:
  "replaceAll ''~0'' ''~'' (concat (map (\<lambda>c. if c = CHR ''~'' then ''~0'' else [c]) s)) = s"
proof (induction s)
  case Nil
  then show ?case by simp
next
  case (Cons c s)
  then show ?case
    using replaceAll_hit[of "''~0''" "''~''"
        "concat (map (\<lambda>c. if c = CHR ''~'' then ''~0'' else [c]) s)"]
    by (auto simp: replaceAll_skip)
qed

lemma unescape_escape [simp]: "unescapePointerSegment (escapePointerSegment s) = s"
  by (simp add: unescapePointerSegment_def unescape_slashes unescape_tildes)

lemma buildJSONPointer_prefixEach:
  "buildJSONPointer segs = prefixEach (CHR ''/'') (map escapePointerSegment segs)"
proof -
  have "escapePointerSegment ''-'' = ''-''"
    by (simp add: escapeChar_def)
  then have "(\<lambda>seg. ''/'' @ (if seg = ''-'' then seg else escapePointerSegment seg)) =
    (\<lambda>seg. CHR ''/'' # escapePointerSegment seg)"
    by auto
  then show ?thesis
    by (simp add: buildJSONPointer_def prefixEach_def comp_def)
qed

lemma buildJSONPointer_Cons:
  "buildJSONPointer (s # segs) = CHR ''/'' # escapePointerSegment s @ buildJSONPointer segs"
  by (simp add: buildJSONPointer_prefixEach prefixEach_def)

lemma splitPointer_build [simp]: "splitPointer (buildJSONPointer segs) = segs"
proof (cases segs)
  case Nil
  then show ?thesis
    by (simp add: splitPointer_def splitAndUnescapePath_def buildJSONPointer_def)
next
  case (Cons s ss)
  have split: "splitOn (CHR ''/'') (escapePointerSegment s @ buildJSONPointer ss) =
      map escapePointerSegment (s # ss)"
    unfolding buildJSONPointer_prefixEach list.map
    by (rule splitOn_prefixEach) (auto simp: escapePointerSegment_no_slash)
  have "escapePointerSegment s @ buildJSONPointer ss = [] \<Longrightarrow> s = [] \<and> ss = []"
    by (cases ss) (auto simp: buildJSONPointer_Cons)
  with split Cons show ?thesis
    by (auto simp: splitPointer_def splitAndUnescapePath_def trimPrefix_def buildJSONPointer_Cons
        Let_def comp_def)
qed

lemma buildJSONPointer_inj: "buildJSONPointer p = buildJSONPointer q \<longleftrightarrow> p = q"
  by (metis splitPointer_build)

end
