(* ===== verification/Patch_Path_Facts.thy ===== *)
theory Patch_Path_Facts
  imports Patch_Path
begin

text \<open>
  What path expansion returns: every pointer locates a place of the document (\<open>locates\<close>),
  the pointers are pairwise different, and there are never more of them than the state limit.
  A filter selects exactly the array elements that satisfy it.
\<close>

subsection \<open>The places a pointer can name\<close>

text \<open>
  An array index as RFC 6901 writes it: decimal digits without a leading zero. A canonical segment
  is not empty and, where \<open>strconv.Atoi\<close> reads it as a number, is written that way.
\<close>

definition indexSegment :: "string \<Rightarrow> nat option" where
  "indexSegment s = (let n = digitsVal s in if itoaNat n = s then Some n else None)"

definition canonicalSeg :: "string \<Rightarrow> bool" where
  "canonicalSeg s \<longleftrightarrow> s \<noteq> [] \<and> (atoi s = None \<or> indexSegment s \<noteq> None)"

lemma indexSegment_Some: "indexSegment s = Some i \<longleftrightarrow> s = itoaNat i"
  by (auto simp: indexSegment_def Let_def digitsVal_itoaNat)

lemma indexSegment_itoaNat [simp]: "indexSegment (itoaNat i) = Some i"
  by (simp add: indexSegment_Some)

lemma itoaNat_inj [simp]: "itoaNat i = itoaNat j \<longleftrightarrow> i = j"
  by (metis digitsVal_itoaNat)

lemma canonicalSeg_index [simp]: "canonicalSeg (itoaNat i)"
  by (simp add: canonicalSeg_def)

lemma canonicalSeg_atoi: "canonicalSeg s \<Longrightarrow> atoi s = Some i \<Longrightarrow> 0 \<le> i \<and> s = itoaNat (nat i)"
proof -
  assume "canonicalSeg s" and i: "atoi s = Some i"
  then obtain n where n: "s = itoaNat n"
    by (auto simp: canonicalSeg_def indexSegment_Some)
  then have "list_all isDigit s" "digitsVal s = n" "s \<noteq> []"
    by (simp_all add: itoaNat_digits digitsVal_itoaNat)
  moreover have "\<not> prefix ''-'' s" "\<not> prefix ''+'' s"
    using itoaNat_hd[of n] n by (auto simp: isDigit_def)
  ultimately have "i = int n"
    using i by (auto simp: atoi_def Let_def split: if_splits)
  with n show ?thesis by simp
qed

text \<open>
  \<open>locates root p v\<close>: following the segments \<open>p\<close> from \<open>root\<close> ends at the value \<open>v\<close>. A missing
  key and everything below it is \<open>JNil\<close>, as is the position after the append marker. An object key
  that reads as a number is not reached: the path language takes it for an index.
\<close>

inductive locates :: "jval \<Rightarrow> string list \<Rightarrow> jval \<Rightarrow> bool" for root where
  locates_root: "locates root [] root"
| locates_key: "locates root p (JObj m) \<Longrightarrow> k \<noteq> [] \<Longrightarrow> atoi k = None \<Longrightarrow>
     fmlookup m k = Some v \<Longrightarrow> locates root (p @ [k]) v"
| locates_absent: "locates root p (JObj m) \<Longrightarrow> k \<noteq> [] \<Longrightarrow> atoi k = None \<Longrightarrow>
     fmlookup m k = None \<Longrightarrow> locates root (p @ [k]) JNil"
| locates_below_nil: "locates root p JNil \<Longrightarrow> k \<noteq> [] \<Longrightarrow> atoi k = None \<Longrightarrow>
     locates root (p @ [k]) JNil"
| locates_index:
    "locates root p v \<Longrightarrow> toAnySlice v = Some arr \<Longrightarrow> i < length arr \<Longrightarrow>
     locates root (p @ [itoaNat i]) (arr ! i)"
| locates_append: "locates root p v \<Longrightarrow> locates root (p @ [''-'']) JNil"

lemma locates_canonical: "locates root p v \<Longrightarrow> list_all canonicalSeg p"
  by (induction rule: locates.induct) (auto simp: canonicalSeg_def)

text \<open>RFC 6901 evaluation of a pointer, where it has a value.\<close>

fun resolve :: "jval \<Rightarrow> string list \<Rightarrow> jval option" where
  "resolve v [] = Some v"
| "resolve v (s # ss) =
     (case v of
        JObj m \<Rightarrow> Option.bind (fmlookup m s) (\<lambda>c. resolve c ss)
      | _ \<Rightarrow> (case toAnySlice v of
                None \<Rightarrow> None
              | Some arr \<Rightarrow>
                  (case indexSegment s of
                     None \<Rightarrow> None
                   | Some i \<Rightarrow> if i < length arr then resolve (arr ! i) ss else None)))"

lemma resolve_append:
  "resolve v (p @ q) = Option.bind (resolve v p) (\<lambda>w. resolve w q)"
proof (induction p arbitrary: v)
  case Nil
  then show ?case by simp
next
  case (Cons s p)
  then show ?case
    by (cases v) (auto simp: toAnySlice_def split: option.splits bind_splits)
qed

lemma resolve_index:
  "toAnySlice v = Some arr \<Longrightarrow> i < length arr \<Longrightarrow> resolve v [itoaNat i] = Some (arr ! i)"
  by (auto simp: toAnySlice_Some)

lemma locates_resolve: "locates root p v \<Longrightarrow> v \<noteq> JNil \<Longrightarrow> resolve root p = Some v"
  by (induction rule: locates.induct)
     (auto simp: resolve_append resolve_index toAnySlice_Some)

subsection \<open>State sets\<close>

text \<open>
  The invariant of the expansion loop: every state locates its value, and no pointer is a prefix
  of another one.
\<close>

definition states_ok :: "jval \<Rightarrow> pathState list \<Rightarrow> bool" where
  "states_ok root states \<longleftrightarrow>
     (\<forall>st \<in> set states. locates root (pointer st) (pvalue st)) \<and>
     sorted_wrt (\<parallel>) (map pointer states)"

text \<open>What expanding states yields: places at or below them, none below another.\<close>

definition extends :: "jval \<Rightarrow> pathState list \<Rightarrow> pathState list \<Rightarrow> bool" where
  "extends root states nxt \<longleftrightarrow>
     states_ok root nxt \<and> (\<forall>t \<in> set nxt. \<exists>st \<in> set states. prefix (pointer st) (pointer t))"

lemma extends_trans: "extends root xs ys \<Longrightarrow> extends root ys zs \<Longrightarrow> extends root xs zs"
  by (auto simp: extends_def) (meson prefix_order.trans)

lemma extends_ok: "extends root xs ys \<Longrightarrow> states_ok root ys"
  by (simp add: extends_def)

lemma extends_refl: "states_ok root xs \<Longrightarrow> extends root xs xs"
  by (auto simp: extends_def)

lemma states_ok_distinct: "states_ok root states \<Longrightarrow> distinct (map pointer states)"
  by (induction states) (auto simp: states_ok_def parallel_def)

lemma states_ok_append:
  "states_ok root (xs @ ys) \<longleftrightarrow>
     states_ok root xs \<and> states_ok root ys \<and> (\<forall>x \<in> set xs. \<forall>y \<in> set ys. pointer x \<parallel> pointer y)"
  by (auto simp: states_ok_def sorted_wrt_append)

lemma parallel_prefix: "a \<parallel> b \<Longrightarrow> prefix a a' \<Longrightarrow> prefix b b' \<Longrightarrow> a' \<parallel> b'"
  by (auto simp: prefix_def parallel_append)

lemma extends_concat:
  assumes "states_ok root states" and "list_all2 (\<lambda>st. extends root [st]) states yss"
  shows "extends root states (concat yss)"
  using assms(2,1)
proof (induction states yss rule: list_all2_induct)
  case Nil
  then show ?case by (simp add: states_ok_def extends_def)
next
  case (Cons st sts ys yss)
  have rest: "states_ok root sts" and apart: "\<And>t. t \<in> set sts \<Longrightarrow> pointer st \<parallel> pointer t"
    using Cons.prems by (auto simp: states_ok_def)
  note IH = Cons.IH[OF rest]
  have "pointer x \<parallel> pointer y" if "x \<in> set ys" "y \<in> set (concat yss)" for x y
  proof -
    from IH that(2) obtain u where "u \<in> set sts" "prefix (pointer u) (pointer y)"
      by (auto simp: extends_def)
    moreover from Cons.hyps(1) that(1) have "prefix (pointer st) (pointer x)"
      by (auto simp: extends_def)
    ultimately show ?thesis
      using apart parallel_prefix by blast
  qed
  with IH Cons.hyps(1) show ?case
    by (auto simp: states_ok_append extends_def)
qed

lemma states_ok_single: "states_ok root [st] \<longleftrightarrow> locates root (pointer st) (pvalue st)"
  by (simp add: states_ok_def)

lemma extends_segments:
  assumes "distinct (map pointer sts)"
    and "\<And>t. t \<in> set sts \<Longrightarrow> locates root (pointer t) (pvalue t) \<and> (\<exists>seg. pointer t = pointer st @ [seg])"
  shows "extends root [st] sts"
proof -
  have "sorted_wrt (\<parallel>) (map pointer sts)"
    using assms
  proof (induction sts)
    case Nil
    then show ?case by simp
  next
    case (Cons t ts)
    then have "pointer t \<parallel> pointer u" if u: "u \<in> set ts" for u
    proof -
      obtain a where "pointer t = pointer st @ [a]"
        using Cons.prems(2)[of t] by auto
      moreover obtain b where "pointer u = pointer st @ [b]"
        using Cons.prems(2)[of u] u by auto
      moreover have "pointer t \<noteq> pointer u"
        using Cons.prems(1) u by force
      ultimately show ?thesis
        by (auto simp: parallel_def)
    qed
    with Cons show ?case by simp
  qed
  moreover have "prefix (pointer st) (pointer t)" if "t \<in> set sts" for t
    using assms(2)[OF that] by (auto simp: prefix_def)
  ultimately show ?thesis
    using assms(2) by (auto simp: extends_def states_ok_def)
qed

lemma concatMapR_extends:
  assumes "concatMapR f states = Inr nxt" and "states_ok root states"
    and step: "\<And>st sts. st \<in> set states \<Longrightarrow> locates root (pointer st) (pvalue st) \<Longrightarrow> f st = Inr sts \<Longrightarrow>
      extends root [st] sts"
  shows "extends root states nxt"
proof -
  from assms(1) obtain yss where yss: "list_all2 (\<lambda>x ys. f x = Inr ys) states yss" "nxt = concat yss"
    by (auto simp: concatMapR_eq_Inr)
  have "list_all2 (\<lambda>st. extends root [st]) states yss"
    using yss(1) assms(2) step by (auto simp: list_all2_conv_all_nth states_ok_def)
  with assms(2) yss(2) show ?thesis
    by (simp add: extends_concat)
qed

lemma applyKey_ok:
  assumes "states_ok root states" "applyKey states key = Inr nxt" "atoi key = None"
  shows "extends root states nxt"
proof (cases "key = []")
  case True
  with assms show ?thesis by (simp add: applyKey_def extends_refl)
next
  case False
  with assms(2) have "concatMapR (\<lambda>st.
        case pvalue st of
          JObj m \<Rightarrow>
            Inr [\<lparr>pointer = appendPointer (pointer st) key,
                  pvalue = (case fmlookup m key of None \<Rightarrow> JNil | Some child \<Rightarrow> child)\<rparr>]
        | JNil \<Rightarrow> Inr [\<lparr>pointer = appendPointer (pointer st) key, pvalue = JNil\<rparr>]
        | _ \<Rightarrow> Inl (ExpectsObject key)) states = Inr nxt"
    by (simp add: applyKey_def)
  then show ?thesis
    using assms(1)
    by (rule concatMapR_extends)
       (auto simp: appendPointer_def False assms(3) split: jval.splits option.splits
         intro!: extends_segments intro: locates_key[OF _ False assms(3)] locates_absent[OF _ False assms(3)]
         locates_below_nil[OF _ False assms(3)])
qed

lemma applyIndex_ok:
  assumes "states_ok root states" "applyIndex states index = Inr nxt"
  shows "extends root states nxt"
  using assms(2)[unfolded applyIndex_def] assms(1)
proof (rule concatMapR_extends)
  fix st :: pathState and sts :: "pathState list"
  assume loc: "locates root (pointer st) (pvalue st)"
    and res: "(case toAnySlice (pvalue st) of None \<Rightarrow> Inl ExpectsArray
       | Some arr \<Rightarrow>
           if index < 0 \<or> index \<ge> int (length arr) then Inl (IndexOutOfBounds index)
           else Inr [\<lparr>pointer = appendPointer (pointer st) (itoa index),
                      pvalue = arr ! nat index\<rparr>]) = Inr sts"
  then show "extends root [st] sts"
    by (auto simp: appendPointer_def itoa_def split: option.splits if_splits
        intro!: extends_segments locates_index)
qed

lemma applyDash_ok:
  assumes "states_ok root states"
  shows "extends root states (applyDash states)"
proof -
  have "applyDash states = concat (map (\<lambda>st. applyDash [st]) states)"
    by (induction states) (auto simp: applyDash_def)
  moreover have "extends root [st] (applyDash [st])" if "st \<in> set states" for st
    using assms that locates_append[of root "pointer st" "pvalue st"]
    by (auto simp: states_ok_def applyDash_def appendPointer_def intro!: extends_segments)
  then have "list_all2 (\<lambda>st. extends root [st]) states (map (\<lambda>st. applyDash [st]) states)"
    by (simp add: list_all2_conv_all_nth)
  ultimately show ?thesis
    using assms extends_concat by metis
qed

lemma enumerate_ok:
  fixes st :: pathState
  assumes "locates root (pointer st) v" and "toAnySlice v = Some arr"
  shows "extends root [st] (map (\<lambda>(idx, item). \<lparr>pointer = appendPointer (pointer st) (itoa (int idx)),
    pvalue = item\<rparr>) (filter P (List.enumerate 0 arr)))"
proof -
  have inj: "inj (\<lambda>i. itoaNat i)"
    by (rule injI) (metis digitsVal_itoaNat)
  have "distinct (map fst (filter P (List.enumerate 0 arr)))"
    by (simp add: distinct_map_filter)
  then have "distinct (map (\<lambda>i. pointer st @ [itoaNat i]) (map fst (filter P (List.enumerate 0 arr))))"
    using inj by (simp only: distinct_map) (auto simp: inj_on_def inj_def)
  then have "distinct (map pointer (map (\<lambda>(idx, item).
      \<lparr>pointer = appendPointer (pointer st) (itoa (int idx)), pvalue = item\<rparr>)
      (filter P (List.enumerate 0 arr))))"
    by (simp add: comp_def case_prod_beta appendPointer_def itoa_def)
  with assms show ?thesis
    by (intro extends_segments)
       (auto simp: appendPointer_def itoa_def in_set_enumerate_eq intro: locates_index)
qed

lemma applyWildcard_ok:
  assumes "states_ok root states" "applyWildcard states = Inr nxt"
  shows "extends root states nxt"
  using assms(2)[unfolded applyWildcard_def] assms(1)
proof (rule concatMapR_extends)
  fix st :: pathState and sts :: "pathState list"
  assume "locates root (pointer st) (pvalue st)"
    and "(case toAnySlice (pvalue st) of
         None \<Rightarrow> Inl (WildcardExpectsArray (buildJSONPointer (pointer st)))
       | Some arr \<Rightarrow>
           Inr (map (\<lambda>(idx, item). \<lparr>pointer = appendPointer (pointer st) (itoa (int idx)),
                                     pvalue = item\<rparr>) (List.enumerate 0 arr))) = Inr sts"
  then show "extends root [st] sts"
    using enumerate_ok[of root st "pvalue st" _ "\<lambda>_. True"] by (auto split: option.splits)
qed

text \<open>A filter keeps the matching elements of an array, in order.\<close>

lemma filter_elements:
  assumes "concatMapR (\<lambda>(idx, item).
      bindR (matchesFilter item expr) (\<lambda>match. Inr (if match then [g idx item] else []))) es = Inr sts"
  shows "sts = map (\<lambda>(idx, item). g idx item) (filter (\<lambda>(idx, item). matchesFilter item expr = Inr True) es)"
  using assms
proof (induction es arbitrary: sts)
  case Nil
  then show ?case by simp
next
  case (Cons e es)
  then show ?case
    by (cases e) (fastforce simp: bindR_eq_Inr)
qed

lemma applyFilter_ok:
  assumes "states_ok root states" "applyFilter states expr = Inr nxt"
  shows "extends root states nxt"
  using assms(2)[unfolded applyFilter_def] assms(1)
proof (rule concatMapR_extends)
  fix st :: pathState and sts :: "pathState list"
  assume "locates root (pointer st) (pvalue st)"
    and "(case toAnySlice (pvalue st) of
         None \<Rightarrow> Inl (FilterExpectsArray (buildJSONPointer (pointer st)))
       | Some arr \<Rightarrow>
           concatMapR (\<lambda>(idx, item).
             bindR (matchesFilter item expr) (\<lambda>match.
               Inr (if match
                    then [\<lparr>pointer = appendPointer (pointer st) (itoa (int idx)), pvalue = item\<rparr>]
                    else []))) (List.enumerate 0 arr)) = Inr sts"
  then show "extends root [st] sts"
    by (auto split: option.splits dest!: filter_elements intro: enumerate_ok)
qed

lemma applyBracket_ok:
  assumes "states_ok root states" "applyBracket states content = Inr nxt"
  shows "extends root states nxt"
  using assms
  by (auto simp: applyBracket_def split: if_splits option.splits
      intro: applyFilter_ok applyWildcard_ok applyDash_ok applyIndex_ok)

lemma applyToken_ok:
  assumes "states_ok root states" "applyToken states token = Inr nxt"
  shows "extends root states nxt"
  using assms
  by (auto simp: applyToken_def split: if_splits option.splits
      intro: applyKey_ok applyIndex_ok extends_refl)

lemma applySegmentLoop_ok:
  assumes "states_ok root states" "applySegmentLoop segment states remaining = Inr nxt"
  shows "extends root states nxt"
  using assms
proof (induction segment states remaining arbitrary: nxt rule: applySegmentLoop.induct)
  case (1 segment current remaining)
  show ?case
  proof (cases "remaining = []")
    case True
    with 1 show ?thesis
      by (simp add: applySegmentLoop.simps[of segment current] extends_refl)
  next
    case False
    show ?thesis
    proof (cases "hd remaining = CHR ''[''")
      case True
      with "1.prems"(2) False obtain cur where cur: "CHR '']'' \<in> set remaining"
          "applyBracket current (takeWhile (\<lambda>c. c \<noteq> CHR '']'') (tl remaining)) = Inr cur"
          "applySegmentLoop segment cur (tl (dropWhile (\<lambda>c. c \<noteq> CHR '']'') remaining)) = Inr nxt"
        by (auto simp: applySegmentLoop.simps[of segment current] bindR_eq_Inr split: if_splits)
      with "1.prems"(1) have step: "extends root current cur"
        by (simp add: applyBracket_ok)
      have "extends root cur nxt"
        using "1.IH"(1)[OF False True _ cur(2) extends_ok[OF step] cur(3)] cur(1) by simp
      with step show ?thesis by (rule extends_trans)
    next
      case no_bracket: False
      with "1.prems"(2) False obtain cur where cur:
          "applyToken current (takeWhile (\<lambda>c. c \<noteq> CHR ''['') remaining) = Inr cur"
          "applySegmentLoop segment cur (dropWhile (\<lambda>c. c \<noteq> CHR ''['') remaining) = Inr nxt"
        by (auto simp: applySegmentLoop.simps[of segment current] bindR_eq_Inr)
      with "1.prems"(1) have step: "extends root current cur"
        by (simp add: applyToken_ok)
      have "extends root cur nxt"
        using "1.IH"(2)[OF False no_bracket cur(1) extends_ok[OF step] cur(2)] .
      with step show ?thesis by (rule extends_trans)
    qed
  qed
qed


subsection \<open>Whole paths\<close>

lemma expandStates_concat:
  assumes "expandStates segment states acc = Inr nxt" and "length acc \<le> maxPathStates"
  shows "\<exists>zs. concatMapR (\<lambda>st. applySegment st segment) states = Inr zs \<and> nxt = acc @ zs \<and>
    length nxt \<le> maxPathStates"
  using assms
proof (induction states arbitrary: acc)
  case Nil
  then show ?case by simp
next
  case (Cons st states)
  then obtain expanded where "applySegment st segment = Inr expanded"
    and "length (acc @ expanded) \<le> maxPathStates"
    and "expandStates segment states (acc @ expanded) = Inr nxt"
    by (auto simp: bindR_eq_Inr not_less split: if_splits)
  with Cons.IH[of "acc @ expanded"] show ?case by auto
qed

lemma expandStates_ok:
  assumes "states_ok root states" and "expandStates segment states [] = Inr nxt"
  shows "extends root states nxt \<and> length nxt \<le> maxPathStates"
proof -
  from expandStates_concat[OF assms(2)] have
    "concatMapR (\<lambda>st. applySegment st segment) states = Inr nxt" "length nxt \<le> maxPathStates"
    by auto
  moreover from this(1) assms(1) have "extends root states nxt"
    by (rule concatMapR_extends) (auto simp: applySegment_def states_ok_single intro: applySegmentLoop_ok)
  ultimately show ?thesis by blast
qed

lemma expandSegments_ok:
  assumes "states_ok root states" "length states \<le> maxPathStates"
    and "expandSegments states segments = Inr nxt"
  shows "extends root states nxt \<and> length nxt \<le> maxPathStates"
  using assms
proof (induction states segments rule: expandSegments.induct)
  case (1 states)
  then show ?case by (simp add: extends_refl)
next
  case (2 states segment segments)
  show ?case
  proof (cases "segment = ''-''")
    case True
    have step: "extends root states (applyDash states)"
      using 2 by (simp add: applyDash_ok)
    moreover have "length (applyDash states) \<le> maxPathStates"
      using 2 by (simp add: applyDash_def)
    moreover have "expandSegments (applyDash states) segments = Inr nxt"
      using "2.prems"(3) True by simp
    ultimately show ?thesis
      using "2.IH"(1)[OF True extends_ok[OF step]] extends_trans by blast
  next
    case False
    then obtain mid where mid: "expandStates segment states [] = Inr mid"
      and rest: "if mid = [] then nxt = [] else expandSegments mid segments = Inr nxt"
      using "2.prems"(3) by (auto simp: bindR_eq_Inr split: if_splits)
    from expandStates_ok[OF "2.prems"(1) mid]
    have step: "extends root states mid" "length mid \<le> maxPathStates" by auto
    show ?thesis
    proof (cases "mid = []")
      case True
      with rest step show ?thesis by simp
    next
      case not_empty: False
      with rest have "expandSegments mid segments = Inr nxt" by simp
      from "2.IH"(2)[OF False mid not_empty extends_ok[OF step(1)] step(2) this] step(1) show ?thesis
        using extends_trans by blast
    qed
  qed
qed

lemma expandPaths_ok:
  assumes "expandPaths root rawPath = Inr pointers"
  obtains states where "states_ok (JObj root) states" and "length states \<le> maxPathStates"
    and "pointers = map (\<lambda>st. buildJSONPointer (pointer st)) states"
proof (cases "rawPath = []")
  case True
  with assms show ?thesis
    by (intro that[of "[\<lparr>pointer = [], pvalue = JObj root\<rparr>]"])
       (auto simp: expandPaths_def states_ok_single locates_root maxPathStates_def buildJSONPointer_def)
next
  case False
  with assms obtain states where
    "expandSegments [\<lparr>pointer = [], pvalue = JObj root\<rparr>] (splitRawPath rawPath) = Inr states"
    "pointers = map (\<lambda>st. buildJSONPointer (pointer st)) states"
    by (auto simp: expandPaths_def bindR_eq_Inr)
  moreover from this(1) have "extends (JObj root) [\<lparr>pointer = [], pvalue = JObj root\<rparr>] states \<and>
      length states \<le> maxPathStates"
    by (intro expandSegments_ok)
       (auto simp: states_ok_single locates_root maxPathStates_def)
  ultimately show ?thesis
    using that extends_ok by blast
qed

text \<open>A filter step on one array.\<close>

lemma matchesFilter_ok:
  "filterExprMatch (trimSpace expr) \<noteq> None \<Longrightarrow> \<exists>b. matchesFilter item expr = Inr b"
  by (auto simp: matchesFilter_def split: option.splits jval.splits)

lemma concatMapR_total:
  "(\<And>x. x \<in> set xs \<Longrightarrow> \<exists>ys. f x = Inr ys) \<Longrightarrow> \<exists>zs. concatMapR f xs = Inr zs"
proof (induction xs)
  case Nil
  then show ?case by simp
next
  case (Cons x xs)
  then obtain ys zs where "f x = Inr ys" "concatMapR f xs = Inr zs"
    by (metis list.set_intros)
  then show ?case by simp
qed

lemma applyFilter_single:
  assumes "toAnySlice (pvalue st) = Some arr" and "filterExprMatch (trimSpace expr) \<noteq> None"
  shows "applyFilter [st] expr = Inr (map (\<lambda>i. \<lparr>pointer = pointer st @ [itoaNat i], pvalue = arr ! i\<rparr>)
    (filter (\<lambda>i. matchesFilter (arr ! i) expr = Inr True) [0..<length arr]))"
proof -
  let ?g = "\<lambda>idx item. \<lparr>pointer = appendPointer (pointer st) (itoa (int idx)), pvalue = item\<rparr>"
  let ?f = "\<lambda>(idx, item). bindR (matchesFilter item expr)
    (\<lambda>match. Inr (if match then [?g idx item] else []))"
  have "\<exists>ys. ?f x = Inr ys" for x
    using matchesFilter_ok[OF assms(2), of "snd x"] by (cases x) auto
  then have "\<exists>zs. concatMapR ?f (List.enumerate 0 arr) = Inr zs"
    by (rule concatMapR_total)
  then obtain zs where zs: "concatMapR ?f (List.enumerate 0 arr) = Inr zs"
    by (rule exE)
  have "List.enumerate 0 arr = map (\<lambda>i. (i, arr ! i)) [0..<length arr]"
    by (rule nth_equalityI) (auto simp: nth_enumerate_eq)
  with filter_elements[OF zs] have "zs = map (\<lambda>i. ?g i (arr ! i))
      (filter (\<lambda>i. matchesFilter (arr ! i) expr = Inr True) [0..<length arr])"
    by (simp add: filter_map comp_def)
  with zs assms(1) show ?thesis
    by (simp add: applyFilter_def appendPointer_def itoa_def)
qed

end
