(* ===== verification/Patch_Ops.thy ===== *)
theory Patch_Ops
  imports Patch_Path
begin

text \<open>
  The patch operations: \<^verbatim>\<open>src/internal/patch/rfc6902.go\<close> (add, replace, remove and the
  creation of missing parents), \<^verbatim>\<open>src/internal/patch/merge.go\<close> (shallow merge) and
  \<^verbatim>\<open>src/internal/patch/patch.go\<close> (path expansion and dispatch).

  The code changes the document in place and may return an error after it has changed part of it,
  so every operation returns the document it leaves behind together with the error, if any. The
  functions of the code that return a reference into the document (\<open>navigateForPatch\<close>,
  \<open>navigateToParent\<close>) take here what the caller does at that place as an argument, and write the
  changed part back on the way out. No map of a document is Go's nil map.
\<close>

named_theorems patch_simps \<open>unfolding rules of the patch operations\<close>

type_synonym 'd patched = "'d \<times> patchError option"

definition isArrayIndex :: "string \<Rightarrow> int \<times> bool" where
  "isArrayIndex seg =
     (if seg = ''-'' then (- 1, True)
      else (case atoi seg of None \<Rightarrow> (- 1, False) | Some index \<Rightarrow> (index, True)))"

text \<open>Writing back the value found through a normalised slice.\<close>

definition setElem :: "jval \<Rightarrow> nat \<Rightarrow> jval \<Rightarrow> jval" where
  "setElem a i v =
     (case a of
        JArr arr \<Rightarrow> JArr (arr[i := v])
      | JMaps ms \<Rightarrow> (case v of JObj m \<Rightarrow> JMaps (ms[i := m]) | _ \<Rightarrow> JMaps ms)
      | _ \<Rightarrow> a)"

subsection \<open>The three operations of RFC 6902\<close>

definition maxJSONArraySize :: nat where "maxJSONArraySize = 2 ^ 24"

definition addValue :: "jobj \<Rightarrow> string \<Rightarrow> string \<Rightarrow> jval \<Rightarrow> jobj patched" where
  "addValue container arrayKey segment value =
     (let valueCopy = DeepCopy value in
      if arrayKey \<noteq> [] then
        (case toAnySlice (orNil (fmlookup container arrayKey)) of
           None \<Rightarrow> (container, Some (ExpectedArrayAt arrayKey))
         | Some arr \<Rightarrow>
             if segment = ''-'' then (fmupd arrayKey (JArr (arr @ [valueCopy])) container, None)
             else (case atoi segment of
                     None \<Rightarrow> (container, Some (InvalidArrayIndex segment))
                   | Some index \<Rightarrow>
                       if index < 0 \<or> index > int (length arr)
                       then (container, Some (AddOutOfBounds index (length arr)))
                       else if length arr \<ge> maxJSONArraySize
                       then (container, Some (ArrayTooLarge (length arr)))
                       else (fmupd arrayKey
                               (JArr (take (nat index) arr @ valueCopy # drop (nat index) arr))
                               container, None)))
      else (fmupd segment valueCopy container, None))"

definition replaceValue :: "jobj \<Rightarrow> string \<Rightarrow> string \<Rightarrow> jval \<Rightarrow> jobj patched" where
  "replaceValue container arrayKey segment value =
     (let valueCopy = DeepCopy value in
      if arrayKey \<noteq> [] then
        (case toAnySlice (orNil (fmlookup container arrayKey)) of
           None \<Rightarrow> (container, Some (ExpectedArrayAt arrayKey))
         | Some arr \<Rightarrow>
             if segment = ''-'' then (container, Some ReplaceAppendMarker)
             else (case atoi segment of
                     None \<Rightarrow> (container, Some (InvalidArrayIndex segment))
                   | Some index \<Rightarrow>
                       if index < 0 \<or> index \<ge> int (length arr)
                       then (container, Some (ReplaceOutOfBounds index (length arr)))
                       else (fmupd arrayKey (JArr (arr[nat index := valueCopy])) container, None)))
      else if fmlookup container segment = None then (container, Some (ReplaceMissingKey segment))
      else (fmupd segment valueCopy container, None))"

definition removeValue :: "jobj \<Rightarrow> string \<Rightarrow> string \<Rightarrow> jobj patched" where
  "removeValue container arrayKey segment =
     (if arrayKey \<noteq> [] then
        (case toAnySlice (orNil (fmlookup container arrayKey)) of
           None \<Rightarrow> (container, Some (ExpectedArrayAt arrayKey))
         | Some arr \<Rightarrow>
             if segment = ''-'' then (container, Some RemoveAppendMarker)
             else (case atoi segment of
                     None \<Rightarrow> (container, Some (InvalidArrayIndex segment))
                   | Some index \<Rightarrow>
                       if index < 0 \<or> index \<ge> int (length arr)
                       then (container, Some (RemoveOutOfBounds index (length arr)))
                       else (fmupd arrayKey
                               (JArr (take (nat index) arr @ drop (nat index + 1) arr))
                               container, None)))
      else if fmlookup container segment = None then (container, None)
      else (fmdrop segment container, None))"

subsection \<open>Navigation\<close>

fun navigateForPatch ::
    "(jobj \<Rightarrow> string \<Rightarrow> string \<Rightarrow> jobj patched) \<Rightarrow> jval \<Rightarrow> string list \<Rightarrow> jval patched" where
  "navigateForPatch k current [] = (current, Some EmptyPointer)"
| "navigateForPatch k current [lastSeg] =
     (case current of
        JObj m \<Rightarrow> map_prod JObj id (k m [] lastSeg)
      | _ \<Rightarrow> (current, Some ParentMustBeMap))"
| "navigateForPatch k current (seg # nextSeg # rest) =
     (case current of
        JObj node \<Rightarrow>
          (case fmlookup node seg of
             None \<Rightarrow> (current, Some (PathDoesNotExist seg))
           | Some child \<Rightarrow>
               if snd (isArrayIndex nextSeg) \<or> nextSeg = ''-'' then
                 (case toAnySlice child of
                    None \<Rightarrow> (current, Some (ExpectedArrayAt seg))
                  | Some arr \<Rightarrow>
                      (let node' = fmupd seg (JArr arr) node;
                           index = fst (isArrayIndex nextSeg)
                       in if rest = [] then map_prod JObj id (k node' seg nextSeg)
                          else if index < 0 \<or> index \<ge> int (length arr)
                          then (JObj node', Some (IndexOutOfBoundsAt index seg))
                          else (let (v, err) = navigateForPatch k (arr ! nat index) rest
                                in (JObj (fmupd seg (JArr (arr[nat index := v])) node'), err))))
               else (let (v, err) = navigateForPatch k child (nextSeg # rest)
                     in (JObj (fmupd seg v node), err)))
      | JArr _ \<Rightarrow> (current, Some (UnexpectedArrayTraversal seg))
      | _ \<Rightarrow> (current, Some (CannotTraverse seg)))"

text \<open>A document is an object; the operations keep it one.\<close>

definition asObj :: "jobj \<Rightarrow> jval patched \<Rightarrow> jobj patched" where
  "asObj doc r = (case r of (JObj m, err) \<Rightarrow> (m, err) | (_, err) \<Rightarrow> (doc, err))"

definition patchContainer :: "string \<Rightarrow> jval \<Rightarrow> jobj \<Rightarrow> string \<Rightarrow> string \<Rightarrow> jobj patched" where
  "patchContainer op value container arrayKey lastSeg =
     (if op = ''add'' then addValue container arrayKey lastSeg value
      else if op = ''replace'' then replaceValue container arrayKey lastSeg value
      else if op = ''remove'' then removeValue container arrayKey lastSeg
      else (container, Some (UnsupportedOperation op)))"

definition applyJSONPatch :: "jobj \<Rightarrow> string \<Rightarrow> string \<Rightarrow> jval \<Rightarrow> jobj patched" where
  "applyJSONPatch target op ptr value =
     (let segments = splitPointer ptr in
      if segments = [] then (target, Some (RootDocument op))
      else asObj target (navigateForPatch (patchContainer op value) (JObj target) segments))"

subsection \<open>Missing parents\<close>

definition missingContainer :: "string \<Rightarrow> string \<Rightarrow> (patchError, jval) result" where
  "missingContainer seg nextSeg =
     (if nextSeg = ''-'' then Inr (JArr [])
      else if atoi nextSeg \<noteq> None then Inl (ParentIndexOutOfBounds nextSeg seg)
      else Inr (JObj fmempty))"

fun ensureParents :: "jval \<Rightarrow> string list \<Rightarrow> jval patched" where
  "ensureParents current [] = (current, None)"
| "ensureParents current [lastSeg] = (current, None)"
| "ensureParents current (seg # nextSeg # rest) =
     (case toAnySlice current of
        Some arr \<Rightarrow>
          (case atoi seg of
             None \<Rightarrow> (current, Some (ExpectedIndexAt seg))
           | Some index \<Rightarrow>
               if index < 0 \<or> index \<ge> int (length arr)
               then (current, Some (ParentIndexOutOfBounds (itoa index) seg))
               else (let (v, err) = ensureParents (arr ! nat index) (nextSeg # rest)
                     in (setElem current (nat index) v, err)))
      | None \<Rightarrow>
          (case current of
             JObj node \<Rightarrow>
               (let child = orNil (fmlookup node seg) in
                case (if child = JNil then missingContainer seg nextSeg else Inr child) of
                  Inl err \<Rightarrow> (current, Some err)
                | Inr child' \<Rightarrow>
                    (let (v, err) = ensureParents child' (nextSeg # rest)
                     in (JObj (fmupd seg v node), err)))
           | _ \<Rightarrow> (current, Some (CannotTraverse seg))))"

definition ensureParentExists :: "jobj \<Rightarrow> string \<Rightarrow> jobj patched" where
  "ensureParentExists root ptr = asObj root (ensureParents (JObj root) (splitPointer ptr))"

subsection \<open>Shallow merge (merge.go)\<close>

definition mergeShallowInto :: "jobj \<Rightarrow> jobj \<Rightarrow> jobj" where
  "mergeShallowInto target overlay = fmadd target (fmmap DeepCopy overlay)"

definition determineNextContainerType :: "string \<Rightarrow> jval" where
  "determineNextContainerType nextSeg =
     (if nextSeg = ''-'' then JArr []
      else if atoi nextSeg \<noteq> None then JArr []
      else JObj fmempty)"

text \<open>The two arms of the switch on the existing value, common to both kinds of container.\<close>

definition mergedValue :: "jval \<Rightarrow> jobj \<Rightarrow> jval" where
  "mergedValue existing value =
     (case existing of
        JObj targetMap \<Rightarrow> JObj (mergeShallowInto targetMap value)
      | _ \<Rightarrow> DeepCopy (JObj value))"

definition mergeAtParent :: "jobj \<Rightarrow> jval \<Rightarrow> string \<Rightarrow> jval patched" where
  "mergeAtParent value parent lastSeg =
     (case parent of
        JObj container \<Rightarrow>
          (JObj (fmupd lastSeg
             (mergedValue (orNil (fmlookup container lastSeg)) value)
             container), None)
      | JArr container \<Rightarrow>
          if lastSeg = ''-'' then (parent, Some MergeAppendMarker)
          else (case atoi lastSeg of
                  None \<Rightarrow> (parent, Some (MergeInvalidIndex lastSeg))
                | Some index \<Rightarrow>
                    if index < 0 \<or> index \<ge> int (length container)
                    then (parent, Some (MergeOutOfBounds index))
                    else (JArr (container[nat index := mergedValue (container ! nat index) value]),
                          None))
      | _ \<Rightarrow> (parent, Some MergeParentNotContainer))"

fun navigateToParent ::
    "(jval \<Rightarrow> string \<Rightarrow> jval patched) \<Rightarrow> bool \<Rightarrow> jval \<Rightarrow> string list \<Rightarrow> jval patched" where
  "navigateToParent k create current [] = k current []"
| "navigateToParent k create current [lastSeg] = k current lastSeg"
| "navigateToParent k create current (seg # nextSeg # rest) =
     (case current of
        JObj node \<Rightarrow>
          (let child = orNil (fmlookup node seg) in
           if child = JNil \<and> \<not> create then (current, Some (MissingPathAt seg))
           else (let child' = (if child = JNil then determineNextContainerType nextSeg else child);
                     (v, err) = navigateToParent k create child' (nextSeg # rest)
                 in (JObj (fmupd seg v node), err)))
      | JArr node \<Rightarrow>
          (case atoi seg of
             None \<Rightarrow> (current, Some (ExpectedIndexAt seg))
           | Some index \<Rightarrow>
               if index < 0 \<or> index \<ge> int (length node)
               then (current, Some (ParentIndexOutOfBounds (itoa index) seg))
               else (let (v, err) = navigateToParent k create (node ! nat index) (nextSeg # rest)
                     in (JArr (node[nat index := v]), err)))
      | _ \<Rightarrow> (current, Some (CannotTraverse seg)))"

definition mergeShallowAtPointer :: "jobj \<Rightarrow> string \<Rightarrow> jobj \<Rightarrow> jobj patched" where
  "mergeShallowAtPointer root ptr value =
     asObj root (navigateToParent (mergeAtParent value) True (JObj root) (splitPointer ptr))"

subsection \<open>Dispatch (patch.go)\<close>

record JSONPatchOperation =
  Op :: string
  Path :: string
  Value :: jval

text \<open>The loop over the resolved pointers: it stops at the first error.\<close>

fun forPointers :: "(jobj \<Rightarrow> string \<Rightarrow> jobj patched) \<Rightarrow> jobj \<Rightarrow> string list \<Rightarrow> jobj patched" where
  "forPointers f target [] = (target, None)"
| "forPointers f target (ptr # resolved) =
     (case f target ptr of
        (target', Some err) \<Rightarrow> (target', Some err)
      | (target', None) \<Rightarrow> forPointers f target' resolved)"

definition applyAtPointer :: "string \<Rightarrow> jval \<Rightarrow> jobj \<Rightarrow> string \<Rightarrow> jobj patched" where
  "applyAtPointer op value target ptr =
     (if op = ''add''
      then (case ensureParentExists target ptr of
              (target', Some err) \<Rightarrow> (target', Some err)
            | (target', None) \<Rightarrow> applyJSONPatch target' op ptr value)
      else applyJSONPatch target op ptr value)"

definition applyRFC6902 :: "jobj \<Rightarrow> string \<Rightarrow> string \<Rightarrow> jval \<Rightarrow> jobj patched" where
  "applyRFC6902 target op rawPath value =
     (case expandPaths target rawPath of
        Inl err \<Rightarrow> (target, Some err)
      | Inr resolved \<Rightarrow>
          if resolved = [] then
            (if containsFilterOrWildcard rawPath then (target, Some (NoMatches rawPath))
             else (target, None))
          else forPointers (applyAtPointer op value) target resolved)"

definition applyMergeShallow :: "jobj \<Rightarrow> string \<Rightarrow> jval \<Rightarrow> jobj patched" where
  "applyMergeShallow target rawPath value =
     (case value of
        JObj valueMap \<Rightarrow>
          (case expandPaths target rawPath of
             Inl err \<Rightarrow> (target, Some err)
           | Inr resolved \<Rightarrow>
               forPointers (\<lambda>t ptr. mergeShallowAtPointer t ptr valueMap) target resolved)
      | _ \<Rightarrow> (target, Some MergeValueNotObject))"

definition applyOperation :: "jobj \<Rightarrow> JSONPatchOperation \<Rightarrow> jobj patched" where
  "applyOperation target operation =
     (let op = toLower (Op operation) in
      if op = ''add'' \<or> op = ''replace'' \<or> op = ''remove''
      then applyRFC6902 target op (Path operation) (Value operation)
      else if op = ''mergeshallow''
      then applyMergeShallow target (Path operation) (Value operation)
      else (target, Some (UnsupportedOperation (Op operation))))"

fun applyPatchesFrom :: "nat \<Rightarrow> jobj \<Rightarrow> JSONPatchOperation list \<Rightarrow> jobj patched" where
  "applyPatchesFrom i resource [] = (resource, None)"
| "applyPatchesFrom i resource (operation # operations) =
     (case applyOperation resource operation of
        (resource', Some err) \<Rightarrow> (resource', Some (OperationFailed i err))
      | (resource', None) \<Rightarrow> applyPatchesFrom (i + 1) resource' operations)"

definition ApplyPatches :: "jobj \<Rightarrow> JSONPatchOperation list \<Rightarrow> jobj patched" where
  "ApplyPatches resource operations = applyPatchesFrom 0 resource operations"

end
