(* ===== verification/Patch_Facts.thy ===== *)
theory Patch_Facts
  imports Patch_Path_Facts Patch_Ops
begin

text \<open>
  What the patch operations do to a document. The reference is RFC 6902 on the value the parent
  pointer names (\<open>rfcOp\<close>), with the one documented extension that removing a missing key succeeds.
  The code reaches that value, changes it as the reference says and leaves every other place of
  the document alone; lists of operations and of expanded pointers compose accordingly.
\<close>

subsection \<open>Reference operations\<close>

definition rfcAdd :: "jval \<Rightarrow> string \<Rightarrow> jval \<Rightarrow> jval option" where
  "rfcAdd v s parent =
     (case parent of
        JObj m \<Rightarrow> Some (JObj (fmupd s v m))
      | _ \<Rightarrow> Option.bind (toAnySlice parent) (\<lambda>arr.
          if s = ''-'' then Some (JArr (arr @ [v]))
          else Option.bind (indexSegment s) (\<lambda>i.
            if i \<le> length arr then Some (JArr (take i arr @ v # drop i arr)) else None)))"

definition rfcReplace :: "jval \<Rightarrow> string \<Rightarrow> jval \<Rightarrow> jval option" where
  "rfcReplace v s parent =
     (case parent of
        JObj m \<Rightarrow> if fmlookup m s = None then None else Some (JObj (fmupd s v m))
      | _ \<Rightarrow> Option.bind (toAnySlice parent) (\<lambda>arr.
          Option.bind (indexSegment s) (\<lambda>i.
            if i < length arr then Some (JArr (arr[i := v])) else None)))"

definition rfcRemove :: "string \<Rightarrow> jval \<Rightarrow> jval option" where
  "rfcRemove s parent =
     (case parent of
        JObj m \<Rightarrow> Some (JObj (fmdrop s m))
      | _ \<Rightarrow> Option.bind (toAnySlice parent) (\<lambda>arr.
          Option.bind (indexSegment s) (\<lambda>i.
            if i < length arr then Some (JArr (take i arr @ drop (i + 1) arr)) else None)))"

definition rfcOp :: "string \<Rightarrow> jval \<Rightarrow> string \<Rightarrow> jval \<Rightarrow> jval option" where
  "rfcOp op v s parent =
     (if op = ''add'' then rfcAdd v s parent
      else if op = ''replace'' then rfcReplace v s parent
      else if op = ''remove'' then rfcRemove s parent
      else None)"

lemma rfcOp_simps:
  "rfcOp ''add'' v s par = rfcAdd v s par"
  "rfcOp ''replace'' v s par = rfcReplace v s par"
  "rfcOp ''remove'' v s par = rfcRemove s par"
  by (simp_all add: rfcOp_def)

subsection \<open>Navigation reaches the container\<close>

definition opSegs :: "string \<Rightarrow> string \<Rightarrow> string list" where
  "opSegs key s = (if key = [] then [s] else [key, s])"

text \<open>The container the operation sees: the object named, its array already normalised.\<close>

definition focus :: "jobj \<Rightarrow> string \<Rightarrow> jobj \<Rightarrow> bool" where
  "focus m0 key m \<longleftrightarrow>
     (if key = [] then m = m0
      else \<exists>a arr. fmlookup m0 key = Some a \<and> toAnySlice a = Some arr \<and> m = fmupd key (JArr arr) m0)"

definition unchangedOff :: "string list \<Rightarrow> jval \<Rightarrow> jval \<Rightarrow> bool" where
  "unchangedOff q v v' \<longleftrightarrow> (\<forall>r. r \<parallel> q \<longrightarrow> resolve v' r = resolve v r)"

lemma unchangedOff_Nil [simp]: "unchangedOff [] v v'"
  by (simp add: unchangedOff_def)

lemma unchangedOff_key:
  assumes "fmlookup node seg = Some child" and "unchangedOff q child w"
  shows "unchangedOff (seg # q) (JObj node) (JObj (fmupd seg w node))"
  unfolding unchangedOff_def
proof (intro allI impI)
  fix r assume r: "r \<parallel> seg # q"
  then obtain s r' where "r = s # r'" "s = seg \<longrightarrow> r' \<parallel> q"
    by (rule parallel_Cons_cases)
  with assms show "resolve (JObj (fmupd seg w node)) r = resolve (JObj node) r"
    by (auto simp: unchangedOff_def)
qed

lemma unchangedOff_index:
  assumes "toAnySlice a = Some arr" and "i < length arr" and "unchangedOff q (arr ! i) w"
  shows "unchangedOff (itoaNat i # q) a (JArr (arr[i := w]))"
  unfolding unchangedOff_def
proof (intro allI impI)
  fix r assume r: "r \<parallel> itoaNat i # q"
  then obtain s r' where "r = s # r'" "s = itoaNat i \<longrightarrow> r' \<parallel> q"
    by (rule parallel_Cons_cases)
  with assms show "resolve (JArr (arr[i := w])) r = resolve a r"
    by (auto simp: unchangedOff_def toAnySlice_Some nth_list_update indexSegment_Some split: option.splits)
qed

text \<open>
  \<open>reaches k v p v'\<close>: the operation \<open>k\<close> was run on the container that \<open>p\<close> names in \<open>v\<close>, and \<open>v'\<close>
  is \<open>v\<close> with that container replaced by the result.
\<close>

definition reaches ::
    "(jobj \<Rightarrow> string \<Rightarrow> string \<Rightarrow> jobj patched) \<Rightarrow> jval \<Rightarrow> string list \<Rightarrow> jval \<Rightarrow> bool" where
  "reaches k v p v' \<longleftrightarrow> (\<exists>q m0 m key s m'. k m key s = (m', None) \<and> p = q @ opSegs key s \<and>
    resolve v q = Some (JObj m0) \<and> focus m0 key m \<and> resolve v' q = Some (JObj m') \<and>
    unchangedOff q v v')"

lemma reachesI:
  "k m key s = (m', None) \<Longrightarrow> p = q @ opSegs key s \<Longrightarrow> resolve v q = Some (JObj m0) \<Longrightarrow>
   focus m0 key m \<Longrightarrow> resolve v' q = Some (JObj m') \<Longrightarrow> unchangedOff q v v' \<Longrightarrow> reaches k v p v'"
  unfolding reaches_def by blast

lemma reachesE:
  assumes "reaches k v p v'"
  obtains q m0 m key s m' where "k m key s = (m', None)" and "p = q @ opSegs key s"
    and "resolve v q = Some (JObj m0)" and "focus m0 key m" and "resolve v' q = Some (JObj m')"
    and "unchangedOff q v v'"
  using assms unfolding reaches_def by blast

lemma reaches_map: "k m [] s = (m', None) \<Longrightarrow> reaches k (JObj m) [s] (JObj m')"
  by (rule reachesI[of k m "[]" s m' _ "[]"]) (auto simp: opSegs_def focus_def)

lemma reaches_array:
  assumes "k (fmupd key (JArr arr) m) key s = (m', None)" and "key \<noteq> []"
    and "fmlookup m key = Some a" and "toAnySlice a = Some arr"
  shows "reaches k (JObj m) [key, s] (JObj m')"
  using assms by (intro reachesI[of k _ key s m' _ "[]"]) (auto simp: opSegs_def focus_def)

lemma reaches_key:
  assumes "fmlookup m seg = Some child" and "reaches k child p w"
  shows "reaches k (JObj m) (seg # p) (JObj (fmupd seg w m))"
  using assms(2)
proof (rule reachesE)
  fix q m0 m1 key s m'
  assume *: "k m1 key s = (m', None)" "p = q @ opSegs key s" "resolve child q = Some (JObj m0)"
    "focus m0 key m1" "resolve w q = Some (JObj m')" "unchangedOff q child w"
  then show ?thesis
    using assms(1) unchangedOff_key[OF assms(1) *(6)]
    by (intro reachesI[of k m1 key s m' _ "seg # q"]) auto
qed

lemma reaches_index:
  assumes "toAnySlice a = Some arr" and "i < length arr" and "reaches k (arr ! i) p w"
  shows "reaches k a (itoaNat i # p) (JArr (arr[i := w]))"
  using assms(3)
proof (rule reachesE)
  fix q m0 m1 key s m'
  assume *: "k m1 key s = (m', None)" "p = q @ opSegs key s" "resolve (arr ! i) q = Some (JObj m0)"
    "focus m0 key m1" "resolve w q = Some (JObj m')" "unchangedOff q (arr ! i) w"
  have "resolve a (itoaNat i # q) = Some (JObj m0)"
    using assms(1,2) *(3) by (auto simp: toAnySlice_Some)
  with * show ?thesis
    using assms(2) unchangedOff_index[OF assms(1,2) *(6)]
    by (intro reachesI[of k m1 key s m' _ "itoaNat i # q" a m0]) auto
qed

lemma navigate_reaches:
  assumes "navigateForPatch k v p = (v', None)" and "list_all canonicalSeg p"
  shows "reaches k v p v'"
  using assms
proof (induction k v p arbitrary: v' rule: navigateForPatch.induct)
  case (1 k current)
  then show ?case by simp
next
  case (2 k current lastSeg)
  then show ?case by (cases current) (auto simp: reaches_map)
next
  case (3 k current seg nextSeg rest)
  then obtain node child where cur: "current = JObj node" and child: "fmlookup node seg = Some child"
    by (cases current) (auto split: option.splits)
  show ?case
  proof (cases "snd (isArrayIndex nextSeg) \<or> nextSeg = ''-''")
    case False
    with "3.prems"(1) cur child obtain w where w: "navigateForPatch k child (nextSeg # rest) = (w, None)"
      and v': "v' = JObj (fmupd seg w node)"
      by (auto split: prod.splits)
    with 3 cur child False show ?thesis by (auto intro: reaches_key)
  next
    case True
    with "3.prems"(1) cur child obtain arr where arr: "toAnySlice child = Some arr"
      by (auto split: option.splits)
    let ?node = "fmupd seg (JArr arr) node" and ?index = "fst (isArrayIndex nextSeg)"
    show ?thesis
    proof (cases "rest = []")
      case rest: True
      with "3.prems" cur child True arr show ?thesis
        by (auto simp: canonicalSeg_def intro: reaches_array)
    next
      case rest: False
      with "3.prems"(1) cur child True arr obtain w where bounds: "0 \<le> ?index" "?index < int (length arr)"
        and w: "navigateForPatch k (arr ! nat ?index) rest = (w, None)"
        and v': "v' = JObj (fmupd seg (JArr (arr[nat ?index := w])) ?node)"
        by (auto simp: Let_def split: prod.splits if_splits)
      have "nextSeg = itoaNat (nat ?index)"
        using bounds "3.prems"(2) canonicalSeg_atoi[of nextSeg]
        by (auto simp: isArrayIndex_def split: if_splits option.splits)
      moreover have "reaches k (arr ! nat ?index) rest w"
        using "3.IH"(1)[OF cur child True arr refl refl rest _ w] bounds "3.prems"(2) by simp
      ultimately show ?thesis
        using bounds reaches_key[OF child reaches_index[OF arr, of "nat ?index"]]
        by (simp add: cur v')
    qed
  qed
qed

subsection \<open>The operations refine RFC 6902\<close>

lemma fmupd_again [simp]: "fmupd k v (fmupd k w m) = fmupd k v m"
  by (rule fmap_ext) simp

lemma patchContainer_map:
  "patchContainer op v m [] s = (m', None) \<Longrightarrow> rfcOp op v s (JObj m) = Some (JObj m')"
  by (auto simp: patchContainer_def addValue_def replaceValue_def removeValue_def rfcOp_def rfcAdd_def
      rfcReplace_def rfcRemove_def fmdrop_missing split: if_splits)

lemma atoi_index:
  "canonicalSeg s \<Longrightarrow> s \<noteq> ''-'' \<Longrightarrow> atoi s = Some i \<Longrightarrow> 0 \<le> i \<and> indexSegment s = Some (nat i)"
  using canonicalSeg_atoi indexSegment_itoaNat by metis

lemma patchContainer_array:
  assumes "patchContainer op v (fmupd key (JArr arr) m0) key s = (m', None)"
    and "key \<noteq> []" and "toAnySlice a = Some arr" and "canonicalSeg s"
  shows "\<exists>a'. rfcOp op v s a = Some a' \<and> m' = fmupd key a' m0"
proof -
  have a: "\<And>f. (case a of JObj m \<Rightarrow> f m | _ \<Rightarrow> (Option.bind (toAnySlice a) g)) = g arr" for g :: "jval list \<Rightarrow> jval option"
    using assms(3) by (cases a) auto
  have index: "0 \<le> i \<and> indexSegment s = Some (nat i)" if "s \<noteq> ''-''" "atoi s = Some i" for i
    using atoi_index assms(4) that by blast
  consider "op = ''add''" | "op = ''replace''" | "op = ''remove''"
    using assms(1) by (auto simp: patchContainer_def split: if_splits)
  then show ?thesis
  proof cases
    case 1
    with assms(1,2) index show ?thesis
      by (auto simp: patchContainer_def rfcOp_def rfcAdd_def a addValue_def Let_def
          split: if_splits option.splits)
  next
    case 2
    with assms(1,2) index show ?thesis
      by (auto simp: patchContainer_def rfcOp_def rfcReplace_def a replaceValue_def Let_def
          split: if_splits option.splits)
  next
    case 3
    with assms(1,2) index show ?thesis
      by (auto simp: patchContainer_def rfcOp_def rfcRemove_def a removeValue_def Let_def
          split: if_splits option.splits)
  qed
qed

lemma unchangedOff_append:
  assumes "unchangedOff q v v'" and "resolve v q = Some w" and "resolve v' q = Some w'"
    and "unchangedOff t w w'"
  shows "unchangedOff (q @ t) v v'"
  unfolding unchangedOff_def
proof (intro allI impI)
  fix r assume r: "r \<parallel> q @ t"
  show "resolve v' r = resolve v r"
  proof (cases "prefix q r")
    case True
    then obtain r' where r': "r = q @ r'" by (auto simp: prefix_def)
    with r have "r' \<parallel> t" by (simp add: parallel_def)
    with assms r' show ?thesis by (simp add: resolve_append unchangedOff_def)
  next
    case False
    moreover have "\<not> prefix r q"
      using r by (auto simp: parallel_def prefix_def)
    ultimately show ?thesis
      using assms(1) by (simp add: unchangedOff_def parallel_def)
  qed
qed

lemma unchangedOff_fmupd: "unchangedOff [k] (JObj m) (JObj (fmupd k a m))"
  unfolding unchangedOff_def by (auto elim!: parallel_Cons_cases)

lemma navigateForPatch_obj: "\<exists>m. fst (navigateForPatch k (JObj doc) p) = JObj m"
  by (cases "(k, JObj doc, p)" rule: navigateForPatch.cases)
     (auto split: option.splits prod.splits simp: Let_def)

lemma asObj_JObj [simp]: "asObj doc (JObj m, e) = (m, e)"
  by (simp add: asObj_def)

lemma applyJSONPatch_reaches:
  assumes "applyJSONPatch doc op (buildJSONPointer p) v = (doc', None)" and "list_all canonicalSeg p"
  shows "reaches (patchContainer op v) (JObj doc) p (JObj doc')"
proof -
  obtain m e where nav: "navigateForPatch (patchContainer op v) (JObj doc) p = (JObj m, e)"
    using navigateForPatch_obj by (metis prod.collapse)
  with assms(1) have "e = None" "m = doc'"
    by (auto simp: applyJSONPatch_def split: if_splits)
  with nav assms(2) show ?thesis
    by (auto intro: navigate_reaches)
qed

lemma reaches_rfcOp:
  assumes "reaches (patchContainer op v) doc p doc'" and "list_all canonicalSeg p"
  obtains q s par par' where "p = q @ [s]" and "resolve doc q = Some par"
    and "rfcOp op v s par = Some par'" and "resolve doc' q = Some par'" and "unchangedOff q doc doc'"
  using assms(1)
proof (rule reachesE)
  fix q m0 m key s m'
  assume *: "patchContainer op v m key s = (m', None)" "p = q @ opSegs key s"
    "resolve doc q = Some (JObj m0)" "focus m0 key m" "resolve doc' q = Some (JObj m')"
    "unchangedOff q doc doc'"
  show thesis
  proof (cases "key = []")
    case True
    with * show ?thesis
      by (intro that[of q s]) (auto simp: opSegs_def focus_def patchContainer_map)
  next
    case False
    with *(4) obtain a arr where a: "fmlookup m0 key = Some a" "toAnySlice a = Some arr"
      "m = fmupd key (JArr arr) m0"
      by (auto simp: focus_def)
    with * False assms(2) patchContainer_array[of op v key arr m0 s m' a]
    obtain a' where a': "rfcOp op v s a = Some a'" "m' = fmupd key a' m0"
      by (auto simp: opSegs_def)
    have "unchangedOff (q @ [key]) doc doc'"
      using *(3,5,6) a'(2) unchangedOff_append unchangedOff_fmupd by metis
    with * a a' False show ?thesis
      by (intro that[of "q @ [key]" s a a']) (auto simp: opSegs_def resolve_append)
  qed
qed

subsection \<open>Where a value ends up\<close>

lemma rfcOp_reads_back:
  assumes "rfcOp op v s par = Some par'" and "op = ''replace'' \<or> op = ''add'' \<and> s \<noteq> ''-''"
  shows "resolve par' [s] = Some v"
  using assms
  by (cases par)
     (auto simp: rfcOp_def rfcAdd_def rfcReplace_def bind_eq_Some_conv indexSegment_Some nth_append
       split: if_splits)

lemma rfcReplace_frame:
  assumes "rfcReplace v s par = Some par'"
  shows "unchangedOff [s] par par'"
proof (cases "\<exists>m. par = JObj m")
  case True
  with assms show ?thesis
    by (auto simp: rfcReplace_def intro: unchangedOff_fmupd split: if_splits)
next
  case False
  with assms obtain arr i where "toAnySlice par = Some arr" "s = itoaNat i" "i < length arr"
    "par' = JArr (arr[i := v])"
    by (cases par) (auto simp: rfcReplace_def indexSegment_Some bind_eq_Some_conv split: if_splits)
  then show ?thesis
    using unchangedOff_index[of par arr i "[]" v] by simp
qed

subsection \<open>Operations that write one place\<close>

text \<open>
  The contract of an operation on one pointer that writes there and nowhere else: on success the
  pointer has a value that stands in the relation \<open>post\<close> to what was there before. The loop over
  the expanded pointers keeps the contract for all of them, because no pointer is below another.
\<close>

locale place_writer =
  fixes put :: "jobj \<Rightarrow> string \<Rightarrow> jobj patched" and post :: "jval option \<Rightarrow> jval \<Rightarrow> bool"
  assumes put_post: "put doc (buildJSONPointer p) = (doc', None) \<Longrightarrow> list_all canonicalSeg p \<Longrightarrow> p \<noteq> [] \<Longrightarrow>
      \<exists>w. resolve (JObj doc') p = Some w \<and> post (resolve (JObj doc) p) w"
    and put_frame: "put doc (buildJSONPointer p) = (doc', None) \<Longrightarrow> list_all canonicalSeg p \<Longrightarrow> p \<noteq> [] \<Longrightarrow>
      unchangedOff p (JObj doc) (JObj doc')"
begin

lemma forPointers_frame:
  assumes "forPointers put doc (map buildJSONPointer ps) = (doc', None)"
    and "\<forall>p \<in> set ps. list_all canonicalSeg p \<and> p \<noteq> []" and "\<forall>p \<in> set ps. r \<parallel> p"
  shows "resolve (JObj doc') r = resolve (JObj doc) r"
  using assms
proof (induction ps arbitrary: doc)
  case Nil
  then show ?case by simp
next
  case (Cons p ps)
  then obtain mid where "put doc (buildJSONPointer p) = (mid, None)"
    and "forPointers put mid (map buildJSONPointer ps) = (doc', None)"
    by (auto split: prod.splits option.splits)
  with Cons.IH[of mid] Cons.prems put_frame[of doc p mid] show ?case
    by (simp add: unchangedOff_def)
qed

lemma forPointers_post:
  assumes "forPointers put doc (map buildJSONPointer ps) = (doc', None)"
    and "\<forall>p \<in> set ps. list_all canonicalSeg p \<and> p \<noteq> []" and "sorted_wrt (\<parallel>) ps" and "p \<in> set ps"
  shows "\<exists>w. resolve (JObj doc') p = Some w \<and> post (resolve (JObj doc) p) w"
  using assms
proof (induction ps arbitrary: doc)
  case Nil
  then show ?case by simp
next
  case (Cons a ps)
  then obtain mid where mid: "put doc (buildJSONPointer a) = (mid, None)"
    and rest: "forPointers put mid (map buildJSONPointer ps) = (doc', None)"
    by (auto split: prod.splits option.splits)
  show ?case
  proof (cases "p = a")
    case True
    with Cons.prems have "\<forall>b \<in> set ps. p \<parallel> b" by simp
    then have "resolve (JObj doc') p = resolve (JObj mid) p"
      using forPointers_frame[OF rest] Cons.prems by simp
    with put_post[OF mid] True Cons.prems show ?thesis by simp
  next
    case False
    with Cons.prems have "p \<in> set ps" "p \<parallel> a"
      by (auto intro: parallel_commute)
    then have "resolve (JObj mid) p = resolve (JObj doc) p"
      using put_frame[OF mid] Cons.prems by (simp add: unchangedOff_def)
    with Cons.IH[OF rest] \<open>p \<in> set ps\<close> Cons.prems show ?thesis by simp
  qed
qed

end

lemma applyJSONPatch_rfcOp:
  assumes "applyJSONPatch doc op (buildJSONPointer p) v = (doc', None)" and "list_all canonicalSeg p"
  obtains q s par par' where "p = q @ [s]" and "resolve (JObj doc) q = Some par"
    and "rfcOp op v s par = Some par'" and "resolve (JObj doc') q = Some par'"
    and "unchangedOff q (JObj doc) (JObj doc')"
  using reaches_rfcOp[OF applyJSONPatch_reaches[OF assms] assms(2)] by blast

interpretation replace_at: place_writer "applyAtPointer ''replace'' v" "\<lambda>old w. old \<noteq> None \<and> w = v"
proof
  fix doc p doc'
  assume w: "applyAtPointer ''replace'' v doc (buildJSONPointer p) = (doc', None)"
    and c: "list_all canonicalSeg p"
  from w have "applyJSONPatch doc ''replace'' (buildJSONPointer p) v = (doc', None)"
    by (simp add: applyAtPointer_def)
  then obtain q s par par' where *: "p = q @ [s]" "resolve (JObj doc) q = Some par"
    "rfcReplace v s par = Some par'" "resolve (JObj doc') q = Some par'"
    "unchangedOff q (JObj doc) (JObj doc')"
    using c by (rule applyJSONPatch_rfcOp) (simp add: rfcOp_simps)
  then show "unchangedOff p (JObj doc) (JObj doc')"
    using unchangedOff_append[OF *(5,2,4) rfcReplace_frame[OF *(3)]] by simp
  have "resolve par [s] \<noteq> None"
    using *(3) by (cases par)
      (auto simp: rfcReplace_def bind_eq_Some_conv indexSegment_Some split: if_splits)
  moreover have "resolve par' [s] = Some v"
    using rfcOp_reads_back[of "''replace''" v s par par'] *(3) by (simp add: rfcOp_simps)
  ultimately show "\<exists>w. resolve (JObj doc') p = Some w \<and> (resolve (JObj doc) p \<noteq> None \<and> w = v)"
    using * by (simp add: resolve_append)
qed

subsection \<open>Shallow merge\<close>

lemma resolve_nowhere [simp]:
  "r \<noteq> [] \<Longrightarrow> resolve JNil r = None" "r \<noteq> [] \<Longrightarrow> resolve (JObj fmempty) r = None"
  "r \<noteq> [] \<Longrightarrow> resolve (JArr []) r = None"
  by (cases r; simp add: toAnySlice_def split: option.splits)+

text \<open>A place is written, and only it, whatever the value there was.\<close>

definition changesTo :: "(jval \<Rightarrow> jval) \<Rightarrow> jval \<Rightarrow> string list \<Rightarrow> jval \<Rightarrow> bool" where
  "changesTo f v p v' \<longleftrightarrow> resolve v' p = Some (f (orNil (resolve v p))) \<and> unchangedOff p v v'"

lemma changesTo_key:
  "fmlookup m k = Some child \<Longrightarrow> changesTo f child p w \<Longrightarrow>
   changesTo f (JObj m) (k # p) (JObj (fmupd k w m))"
  by (auto simp: changesTo_def intro: unchangedOff_key)

lemma changesTo_index:
  "toAnySlice a = Some arr \<Longrightarrow> i < length arr \<Longrightarrow> changesTo f (arr ! i) p w \<Longrightarrow>
   changesTo f a (itoaNat i # p) (JArr (arr[i := w]))"
  by (auto simp: changesTo_def toAnySlice_Some intro!: unchangedOff_index)

lemma unchangedOff_created:
  assumes "fmlookup m k = None \<or> fmlookup m k = Some JNil"
    and "unchangedOff p c w" and "\<And>r. r \<noteq> [] \<Longrightarrow> resolve c r = None"
  shows "unchangedOff (k # p) (JObj m) (JObj (fmupd k w m))"
  unfolding unchangedOff_def
proof (intro allI impI)
  fix r assume "r \<parallel> k # p"
  then obtain s r' where r: "r = s # r'" "s = k \<longrightarrow> r' \<parallel> p"
    by (rule parallel_Cons_cases)
  then have "r' \<noteq> []" if "s = k"
    using that by auto
  with assms r show "resolve (JObj (fmupd k w m)) r = resolve (JObj m) r"
    by (auto simp: unchangedOff_def)
qed

lemma changesTo_created:
  assumes "fmlookup m k = None \<or> fmlookup m k = Some JNil" and "p \<noteq> []"
    and "changesTo f (JObj fmempty) p w"
  shows "changesTo f (JObj m) (k # p) (JObj (fmupd k w m))"
  using assms unchangedOff_created[OF assms(1), of p "JObj fmempty" w]
  by (auto simp: changesTo_def)

lemma changesTo_member:
  "changesTo f (JObj m) [k] (JObj (fmupd k (f (orNil (fmlookup m k))) m))"
  by (cases "fmlookup m k") (auto simp: changesTo_def unchangedOff_fmupd)

lemma navigateToParent_empty_array:
  "p \<noteq> [] \<Longrightarrow> snd (navigateToParent (mergeAtParent val) create (JArr []) p) \<noteq> None"
  by (cases p rule: remdups_adj.cases) (auto simp: mergeAtParent_def split: option.splits)

lemma mergeAtParent_changes:
  assumes "mergeAtParent val current s = (v', None)" and "canonicalSeg s"
  shows "changesTo (\<lambda>old. mergedValue old val) current [s] v'"
proof (cases "\<exists>arr. current = JArr arr")
  case True
  with assms obtain arr i where "current = JArr arr" "s = itoaNat i" "i < length arr"
    "v' = JArr (arr[i := mergedValue (arr ! i) val])"
    using canonicalSeg_atoi[of s]
    by (auto simp: mergeAtParent_def split: if_splits option.splits)
  then show ?thesis
    using changesTo_index[of "JArr arr" arr i _ "[]"] by (simp add: changesTo_def)
next
  case False
  with assms obtain m where "current = JObj m"
    "v' = JObj (fmupd s (mergedValue (orNil (fmlookup m s)) val) m)"
    by (cases current) (auto simp: mergeAtParent_def)
  then show ?thesis
    using changesTo_member[of "\<lambda>old. mergedValue old val"] by simp
qed

lemma navigateToParent_merges:
  assumes "navigateToParent (mergeAtParent val) True v p = (v', None)"
    and "list_all canonicalSeg p" and "p \<noteq> []"
  shows "changesTo (\<lambda>old. mergedValue old val) v p v'"
  using assms
proof (induction "mergeAtParent val" True v p arbitrary: v' rule: navigateToParent.induct)
  case (1 current)
  then show ?case by simp
next
  case (2 current lastSeg)
  then show ?case by (simp add: mergeAtParent_changes)
next
  case (3 current seg nextSeg rest)
  show ?case
  proof (cases "\<exists>arr. current = JArr arr")
    case True
    with 3 obtain arr i w where arr: "current = JArr arr" "atoi seg = Some i" "0 \<le> i" "i < int (length arr)"
      and w: "navigateToParent (mergeAtParent val) True (arr ! nat i) (nextSeg # rest) = (w, None)"
      and v': "v' = JArr (arr[nat i := w])"
      by (auto split: if_splits option.splits prod.splits)
    have "changesTo (\<lambda>old. mergedValue old val) (arr ! nat i) (nextSeg # rest) w"
      using 3 arr w by auto
    with arr v' canonicalSeg_atoi[of seg i] "3.prems"(2) show ?thesis
      by (auto intro!: changesTo_index)
  next
    case False
    with "3.prems"(1) obtain m where m: "current = JObj m"
      by (cases current) auto
    let ?child = "orNil (fmlookup m seg)"
    let ?child' = "if ?child = JNil then determineNextContainerType nextSeg else ?child"
    from "3.prems"(1) m obtain w where
      w: "navigateToParent (mergeAtParent val) True ?child' (nextSeg # rest) = (w, None)"
      and v': "v' = JObj (fmupd seg w m)"
        by (auto simp: Let_def split: prod.splits)
    have IH: "changesTo (\<lambda>old. mergedValue old val) ?child' (nextSeg # rest) w"
      using 3 m w by auto
    show ?thesis
    proof (cases "?child = JNil")
      case True
      moreover from this have "?child' = JObj fmempty"
        using w navigateToParent_empty_array[of "nextSeg # rest" val True]
        by (auto simp: determineNextContainerType_def split: if_splits)
      ultimately show ?thesis
        using IH m v' by (auto simp: orNil_def intro!: changesTo_created split: option.splits)
    next
      case False
      with IH m v' show ?thesis
        by (auto simp: orNil_def intro!: changesTo_key split: option.splits)
    qed
  qed
qed

lemma navigateToParent_obj:
  "p \<noteq> [] \<Longrightarrow> \<exists>m. fst (navigateToParent (mergeAtParent val) create (JObj doc) p) = JObj m"
  by (cases "(mergeAtParent val, create, JObj doc, p)" rule: navigateToParent.cases)
     (auto simp: mergeAtParent_def Let_def split: prod.splits)

lemma mergeShallowAtPointer_changes:
  assumes "mergeShallowAtPointer doc (buildJSONPointer p) val = (doc', None)"
    and "list_all canonicalSeg p" and "p \<noteq> []"
  shows "changesTo (\<lambda>old. mergedValue old val) (JObj doc) p (JObj doc')"
proof -
  obtain m e where nav: "navigateToParent (mergeAtParent val) True (JObj doc) p = (JObj m, e)"
    using navigateToParent_obj[OF assms(3)] by (metis prod.collapse)
  with assms(1) have "e = None" "m = doc'"
    by (auto simp: mergeShallowAtPointer_def)
  with nav assms(2,3) show ?thesis
    using navigateToParent_merges by blast
qed

interpretation merge_at: place_writer "\<lambda>doc ptr. mergeShallowAtPointer doc ptr val"
  "\<lambda>old w. w = mergedValue (orNil old) val"
  by unfold_locales (auto dest!: mergeShallowAtPointer_changes simp: changesTo_def)

subsection \<open>Adding creates missing parents\<close>

lemma setElem_unchanged:
  assumes "toAnySlice a = Some arr" and "i < length arr" and "unchangedOff p (arr ! i) w"
    and "\<And>m. arr ! i = JObj m \<Longrightarrow> \<exists>m'. w = JObj m'"
  shows "unchangedOff (itoaNat i # p) a (setElem a i w)"
proof (cases a)
  case (JMaps ms)
  with assms obtain m' where m': "w = JObj m'" "arr = map JObj ms"
    by auto
  with JMaps have "\<And>r. r \<noteq> [] \<Longrightarrow> resolve (setElem a i w) r = resolve (JArr (arr[i := w])) r"
    by (auto simp: setElem_def map_update neq_Nil_conv)
  with unchangedOff_index[OF assms(1-3)] show ?thesis
    unfolding unchangedOff_def by (metis parallelD1 Nil_prefix)
qed (use assms unchangedOff_index[OF assms(1-3)] in \<open>auto simp: setElem_def toAnySlice_def\<close>)

lemma ensureParents_obj: "\<exists>m'. fst (ensureParents (JObj m) p) = JObj m'"
  by (cases "(JObj m, p)" rule: ensureParents.cases) (auto simp: Let_def split: sum.splits prod.splits)

lemma child_unchanged:
  assumes "unchangedOff p c w"
    and "(if orNil (fmlookup m seg) = JNil then missingContainer seg nextSeg
          else Inr (orNil (fmlookup m seg))) = Inr c"
  shows "unchangedOff (seg # p) (JObj m) (JObj (fmupd seg w m))"
proof (cases "orNil (fmlookup m seg) = JNil")
  case True
  with assms(2) have "c = JArr [] \<or> c = JObj fmempty"
    by (auto simp: missingContainer_def split: if_splits)
  then have "resolve c r = None" if "r \<noteq> []" for r
    using that by auto
  moreover have "fmlookup m seg = None \<or> fmlookup m seg = Some JNil"
    using True by (cases "fmlookup m seg") auto
  ultimately show ?thesis
    using assms(1) unchangedOff_created by blast
next
  case False
  with assms have "fmlookup m seg = Some c"
    by (cases "fmlookup m seg") auto
  with assms(1) show ?thesis by (rule unchangedOff_key[rotated])
qed

lemma ensureParents_frame:
  assumes "list_all canonicalSeg p"
  shows "unchangedOff p v (fst (ensureParents v p))"
  using assms
proof (induction v p rule: ensureParents.induct)
  case (1 current)
  then show ?case by simp
next
  case (2 current lastSeg)
  then show ?case by (simp add: unchangedOff_def)
next
  case (3 current seg nextSeg rest)
  have same: "unchangedOff (seg # nextSeg # rest) current current"
    by (simp add: unchangedOff_def)
  show ?case
  proof (cases "toAnySlice current")
    case (Some arr)
    show ?thesis
    proof (cases "\<exists>i. atoi seg = Some i \<and> 0 \<le> i \<and> i < int (length arr)")
      case True
      then obtain i where i: "atoi seg = Some i" "0 \<le> i" "i < int (length arr)" by blast
      obtain w err where w: "ensureParents (arr ! nat i) (nextSeg # rest) = (w, err)"
        by fastforce
      have "unchangedOff (nextSeg # rest) (arr ! nat i) w"
        using "3.IH"(2)[OF Some i(1)] i "3.prems" w by simp
      moreover have "\<exists>m'. w = JObj m'" if "arr ! nat i = JObj m" for m
        using ensureParents_obj[of m "nextSeg # rest"] w that by simp
      ultimately have "unchangedOff (itoaNat (nat i) # nextSeg # rest) current (setElem current (nat i) w)"
        using setElem_unchanged[OF Some, of "nat i"] i by simp
      moreover have "seg = itoaNat (nat i)"
        using canonicalSeg_atoi[OF _ i(1)] "3.prems" by simp
      ultimately show ?thesis
        using Some i w by simp
    next
      case False
      with Some same show ?thesis by (auto simp: not_le split: option.splits)
    qed
  next
    case None
    show ?thesis
    proof (cases "\<exists>m. current = JObj m")
      case True
      then obtain m where m: "current = JObj m" by blast
      let ?child = "orNil (fmlookup m seg)"
      show ?thesis
      proof (cases "if ?child = JNil then missingContainer seg nextSeg else Inr ?child")
        case (Inl err)
        with m same show ?thesis by simp
      next
        case (Inr c)
        obtain w err where w: "ensureParents c (nextSeg # rest) = (w, err)"
          by fastforce
        with "3.IH"(1)[OF None m refl Inr] "3.prems" have "unchangedOff (nextSeg # rest) c w"
          by simp
        then have "unchangedOff (seg # nextSeg # rest) (JObj m) (JObj (fmupd seg w m))"
          using Inr by (rule child_unchanged)
        with m Inr w show ?thesis by simp
      qed
    next
      case False
      with None same show ?thesis by (cases current) auto
    qed
  qed
qed

text \<open>
  Key paths: no segment is empty, a number or the append marker. A document is open along such a
  path where the path meets only objects, nil and missing keys.
\<close>

definition keySeg :: "string \<Rightarrow> bool" where
  "keySeg s \<longleftrightarrow> s \<noteq> [] \<and> atoi s = None \<and> s \<noteq> ''-''"

fun openAlong :: "jval \<Rightarrow> string list \<Rightarrow> bool" where
  "openAlong v [] \<longleftrightarrow> True"
| "openAlong v (s # ss) \<longleftrightarrow>
     (case v of
        JObj m \<Rightarrow> ss = [] \<or> orNil (fmlookup m s) = JNil \<or> openAlong (orNil (fmlookup m s)) ss
      | _ \<Rightarrow> False)"

lemma keySeg_canonical: "keySeg s \<Longrightarrow> canonicalSeg s"
  by (simp add: keySeg_def canonicalSeg_def)

lemma keySeg_isArrayIndex: "keySeg s \<Longrightarrow> isArrayIndex s = (- 1, False)"
  by (simp add: keySeg_def isArrayIndex_def)

text \<open>Creating the parents and setting the member succeeds on an open key path.\<close>

lemma ensure_then_set:
  assumes "openAlong v p" and "list_all keySeg p" and "p \<noteq> []"
    and "\<And>m s. k m [] s = (fmupd s x m, None)"
  shows "\<exists>v1 v2. ensureParents v p = (v1, None) \<and> navigateForPatch k v1 p = (v2, None) \<and>
    changesTo (\<lambda>_. x) v p v2"
  using assms(1-3)
proof (induction v p rule: ensureParents.induct)
  case (1 current)
  then show ?case by simp
next
  case (2 current lastSeg)
  then show ?case
    using changesTo_member[of "\<lambda>_. x"] by (cases current) (auto simp: assms(4))
next
  case (3 current seg nextSeg rest)
  then obtain m where m: "current = JObj m"
    by (cases current) auto
  have next_key: "snd (isArrayIndex nextSeg) = False" "nextSeg \<noteq> ''-''" "atoi nextSeg = None"
    using 3 by (auto simp: keySeg_isArrayIndex keySeg_def)
  let ?child = "orNil (fmlookup m seg)"
  let ?child' = "if ?child = JNil then JObj fmempty else ?child"
  have "openAlong ?child' (nextSeg # rest)"
    using "3.prems"(1) m by (cases rest) (auto split: jval.splits)
  moreover have created: "(if ?child = JNil then missingContainer seg nextSeg else Inr ?child) = Inr ?child'"
    using next_key by (simp add: missingContainer_def)
  ultimately obtain v1 v2 where *: "ensureParents ?child' (nextSeg # rest) = (v1, None)"
      "navigateForPatch k v1 (nextSeg # rest) = (v2, None)"
      "changesTo (\<lambda>_. x) ?child' (nextSeg # rest) v2"
    using "3.IH"(1)[OF _ m refl] m "3.prems"(2) by auto
  have "ensureParents current (seg # nextSeg # rest) = (JObj (fmupd seg v1 m), None)"
    by (simp only: ensureParents.simps m toAnySlice_simps option.case jval.case Let_def created
        sum.case *(1) prod.case)
  moreover have "navigateForPatch k (JObj (fmupd seg v1 m)) (seg # nextSeg # rest) =
      (JObj (fmupd seg v2 m), None)"
    using *(2) next_key by simp
  moreover have "changesTo (\<lambda>_. x) current (seg # nextSeg # rest) (JObj (fmupd seg v2 m))"
    using *(3) m by (cases "fmlookup m seg")
      (auto intro: changesTo_created changesTo_key split: if_splits)
  ultimately show ?case by blast
qed

lemma addValue_member: "patchContainer ''add'' x m [] s = (fmupd s x m, None)"
  by (simp add: patchContainer_def addValue_def)

lemma add_at_key_path:
  assumes "openAlong (JObj doc) p" and "list_all keySeg p" and "p \<noteq> []"
  shows "\<exists>doc'. applyAtPointer ''add'' x doc (buildJSONPointer p) = (doc', None) \<and>
    changesTo (\<lambda>_. x) (JObj doc) p (JObj doc')"
proof -
  from ensure_then_set[OF assms, of "patchContainer ''add'' x" x, OF addValue_member] obtain v1 v2 where
    *: "ensureParents (JObj doc) p = (v1, None)"
      "navigateForPatch (patchContainer ''add'' x) v1 p = (v2, None)"
      "changesTo (\<lambda>_. x) (JObj doc) p v2" by blast
  from *(1) obtain m1 where m1: "v1 = JObj m1"
    using ensureParents_obj[of doc p] by auto
  with *(2) obtain m2 where m2: "v2 = JObj m2"
    using navigateForPatch_obj[of _ m1 p] by (metis fst_conv)
  have "applyAtPointer ''add'' x doc (buildJSONPointer p) = (m2, None)"
    using * m1 m2 assms(3)
    by (simp add: applyAtPointer_def ensureParentExists_def applyJSONPatch_def)
  with *(3) m2 show ?thesis by blast
qed

subsection \<open>Plain paths expand to themselves\<close>

definition plainSeg :: "string \<Rightarrow> bool" where
  "plainSeg s \<longleftrightarrow> keySeg s \<and> CHR ''['' \<notin> set s"

lemma applySegment_plain:
  assumes "plainSeg s"
  shows "applySegment st s = applyKey [st] s"
proof -
  have "s \<noteq> []" "atoi s = None" "CHR ''['' \<notin> set s"
    using assms by (auto simp: plainSeg_def keySeg_def)
  moreover from this have "hd s \<noteq> CHR ''[''"
    by (metis list.set_sel(1))
  moreover from calculation have "takeWhile (\<lambda>c. c \<noteq> CHR ''['') s = s"
    "dropWhile (\<lambda>c. c \<noteq> CHR ''['') s = []"
    by (auto simp: takeWhile_eq_all_conv dropWhile_eq_Nil_conv)
  moreover have "bindR (applyKey [st] s) (\<lambda>cur. applySegmentLoop s cur []) = applyKey [st] s"
    by (cases "applyKey [st] s") simp_all
  ultimately show ?thesis
    by (simp only: applySegment_def applySegmentLoop.simps[of s "[st]" s] applyToken_def) simp
qed

lemma expandStates_single:
  "applySegment st segment = Inr [t] \<Longrightarrow> expandStates segment [st] [] = Inr [t]"
  by (simp add: maxPathStates_def)

lemma expandSegments_plain:
  assumes "list_all plainSeg p" and "pvalue st = JNil \<or> openAlong (pvalue st) p"
  shows "\<exists>v. expandSegments [st] p = Inr [\<lparr>pointer = pointer st @ p, pvalue = v\<rparr>]"
  using assms
proof (induction p arbitrary: st)
  case Nil
  then show ?case by (intro exI[of _ "pvalue st"]) simp
next
  case (Cons s p)
  have s: "plainSeg s" "s \<noteq> ''-''" "s \<noteq> []"
    using Cons.prems by (auto simp: plainSeg_def keySeg_def)
  let ?c = "case pvalue st of JObj m \<Rightarrow> orNil (fmlookup m s) | _ \<Rightarrow> JNil"
  let ?t = "\<lparr>pointer = pointer st @ [s], pvalue = ?c\<rparr>"
  have "applyKey [st] s = Inr [?t]"
    using Cons.prems(2) s
    by (cases "pvalue st") (auto simp: applyKey_def appendPointer_def orNil_def)
  then have step: "expandStates s [st] [] = Inr [?t]"
    using s by (intro expandStates_single) (simp add: applySegment_plain)
  have "p = [] \<or> pvalue ?t = JNil \<or> openAlong (pvalue ?t) p"
    using Cons.prems(2) by (cases "pvalue st") auto
  then have "\<exists>v. expandSegments [?t] p = Inr [\<lparr>pointer = pointer st @ s # p, pvalue = v\<rparr>]"
    using Cons.IH[of ?t] Cons.prems(1) by (cases "p = []") auto
  with step s show ?case by simp
qed

lemma splitRawPath_build [simp]: "splitRawPath (buildJSONPointer p) = p"
  using splitPointer_build[of p] by (simp add: splitPointer_def splitRawPath_def)

lemma buildJSONPointer_eq_Nil [simp]: "buildJSONPointer p = [] \<longleftrightarrow> p = []"
  using buildJSONPointer_inj[of p "[]"] by (simp add: buildJSONPointer_def)

lemma expandPaths_plain:
  assumes "list_all plainSeg p" and "openAlong (JObj doc) p" and "p \<noteq> []"
  shows "expandPaths doc (buildJSONPointer p) = Inr [buildJSONPointer p]"
  using expandSegments_plain[of p "\<lparr>pointer = [], pvalue = JObj doc\<rparr>"] assms
  by (auto simp: expandPaths_def)

lemma applyRFC6902_plain:
  assumes "list_all plainSeg p" and "openAlong (JObj doc) p" and "p \<noteq> []"
  shows "applyRFC6902 doc op (buildJSONPointer p) v = applyAtPointer op v doc (buildJSONPointer p)"
  using assms by (simp add: applyRFC6902_def expandPaths_plain split: prod.splits option.splits)

subsection \<open>Filter paths\<close>

lemma applySegment_filter:
  assumes "plainSeg key" and "CHR '']'' \<notin> set expr"
  shows "applySegment st (key @ ''[?('' @ expr @ '')]'') =
    bindR (applyKey [st] key) (\<lambda>cur. applyFilter cur expr)"
proof -
  let ?seg = "key @ ''[?('' @ expr @ '')]''"
  have key: "key \<noteq> []" "atoi key = None" "\<forall>c \<in> set key. c \<noteq> CHR ''[''"
    using assms(1) by (auto simp: plainSeg_def keySeg_def)
  then have hd: "hd ?seg \<noteq> CHR ''[''" by (cases key) auto
  have tok: "takeWhile (\<lambda>c. c \<noteq> CHR ''['') ?seg = key"
    "dropWhile (\<lambda>c. c \<noteq> CHR ''['') ?seg = ''[?('' @ expr @ '')]''"
    using key(3) by (auto simp: takeWhile_append dropWhile_append)
  have expr: "takeWhile (\<lambda>c. c \<noteq> CHR '']'') (''?('' @ expr @ '')]'') = ''?('' @ expr @ '')''"
    "dropWhile (\<lambda>c. c \<noteq> CHR '']'') (''[?('' @ expr @ '')]'') = '']''"
    using assms(2) by (auto simp: takeWhile_append dropWhile_append)
  have "applySegmentLoop ?seg cur (''[?('' @ expr @ '')]'') = applyFilter cur expr" for cur
  proof -
    have "applyBracket cur (''?('' @ expr @ '')'') = applyFilter cur expr"
      by (simp add: applyBracket_def suffix_def)
    moreover have "bindR (applyFilter cur expr) (\<lambda>c. applySegmentLoop ?seg c []) = applyFilter cur expr"
      by (cases "applyFilter cur expr") simp_all
    ultimately show ?thesis
      using expr by (subst applySegmentLoop.simps) simp
  qed
  with key(1,2) hd tok show ?thesis
    unfolding applySegment_def by (subst applySegmentLoop.simps) (simp add: applyToken_def)
qed

lemma expandPaths_filter_states:
  assumes "plainSeg key" and "CHR '']'' \<notin> set expr" and "CHR ''/'' \<notin> set (key @ expr)"
    and "CHR ''~'' \<notin> set (key @ expr)" and "filterExprMatch (trimSpace expr) \<noteq> None"
    and "fmlookup doc key = Some a" and "toAnySlice a = Some arr" and "length arr \<le> maxPathStates"
  shows "expandSegments [\<lparr>pointer = [], pvalue = JObj doc\<rparr>] [key @ ''[?('' @ expr @ '')]''] =
    Inr (map (\<lambda>i. \<lparr>pointer = [key, itoaNat i], pvalue = arr ! i\<rparr>)
      (filter (\<lambda>i. matchesFilter (arr ! i) expr = Inr True) [0..<length arr]))"
proof -
  let ?st = "\<lparr>pointer = [], pvalue = JObj doc\<rparr> :: pathState"
  let ?hits = "filter (\<lambda>i. matchesFilter (arr ! i) expr = Inr True) [0..<length arr]"
  have key: "key \<noteq> []" "key @ ''[?('' @ expr @ '')]'' \<noteq> ''-''"
    using assms(1) by (auto simp: plainSeg_def keySeg_def Cons_eq_append_conv append_eq_Cons_conv)
  have "applyKey [?st] key = Inr [\<lparr>pointer = [key], pvalue = a\<rparr>]"
    using key(1) assms(6) by (simp add: applyKey_def appendPointer_def)
  then have "applySegment ?st (key @ ''[?('' @ expr @ '')]'') =
      Inr (map (\<lambda>i. \<lparr>pointer = [key, itoaNat i], pvalue = arr ! i\<rparr>) ?hits)"
    using applyFilter_single[of "\<lparr>pointer = [key], pvalue = a\<rparr>" arr expr] assms(5,7)
    unfolding applySegment_filter[OF assms(1,2)] by simp
  moreover have "length ?hits \<le> maxPathStates"
    using length_filter_le[of _ "[0..<length arr]"] assms(8) by (metis diff_zero le_trans length_upt)
  ultimately show ?thesis
    using key(2) by simp
qed

lemma splitRawPath_single:
  "s \<noteq> [] \<Longrightarrow> CHR ''/'' \<notin> set s \<Longrightarrow> CHR ''~'' \<notin> set s \<Longrightarrow> splitRawPath (CHR ''/'' # s) = [s]"
proof -
  assume s: "s \<noteq> []" "CHR ''/'' \<notin> set s" "CHR ''~'' \<notin> set s"
  from s(2,3) have "escapePointerSegment s = s"
    by (induction s) (auto simp: escapeChar_def)
  then have "buildJSONPointer [s] = CHR ''/'' # s"
    by (simp add: buildJSONPointer_prefixEach prefixEach_def)
  then show ?thesis
    using splitRawPath_build[of "[s]"] by simp
qed

subsection \<open>Sequences of operations\<close>

lemma applyPatchesFrom_append:
  "applyPatchesFrom i doc (xs @ ys) =
     (case applyPatchesFrom i doc xs of
        (doc', Some err) \<Rightarrow> (doc', Some err)
      | (doc', None) \<Rightarrow> applyPatchesFrom (i + length xs) doc' ys)"
proof (induction xs arbitrary: i doc)
  case Nil
  then show ?case by simp
next
  case (Cons x xs)
  then show ?case
    by (auto split: prod.splits option.splits)
qed

lemma applyPatchesFrom_error:
  assumes "applyPatchesFrom i doc ops = (doc', Some err)"
  shows "\<exists>n cause mid. n < length ops \<and> err = OperationFailed (i + n) cause \<and>
    applyPatchesFrom i doc (take n ops) = (mid, None) \<and> applyOperation mid (ops ! n) = (doc', Some cause)"
  using assms
proof (induction ops arbitrary: i doc)
  case Nil
  then show ?case by simp
next
  case (Cons x ops)
  obtain mid e where x: "applyOperation doc x = (mid, e)" by fastforce
  show ?case
  proof (cases e)
    case (Some cause)
    with x Cons.prems show ?thesis by (intro exI[of _ 0]) auto
  next
    case None
    with x Cons.prems obtain n cause m where "n < length ops" "err = OperationFailed (Suc i + n) cause"
      "applyPatchesFrom (Suc i) mid (take n ops) = (m, None)"
      "applyOperation m (ops ! n) = (doc', Some cause)"
      using Cons.IH[of "Suc i" mid] by auto
    with x None show ?thesis by (intro exI[of _ "Suc n"]) auto
  qed
qed

end
