(* ===== verification/Patch_Properties.thy ===== *)
theory Patch_Properties
  imports Patch_Facts
begin

text \<open>
  The properties of the JSON patch engine (\<^verbatim>\<open>src/internal/patch\<close>): pointers survive printing and
  parsing, path expansion names real and pairwise independent places, a filter selects exactly the
  matching elements, each operation refines RFC 6902, operations on several places change exactly
  these, and a failing list of operations reports its first failure.
\<close>

subsection \<open>Paths\<close>

text \<open>C31: Building a JSON Pointer from segments and splitting it again gives the segments back, for
  every list of segments, whatever characters they contain.\<close>

theorem pointer_roundtrip: "splitPointer (buildJSONPointer segs) = segs"
  by (rule splitPointer_build)

text \<open>C19: When path expansion succeeds it returns at most 65536 pointers. They are pairwise different,
  none of them is at or below another one, and each locates a place of the document: following its
  segments meets object members, array elements, missing members or the append position.\<close>

theorem expandPaths_sound:
  assumes "expandPaths doc rawPath = Inr pointers"
  shows "length pointers \<le> 65536 \<and> distinct pointers \<and>
    sorted_wrt (\<parallel>) (map splitPointer pointers) \<and>
    (\<forall>ptr \<in> set pointers. \<exists>p v. ptr = buildJSONPointer p \<and> locates (JObj doc) p v)"
  using assms
proof (rule expandPaths_ok)
  fix states
  assume ok: "states_ok (JObj doc) states" and "length states \<le> maxPathStates"
    and ptrs: "pointers = map (\<lambda>st. buildJSONPointer (pointer st)) states"
  moreover have "distinct pointers"
    using states_ok_distinct[OF ok] ptrs by (simp add: distinct_map inj_on_def buildJSONPointer_inj)
  ultimately show ?thesis
    by (auto simp: states_ok_def maxPathStates_def comp_def)
qed

definition exampleDoc :: jobj where
  "exampleDoc = fmap_of_list
     [(''items'', JArr [JObj (fmap_of_list [(''k'', JStr ''x''), (''id'', JInt 1)]),
                        JObj (fmap_of_list [(''k'', JStr ''x''), (''id'', JInt 2)]),
                        JObj (fmap_of_list [(''k'', JStr ''y''), (''id'', JInt 3)])])]"

definition filterX :: string where
  "filterX = ''@.k=='' @ [CHR 0x27] @ ''x'' @ [CHR 0x27]"

theorem expandPaths_sound_witness:
  "sorted_wrt (\<parallel>) (map splitPointer [''/items/0/id'', ''/items/1/id'', ''/items/2/id'']) \<and>
   (\<exists>p v. ''/items/2/id'' = buildJSONPointer p \<and> locates (JObj exampleDoc) p v)"
proof -
  have "expandPaths exampleDoc ''/items[*]/id'' = Inr [''/items/0/id'', ''/items/1/id'', ''/items/2/id'']"
    by code_simp
  from expandPaths_sound[OF this] show ?thesis by simp
qed

lemma expandPaths_filter:
  assumes "plainSeg key" and "CHR '']'' \<notin> set expr" and "CHR ''/'' \<notin> set (key @ expr)"
    and "CHR ''~'' \<notin> set (key @ expr)" and "filterExprMatch (trimSpace expr) \<noteq> None"
    and "fmlookup doc key = Some a" and "toAnySlice a = Some arr" and "length arr \<le> 65536"
  shows "expandPaths doc (''/'' @ key @ ''[?('' @ expr @ '')]'') =
    Inr (map (\<lambda>i. buildJSONPointer [key, itoaNat i])
      (filter (\<lambda>i. matchesFilter (arr ! i) expr = Inr True) [0..<length arr]))"
proof -
  have "splitRawPath (''/'' @ key @ ''[?('' @ expr @ '')]'') = [key @ ''[?('' @ expr @ '')]'']"
    using assms(3,4) splitRawPath_single[of "key @ ''[?('' @ expr @ '')]''"] by simp
  moreover have "length arr \<le> maxPathStates"
    using assms(8) by (simp add: maxPathStates_def)
  ultimately show ?thesis
    using expandPaths_filter_states[OF assms(1-7)] by (simp add: expandPaths_def comp_def)
qed

text \<open>C29: A filter path \<open>/key[?(expr)]\<close> with a well-formed filter expands to exactly the elements of the
  array that satisfy the filter, in their order; an element is selected at most once and no other
  element is selected.\<close>

theorem expandPaths_filter_exact:
  assumes "plainSeg key" and "CHR '']'' \<notin> set expr" and "CHR ''/'' \<notin> set (key @ expr)"
    and "CHR ''~'' \<notin> set (key @ expr)" and "filterExprMatch (trimSpace expr) \<noteq> None"
    and "fmlookup doc key = Some a" and "toAnySlice a = Some arr" and "length arr \<le> 65536"
  shows "expandPaths doc (''/'' @ key @ ''[?('' @ expr @ '')]'') =
    Inr (map (\<lambda>i. buildJSONPointer [key, itoaNat i])
      (filter (\<lambda>i. matchesFilter (arr ! i) expr = Inr True) [0..<length arr]))"
  using assms by (rule expandPaths_filter)

theorem expandPaths_filter_exact_witness:
  "expandPaths exampleDoc (''/'' @ ''items'' @ ''[?('' @ filterX @ '')]'') = Inr [''/items/0'', ''/items/1'']"
proof -
  obtain arr where arr: "fmlookup exampleDoc ''items'' = Some (JArr arr)" and len: "length arr = 3"
    and hits: "map (\<lambda>i. matchesFilter (arr ! i) filterX) [0..<3] = [Inr True, Inr True, Inr False]"
    by (rule that[of "[JObj (fmap_of_list [(''k'', JStr ''x''), (''id'', JInt 1)]),
                        JObj (fmap_of_list [(''k'', JStr ''x''), (''id'', JInt 2)]),
                        JObj (fmap_of_list [(''k'', JStr ''y''), (''id'', JInt 3)])]"]; code_simp)
  have "plainSeg ''items''" "CHR '']'' \<notin> set filterX" "CHR ''/'' \<notin> set (''items'' @ filterX)"
    "CHR ''~'' \<notin> set (''items'' @ filterX)" "filterExprMatch (trimSpace filterX) \<noteq> None"
    by code_simp+
  note expandPaths_filter_exact[OF this arr, of arr]
  moreover have "[0..<3::nat] = [0, 1, 2]" by (simp add: upt_rec)
  moreover have "itoaNat 0 = ''0''" "itoaNat 1 = ''1''" by code_simp+
  moreover have "buildJSONPointer [''items'', ''0''] = ''/items/0''"
    "buildJSONPointer [''items'', ''1''] = ''/items/1''" by code_simp+
  ultimately show ?thesis
    using len hits by simp
qed

subsection \<open>Single operations\<close>

text \<open>C9: A successful \<open>add\<close>, \<open>replace\<close> or \<open>remove\<close> at a pointer does what RFC 6902 says to the object or
  array that holds the target (removing a missing object member succeeds, as documented), and
  everything that is not at or below that container reads as before.\<close>

theorem applyJSONPatch_refines_rfc6902:
  assumes "applyJSONPatch doc op (buildJSONPointer p) v = (doc', None)" and "list_all canonicalSeg p"
  shows "\<exists>q s par par'. p = q @ [s] \<and> resolve (JObj doc) q = Some par \<and>
    rfcOp op v s par = Some par' \<and> resolve (JObj doc') q = Some par' \<and>
    (\<forall>r. r \<parallel> q \<longrightarrow> resolve (JObj doc') r = resolve (JObj doc) r)"
  using assms by (rule applyJSONPatch_rfcOp) (auto simp: unchangedOff_def)

theorem applyJSONPatch_refines_rfc6902_witness:
  "\<exists>q s par par'. [''items'', ''1''] = q @ [s] \<and> resolve (JObj exampleDoc) q = Some par \<and>
    rfcOp ''remove'' JNil s par = Some par' \<and>
    resolve (JObj (fst (applyJSONPatch exampleDoc ''remove'' (buildJSONPointer [''items'', ''1'']) JNil))) q =
      Some par' \<and>
    (\<forall>r. r \<parallel> q \<longrightarrow>
       resolve (JObj (fst (applyJSONPatch exampleDoc ''remove'' (buildJSONPointer [''items'', ''1'']) JNil))) r =
       resolve (JObj exampleDoc) r)"
proof (rule applyJSONPatch_refines_rfc6902)
  have "snd (applyJSONPatch exampleDoc ''remove'' (buildJSONPointer [''items'', ''1'']) JNil) = None"
    by code_simp
  then show "applyJSONPatch exampleDoc ''remove'' (buildJSONPointer [''items'', ''1'']) JNil =
    (fst (applyJSONPatch exampleDoc ''remove'' (buildJSONPointer [''items'', ''1'']) JNil), None)"
    by (metis prod.collapse)
  show "list_all canonicalSeg [''items'', ''1'']" by code_simp
qed

text \<open>C18: An \<open>add\<close> along a path of object keys always succeeds where the path meets only objects, nil and
  missing members: the missing parents are created, the path then holds the value, and every place
  that is not at, above or below the path reads as before.\<close>

theorem add_creates_path:
  assumes "toLower (Op operation) = ''add''" and "Path operation = buildJSONPointer p"
    and "list_all plainSeg p" and "p \<noteq> []" and "openAlong (JObj doc) p"
  shows "\<exists>doc'. applyOperation doc operation = (doc', None) \<and>
    resolve (JObj doc') p = Some (Value operation) \<and>
    (\<forall>r. r \<parallel> p \<longrightarrow> resolve (JObj doc') r = resolve (JObj doc) r)"
proof -
  have keys: "list_all keySeg p"
    using assms(3) by (auto simp: plainSeg_def list_all_iff)
  from add_at_key_path[OF assms(5) keys assms(4)] obtain doc' where
    "applyAtPointer ''add'' (Value operation) doc (buildJSONPointer p) = (doc', None)"
    "changesTo (\<lambda>_. Value operation) (JObj doc) p (JObj doc')" by blast
  with assms show ?thesis
    by (simp add: applyOperation_def applyRFC6902_plain changesTo_def unchangedOff_def)
qed

theorem add_creates_path_witness:
  "\<exists>doc'. applyOperation exampleDoc \<lparr>Op = ''Add'', Path = ''/spec/env'', Value = JInt 7\<rparr> = (doc', None) \<and>
    resolve (JObj doc') [''spec'', ''env''] = Some (JInt 7) \<and>
    (\<forall>r. r \<parallel> [''spec'', ''env''] \<longrightarrow> resolve (JObj doc') r = resolve (JObj exampleDoc) r)"
proof -
  have "toLower ''Add'' = ''add''" "''/spec/env'' = buildJSONPointer [''spec'', ''env'']"
    "list_all plainSeg [''spec'', ''env'']" "openAlong (JObj exampleDoc) [''spec'', ''env'']"
    by code_simp+
  then show ?thesis
    using add_creates_path[of "\<lparr>Op = ''Add'', Path = ''/spec/env'', Value = JInt 7\<rparr>"
        "[''spec'', ''env'']" exampleDoc] by simp
qed

subsection \<open>Operations on several places\<close>

lemma expanded_pointers:
  assumes "expandPaths doc rawPath = Inr pointers"
  obtains ps where "pointers = map buildJSONPointer ps" and "sorted_wrt (\<parallel>) ps"
    and "\<forall>p \<in> set ps. list_all canonicalSeg p"
  using assms
proof (rule expandPaths_ok)
  fix states
  assume "states_ok (JObj doc) states" and "pointers = map (\<lambda>st. buildJSONPointer (pointer st)) states"
  then show thesis
    by (intro that[of "map pointer states"]) (auto simp: states_ok_def dest: locates_canonical)
qed

lemma forPointers_root:
  assumes "forPointers (applyAtPointer op v) doc (map buildJSONPointer ps) = (doc', None)"
    and "op = ''replace''" and "sorted_wrt (\<parallel>) ps"
  shows "[] \<notin> set ps"
proof
  assume "[] \<in> set ps"
  with assms(3) have "ps = [[]]"
    by (cases ps; cases "tl ps") (auto simp: parallel_def)
  with assms(1,2) show False
    by (simp add: applyAtPointer_def applyJSONPatch_def splitPointer_def splitAndUnescapePath_def
        buildJSONPointer_def)
qed

text \<open>C8: A successful \<open>replace\<close> whose path expands to several places sets each of them to the value, each
  had a value before, and every place apart from all of them reads as before.\<close>

theorem replace_every_match:
  assumes "applyRFC6902 doc ''replace'' rawPath v = (doc', None)"
    and "expandPaths doc rawPath = Inr pointers"
  shows "(\<forall>ptr \<in> set pointers. resolve (JObj doc) (splitPointer ptr) \<noteq> None \<and>
      resolve (JObj doc') (splitPointer ptr) = Some v) \<and>
    (\<forall>r. (\<forall>ptr \<in> set pointers. r \<parallel> splitPointer ptr) \<longrightarrow> resolve (JObj doc') r = resolve (JObj doc) r)"
  using assms(2)
proof (rule expanded_pointers)
  fix ps
  assume ps: "pointers = map buildJSONPointer ps" "sorted_wrt (\<parallel>) ps" "\<forall>p \<in> set ps. list_all canonicalSeg p"
  have run: "forPointers (applyAtPointer ''replace'' v) doc (map buildJSONPointer ps) = (doc', None)"
    using assms ps(1) by (auto simp: applyRFC6902_def split: if_splits)
  then have nonempty: "\<forall>p \<in> set ps. list_all canonicalSeg p \<and> p \<noteq> []"
    using forPointers_root ps(2,3) by metis
  show ?thesis
    using replace_at.forPointers_post[OF run nonempty ps(2)]
      replace_at.forPointers_frame[OF run nonempty] ps(1)
    by auto
qed

theorem replace_every_match_witness:
  "let doc' = fst (applyRFC6902 exampleDoc ''replace'' ''/items[*]/k'' (JStr ''z'')) in
   resolve (JObj doc') (splitPointer ''/items/0/k'') = Some (JStr ''z'') \<and>
   resolve (JObj doc') (splitPointer ''/items/2/k'') = Some (JStr ''z'') \<and>
   resolve (JObj doc') [''items'', ''0'', ''id''] = Some (JInt 1)"
proof -
  let ?doc' = "fst (applyRFC6902 exampleDoc ''replace'' ''/items[*]/k'' (JStr ''z''))"
  have "snd (applyRFC6902 exampleDoc ''replace'' ''/items[*]/k'' (JStr ''z'')) = None"
    by code_simp
  then have run: "applyRFC6902 exampleDoc ''replace'' ''/items[*]/k'' (JStr ''z'') = (?doc', None)"
    by (metis prod.collapse)
  have ptrs: "expandPaths exampleDoc ''/items[*]/k'' = Inr [''/items/0/k'', ''/items/1/k'', ''/items/2/k'']"
    by code_simp
  have split: "splitPointer ''/items/0/k'' = [''items'', ''0'', ''k'']"
    "splitPointer ''/items/1/k'' = [''items'', ''1'', ''k'']"
    "splitPointer ''/items/2/k'' = [''items'', ''2'', ''k'']"
    by code_simp+
  have old: "resolve (JObj exampleDoc) [''items'', ''0'', ''id''] = Some (JInt 1)" by code_simp
  have apart: "[''items'', ''0'', ''id''] \<parallel> [''items'', i, ''k'']" for i
    by (simp add: parallel_def)
  have "\<forall>ptr \<in> set [''/items/0/k'', ''/items/1/k'', ''/items/2/k''].
      [''items'', ''0'', ''id''] \<parallel> splitPointer ptr"
    using split apart by simp
  then have "resolve (JObj ?doc') [''items'', ''0'', ''id''] = Some (JInt 1)"
    using replace_every_match[OF run ptrs, THEN conjunct2] old by metis
  then show ?thesis
    using replace_every_match[OF run ptrs, THEN conjunct1] by (simp add: Let_def del: resolve.simps)
qed

text \<open>Where a shallow merge lands: at the place the pointer names, and for the empty pointer of the whole document
  at the member with the empty key.\<close>

definition mergePlace :: "string \<Rightarrow> string list" where
  "mergePlace ptr = (if ptr = [] then [[]] else splitPointer ptr)"

lemma mergePlace_build: "p \<noteq> [] \<Longrightarrow> mergePlace (buildJSONPointer p) = p"
  using splitPointer_build[of p] by (cases p) (simp_all add: mergePlace_def buildJSONPointer_def)

lemma mergedValue_overlay:
  "mergedValue (orNil old) overlay = JObj (case old of Some (JObj m) \<Rightarrow> fmadd m overlay | _ \<Rightarrow> overlay)"
  by (cases old) (auto simp: mergedValue_def mergeShallowInto_def split: jval.splits)

lemma merge_at_root:
  assumes "mergeShallowAtPointer doc [] overlay = (doc', err)"
  shows "doc' = fmupd [] (mergedValue (orNil (fmlookup doc [])) overlay) doc"
  using assms by (simp add: mergeShallowAtPointer_def splitPointer_def splitAndUnescapePath_def mergeAtParent_def asObj_def)

lemma merge_root_only:
  assumes run: "forPointers (\<lambda>t ptr. mergeShallowAtPointer t ptr overlay) doc (map buildJSONPointer ps) = (doc', None)"
    and ps: "sorted_wrt (\<parallel>) ps" "[] \<in> set ps"
  shows "map buildJSONPointer ps = [[]] \<and> resolve (JObj doc') [[]] =
      Some (JObj (case resolve (JObj doc) [[]] of Some (JObj m) \<Rightarrow> fmadd m overlay | _ \<Rightarrow> overlay)) \<and>
    (\<forall>r. r \<parallel> [[]] \<longrightarrow> resolve (JObj doc') r = resolve (JObj doc) r)"
proof -
  have root: "ps = [[]]" using ps by (cases ps; cases "tl ps") (auto simp: parallel_def)
  obtain d err where call: "mergeShallowAtPointer doc [] overlay = (d, err)" by fastforce
  with run root have "doc' = d" by (auto simp: buildJSONPointer_def split: option.splits)
  with merge_at_root[OF call] have doc': "doc' = fmupd [] (mergedValue (orNil (fmlookup doc [])) overlay) doc" by simp
  have "resolve (JObj doc') r = resolve (JObj doc) r" if "r \<parallel> [[]]" for r
    using that doc' by (cases r) (auto simp: parallel_def)
  then show ?thesis
    using root doc' mergedValue_overlay[of "fmlookup doc []" overlay]
    by (cases "fmlookup doc []") (auto simp: buildJSONPointer_def)
qed

text \<open>C20: A successful shallow merge leaves at the place of every expanded pointer the overlay of the value's
  members over the members that were there (the value itself where there was no object), and every place apart
  from all of them reads as before. The place of a pointer is the one it names, except for the empty
  pointer: merging into the whole document changes its member with the empty key instead.\<close>

theorem mergeShallow_every_match:
  assumes "applyMergeShallow doc rawPath (JObj overlay) = (doc', None)"
    and "expandPaths doc rawPath = Inr pointers"
  shows "(\<forall>ptr \<in> set pointers. resolve (JObj doc') (mergePlace ptr) =
      Some (JObj (case resolve (JObj doc) (mergePlace ptr) of
                    Some (JObj m) \<Rightarrow> fmadd m overlay
                  | _ \<Rightarrow> overlay))) \<and>
    (\<forall>r. (\<forall>ptr \<in> set pointers. r \<parallel> mergePlace ptr) \<longrightarrow> resolve (JObj doc') r = resolve (JObj doc) r)"
  using assms(2)
proof (rule expanded_pointers)
  fix ps
  assume ps: "pointers = map buildJSONPointer ps" "sorted_wrt (\<parallel>) ps" "\<forall>p \<in> set ps. list_all canonicalSeg p"
  have run: "forPointers (\<lambda>t ptr. mergeShallowAtPointer t ptr overlay) doc (map buildJSONPointer ps) = (doc', None)"
    using assms(1,2) ps(1) by (simp add: applyMergeShallow_def)
  show ?thesis
  proof (cases "[] \<in> set ps")
    case True
    with merge_root_only[OF run ps(2)] ps(1) show ?thesis by (simp add: mergePlace_def del: resolve.simps)
  next
    case False
    then have nonempty: "\<forall>p \<in> set ps. list_all canonicalSeg p \<and> p \<noteq> []" using ps(3) by metis
    then have "\<forall>p \<in> set ps. mergePlace (buildJSONPointer p) = p" using mergePlace_build by blast
    then show ?thesis
      using merge_at.forPointers_post[OF run nonempty ps(2)]
        merge_at.forPointers_frame[OF run nonempty] ps(1) mergedValue_overlay
      by auto
  qed
qed

theorem mergeShallow_every_match_witness:
  "let overlay = fmap_of_list [(''id'', JInt 9)] in
   resolve (JObj (fst (applyMergeShallow exampleDoc ''/items/0'' (JObj overlay)))) [''items'', ''0''] =
     Some (JObj (fmadd (fmap_of_list [(''k'', JStr ''x''), (''id'', JInt 1)]) overlay)) \<and>
   resolve (JObj (fst (applyMergeShallow exampleDoc [] (JObj overlay)))) [[]] = Some (JObj overlay)"
proof -
  let ?overlay = "fmap_of_list [(''id'', JInt 9)]"
  have "snd (applyMergeShallow exampleDoc ''/items/0'' (JObj ?overlay)) = None" "snd (applyMergeShallow exampleDoc [] (JObj ?overlay)) = None"
    by code_simp+
  then have run: "applyMergeShallow exampleDoc ''/items/0'' (JObj ?overlay) =
      (fst (applyMergeShallow exampleDoc ''/items/0'' (JObj ?overlay)), None)"
    "applyMergeShallow exampleDoc [] (JObj ?overlay) = (fst (applyMergeShallow exampleDoc [] (JObj ?overlay)), None)"
    by (metis prod.collapse)+
  have ptrs: "expandPaths exampleDoc ''/items/0'' = Inr [''/items/0'']" "expandPaths exampleDoc [] = Inr [[]]" by code_simp+
  have "mergePlace ''/items/0'' = [''items'', ''0'']" "mergePlace [] = [[]]" by code_simp+
  moreover have "resolve (JObj exampleDoc) [''items'', ''0''] =
      Some (JObj (fmap_of_list [(''k'', JStr ''x''), (''id'', JInt 1)]))" "resolve (JObj exampleDoc) [[]] = None" by code_simp+
  ultimately show ?thesis
    using mergeShallow_every_match[OF run(1) ptrs(1)] mergeShallow_every_match[OF run(2) ptrs(2)]
    by (simp add: Let_def del: resolve.simps)
qed

lemma remove_element:
  assumes "fmlookup doc key = Some a" and "toAnySlice a = Some arr" and "key \<noteq> []" and "i \<le> 65536"
  shows "applyAtPointer ''remove'' v doc (buildJSONPointer [key, itoaNat i]) =
    (if i < length arr then (fmupd key (JArr (take i arr @ drop (Suc i) arr)) doc, None)
     else (fmupd key (JArr arr) doc, Some (RemoveOutOfBounds (int i) (length arr))))"
proof -
  have index: "atoi (itoaNat i) = Some (int i)" using assms(4) by (intro atoi_itoaNat) (simp add: maxInt64_def)
  then have "itoaNat i \<noteq> ''-''" by auto
  with index assms(1-3) show ?thesis
    by (simp add: applyAtPointer_def applyJSONPatch_def splitPointer_build isArrayIndex_def patchContainer_def removeValue_def
        asObj_def Let_def)
qed

text \<open>C32: A filter that selects two elements of an array does not remove these two: the pointers are removed in
  ascending order, and the first removal moves the later elements down. If the elements \<open>i < j\<close> match and no other
  does, the operation removes \<open>i\<close> and \<open>j + 1\<close>, keeps the matching \<open>j\<close> and reports success; if \<open>j\<close> is the
  last element, it removes \<open>i\<close> only and fails with an index out of bounds.\<close>

theorem remove_every_match_shifts:
  assumes "plainSeg key" and "CHR '']'' \<notin> set expr" and "CHR ''/'' \<notin> set (key @ expr)"
    and "CHR ''~'' \<notin> set (key @ expr)" and "filterExprMatch (trimSpace expr) \<noteq> None"
    and "fmlookup doc key = Some a" and "toAnySlice a = Some arr" and "length arr \<le> 65536"
    and "filter (\<lambda>k. matchesFilter (arr ! k) expr = Inr True) [0..<length arr] = [i, j]"
  shows "applyRFC6902 doc ''remove'' (''/'' @ key @ ''[?('' @ expr @ '')]'') v =
    (if j + 1 < length arr
     then (fmupd key (JArr (take i arr @ take (j - i) (drop (i + 1) arr) @ drop (j + 2) arr)) doc, None)
     else (fmupd key (JArr (take i arr @ drop (i + 1) arr)) doc, Some (RemoveOutOfBounds (int j) (length arr - 1))))"
proof -
  have "sorted_wrt (<) (filter (\<lambda>k. matchesFilter (arr ! k) expr = Inr True) [0..<length arr])"
    by (rule sorted_wrt_filter) simp
  then have ij: "i < j" unfolding assms(9) by simp
  have "j \<in> set (filter (\<lambda>k. matchesFilter (arr ! k) expr = Inr True) [0..<length arr])" unfolding assms(9) by simp
  then have j: "j < length arr" by simp
  have key: "key \<noteq> []" using assms(1) by (simp add: plainSeg_def keySeg_def)
  let ?arr = "take i arr @ drop (Suc i) arr" and ?doc = "fmupd key (JArr (take i arr @ drop (Suc i) arr)) doc"
  have "applyRFC6902 doc ''remove'' (''/'' @ key @ ''[?('' @ expr @ '')]'') v =
      forPointers (applyAtPointer ''remove'' v) doc [buildJSONPointer [key, itoaNat i], buildJSONPointer [key, itoaNat j]]"
    using expandPaths_filter[OF assms(1-8)] unfolding assms(9) by (simp add: applyRFC6902_def)
  also have "\<dots> = (case applyAtPointer ''remove'' v ?doc (buildJSONPointer [key, itoaNat j]) of
      (t, Some err) \<Rightarrow> (t, Some err) | (t, None) \<Rightarrow> (t, None))"
    using remove_element[OF assms(6,7) key, of i] assms(8) ij j by simp
  also have "\<dots> = applyAtPointer ''remove'' v ?doc (buildJSONPointer [key, itoaNat j])"
    by (auto split: prod.splits option.splits)
  also have "\<dots> = (if j < length ?arr then (fmupd key (JArr (take j ?arr @ drop (Suc j) ?arr)) ?doc, None)
      else (fmupd key (JArr ?arr) ?doc, Some (RemoveOutOfBounds (int j) (length ?arr))))"
    using remove_element[of ?doc key "JArr ?arr" ?arr j] key assms(8) j by simp
  finally show ?thesis
    using ij j by (auto simp: min_def)
qed

theorem remove_every_match_shifts_witness:
  "applyRFC6902 exampleDoc ''remove'' (''/'' @ ''items'' @ ''[?('' @ filterX @ '')]'') JNil =
     (fmap_of_list [(''items'', JArr [JObj (fmap_of_list [(''k'', JStr ''x''), (''id'', JInt 2)])])], None)"
proof -
  let ?arr = "[JObj (fmap_of_list [(''k'', JStr ''x''), (''id'', JInt 1)]),
    JObj (fmap_of_list [(''k'', JStr ''x''), (''id'', JInt 2)]), JObj (fmap_of_list [(''k'', JStr ''y''), (''id'', JInt 3)])]"
  have "plainSeg ''items''" "CHR '']'' \<notin> set filterX" "CHR ''/'' \<notin> set (''items'' @ filterX)"
    "CHR ''~'' \<notin> set (''items'' @ filterX)" "filterExprMatch (trimSpace filterX) \<noteq> None"
    "fmlookup exampleDoc ''items'' = Some (JArr ?arr)" "toAnySlice (JArr ?arr) = Some ?arr" "length ?arr \<le> 65536"
    "filter (\<lambda>k. matchesFilter (?arr ! k) filterX = Inr True) [0..<length ?arr] = [0, 1]"
    by code_simp+
  note remove_every_match_shifts[OF this, of JNil]
  then show ?thesis by (simp add: exampleDoc_def)
qed

subsection \<open>Lists of operations\<close>

text \<open>C30: A list of operations that fails reports the position and the cause of its first failing operation: all earlier ones succeeded, and the
  document left behind is the one that operation left.\<close>

theorem ApplyPatches_sequence:
  "ApplyPatches doc ops = (doc', Some err) \<Longrightarrow>
   \<exists>n cause mid. n < length ops \<and> err = OperationFailed n cause \<and>
     ApplyPatches doc (take n ops) = (mid, None) \<and> applyOperation mid (ops ! n) = (doc', Some cause)"
  using applyPatchesFrom_error[of 0 doc ops doc' err] by (simp add: ApplyPatches_def)

theorem ApplyPatches_sequence_witness:
  "\<exists>n cause mid. n < 2 \<and> OperationFailed 1 (ReplaceMissingKey ''z'') = OperationFailed n cause \<and>
     ApplyPatches exampleDoc (take n [\<lparr>Op = ''add'', Path = ''/a'', Value = JInt 1\<rparr>,
       \<lparr>Op = ''replace'', Path = ''/z'', Value = JInt 1\<rparr>]) = (mid, None)"
proof -
  let ?ops = "[\<lparr>Op = ''add'', Path = ''/a'', Value = JInt 1\<rparr>,
    \<lparr>Op = ''replace'', Path = ''/z'', Value = JInt 1\<rparr>]"
  have "ApplyPatches exampleDoc ?ops =
      (fmupd ''a'' (JInt 1) exampleDoc, Some (OperationFailed 1 (ReplaceMissingKey ''z'')))"
    by code_simp
  from ApplyPatches_sequence[OF this] show ?thesis
    by (auto simp: numeral_2_eq_2)
qed

end
