(* ===== verification/Authz_Actions.thy ===== *)
theory Authz_Actions
  imports Go_Prelude
begin

text \<open>
  The actions of the authorization system and the attributes their conditions may use:
  \<^verbatim>\<open>src/internal/authz/core/actions.go\<close> and \<^verbatim>\<open>src/internal/authz/core/condition_registry.go\<close>,
  and the action patterns of role bindings (\<open>actionMatch\<close>, \<open>expandActionWildcard\<close> and their
  index in \<^verbatim>\<open>src/internal/authz/casbin/helpers.go\<close>).

  Enforcement decides a request with \<open>actionMatch\<close>, the subject profile lists what
  \<open>expandActionWildcard\<close> returns and admission checks conditions against
  \<open>IntersectConditionsForActions\<close>; the lemmas show that on the system's actions the three agree.
\<close>

subsection \<open>Actions and attributes\<close>

datatype ActionScope = ScopeCluster | ScopeNamespace | ScopeProject | ScopeComponent | ScopeResource

datatype celType = StringType | BoolType | IntType | DoubleType | OtherType

record AttributeSpec =
  specKey :: string
  specCELType :: celType

record Action =
  actName :: string
  actLowestScope :: ActionScope
  actIsInternal :: bool
  actConditions :: "AttributeSpec list"

text \<open>\<open>strings.Cut(s.Key, '.')\<close> before and after the first dot.\<close>

definition Root :: "AttributeSpec \<Rightarrow> string" where
  "Root s = takeWhile (\<lambda>c. c \<noteq> CHR ''.'') (specKey s)"

definition Leaf :: "AttributeSpec \<Rightarrow> string" where
  "Leaf s = tl (dropWhile (\<lambda>c. c \<noteq> CHR ''.'') (specKey s))"

definition AttrResourceEnvironment :: AttributeSpec where
  "AttrResourceEnvironment = \<lparr>specKey = ''resource.environment'', specCELType = StringType\<rparr>"

definition AttrResourceComponentType :: AttributeSpec where
  "AttrResourceComponentType = \<lparr>specKey = ''resource.componentType'', specCELType = StringType\<rparr>"

definition AttrResourceResourceType :: AttributeSpec where
  "AttrResourceResourceType = \<lparr>specKey = ''resource.resourceType'', specCELType = StringType\<rparr>"

definition AttrResourceWorkflow :: AttributeSpec where
  "AttrResourceWorkflow = \<lparr>specKey = ''resource.workflow'', specCELType = StringType\<rparr>"

definition publicAction :: "string \<Rightarrow> ActionScope \<Rightarrow> Action" where
  "publicAction n scope = \<lparr>actName = n, actLowestScope = scope, actIsInternal = False, actConditions = []\<rparr>"

text \<open>The table \<open>systemActions\<close>, in two parts.\<close>

definition systemActions1 :: "Action list" where
  "systemActions1 =
    [publicAction ''namespace:create'' ScopeCluster,
     publicAction ''namespace:view'' ScopeNamespace,
     publicAction ''namespace:update'' ScopeNamespace,
     publicAction ''namespace:delete'' ScopeNamespace,
     publicAction ''project:create'' ScopeNamespace, publicAction ''project:view'' ScopeProject,
     publicAction ''project:update'' ScopeProject, publicAction ''project:delete'' ScopeProject,
     publicAction ''component:create'' ScopeProject,
     publicAction ''component:view'' ScopeComponent,
     publicAction ''component:update'' ScopeComponent,
     publicAction ''component:delete'' ScopeComponent,
     publicAction ''component:exec'' ScopeComponent,
     publicAction ''component:connect'' ScopeComponent,
     publicAction ''resource:create'' ScopeProject, publicAction ''resource:view'' ScopeResource,
     publicAction ''resource:update'' ScopeResource,
     publicAction ''resource:delete'' ScopeResource,
     publicAction ''resource:connect'' ScopeResource,
     publicAction ''resource:read-secrets'' ScopeResource,
     publicAction ''componentrelease:view'' ScopeComponent,
     publicAction ''componentrelease:create'' ScopeComponent,
     publicAction ''componentrelease:delete'' ScopeComponent,
     publicAction ''resourcerelease:view'' ScopeResource,
     publicAction ''resourcerelease:create'' ScopeResource,
     publicAction ''resourcerelease:delete'' ScopeResource,
     publicAction ''projectrelease:view'' ScopeProject,
     publicAction ''projectrelease:create'' ScopeProject,
     publicAction ''projectrelease:delete'' ScopeProject,
     publicAction ''projectreleasebinding:view'' ScopeProject,
     publicAction ''projectreleasebinding:create'' ScopeProject,
     publicAction ''projectreleasebinding:update'' ScopeProject,
     publicAction ''projectreleasebinding:delete'' ScopeProject,
     publicAction ''releasebinding:view'' ScopeComponent,
     publicAction ''releasebinding:create'' ScopeComponent,
     publicAction ''releasebinding:update'' ScopeComponent,
     publicAction ''releasebinding:delete'' ScopeComponent,
     publicAction ''resourcereleasebinding:view'' ScopeResource,
     publicAction ''resourcereleasebinding:create'' ScopeResource,
     publicAction ''resourcereleasebinding:update'' ScopeResource,
     publicAction ''resourcereleasebinding:delete'' ScopeResource,
     publicAction ''componenttype:view'' ScopeNamespace,
     publicAction ''componenttype:create'' ScopeNamespace,
     publicAction ''componenttype:update'' ScopeNamespace,
     publicAction ''componenttype:delete'' ScopeNamespace,
     publicAction ''resourcetype:view'' ScopeNamespace,
     publicAction ''resourcetype:create'' ScopeNamespace,
     publicAction ''resourcetype:update'' ScopeNamespace,
     publicAction ''resourcetype:delete'' ScopeNamespace,
     publicAction ''projecttype:view'' ScopeNamespace,
     publicAction ''projecttype:create'' ScopeNamespace,
     publicAction ''projecttype:update'' ScopeNamespace,
     publicAction ''projecttype:delete'' ScopeNamespace,
     publicAction ''workflow:view'' ScopeNamespace,
     publicAction ''workflow:create'' ScopeNamespace,
     publicAction ''workflow:update'' ScopeNamespace,
     publicAction ''workflow:delete'' ScopeNamespace,
     publicAction ''workflowrun:create'' ScopeComponent,
     publicAction ''workflowrun:view'' ScopeComponent,
     publicAction ''workflowrun:update'' ScopeComponent,
     publicAction ''workflowrun:delete'' ScopeComponent,
     publicAction ''trait:view'' ScopeNamespace, publicAction ''trait:create'' ScopeNamespace,
     publicAction ''trait:update'' ScopeNamespace, publicAction ''trait:delete'' ScopeNamespace,
     publicAction ''environment:view'' ScopeNamespace,
     publicAction ''environment:create'' ScopeNamespace,
     publicAction ''environment:update'' ScopeNamespace,
     publicAction ''environment:delete'' ScopeNamespace,
     publicAction ''dataplane:view'' ScopeNamespace,
     publicAction ''dataplane:create'' ScopeNamespace,
     publicAction ''dataplane:update'' ScopeNamespace,
     publicAction ''dataplane:delete'' ScopeNamespace,
     publicAction ''workflowplane:view'' ScopeNamespace,
     publicAction ''workflowplane:create'' ScopeNamespace,
     publicAction ''workflowplane:update'' ScopeNamespace,
     publicAction ''workflowplane:delete'' ScopeNamespace,
     publicAction ''observabilityplane:view'' ScopeNamespace,
     publicAction ''observabilityplane:create'' ScopeNamespace,
     publicAction ''observabilityplane:update'' ScopeNamespace,
     publicAction ''observabilityplane:delete'' ScopeNamespace,
     publicAction ''clustercomponenttype:view'' ScopeCluster,
     publicAction ''clustercomponenttype:create'' ScopeCluster,
     publicAction ''clustercomponenttype:update'' ScopeCluster,
     publicAction ''clustercomponenttype:delete'' ScopeCluster,
     publicAction ''clusterresourcetype:view'' ScopeCluster,
     publicAction ''clusterresourcetype:create'' ScopeCluster,
     publicAction ''clusterresourcetype:update'' ScopeCluster,
     publicAction ''clusterresourcetype:delete'' ScopeCluster,
     publicAction ''clusterprojecttype:view'' ScopeCluster,
     publicAction ''clusterprojecttype:create'' ScopeCluster,
     publicAction ''clusterprojecttype:update'' ScopeCluster,
     publicAction ''clusterprojecttype:delete'' ScopeCluster,
     publicAction ''clustertrait:view'' ScopeCluster,
     publicAction ''clustertrait:create'' ScopeCluster,
     publicAction ''clustertrait:update'' ScopeCluster,
     publicAction ''clustertrait:delete'' ScopeCluster]"

definition systemActions2 :: "Action list" where
  "systemActions2 =
    [publicAction ''clusterworkflow:view'' ScopeCluster,
     publicAction ''clusterworkflow:create'' ScopeCluster,
     publicAction ''clusterworkflow:update'' ScopeCluster,
     publicAction ''clusterworkflow:delete'' ScopeCluster,
     publicAction ''clusterdataplane:view'' ScopeCluster,
     publicAction ''clusterdataplane:create'' ScopeCluster,
     publicAction ''clusterdataplane:update'' ScopeCluster,
     publicAction ''clusterdataplane:delete'' ScopeCluster,
     publicAction ''clusterworkflowplane:view'' ScopeCluster,
     publicAction ''clusterworkflowplane:create'' ScopeCluster,
     publicAction ''clusterworkflowplane:update'' ScopeCluster,
     publicAction ''clusterworkflowplane:delete'' ScopeCluster,
     publicAction ''clusterobservabilityplane:view'' ScopeCluster,
     publicAction ''clusterobservabilityplane:create'' ScopeCluster,
     publicAction ''clusterobservabilityplane:update'' ScopeCluster,
     publicAction ''clusterobservabilityplane:delete'' ScopeCluster,
     publicAction ''deploymentpipeline:view'' ScopeNamespace,
     publicAction ''deploymentpipeline:create'' ScopeNamespace,
     publicAction ''deploymentpipeline:update'' ScopeNamespace,
     publicAction ''deploymentpipeline:delete'' ScopeNamespace,
     publicAction ''observabilityalertsnotificationchannel:view'' ScopeNamespace,
     publicAction ''observabilityalertsnotificationchannel:create'' ScopeNamespace,
     publicAction ''observabilityalertsnotificationchannel:update'' ScopeNamespace,
     publicAction ''observabilityalertsnotificationchannel:delete'' ScopeNamespace,
     publicAction ''secretreference:view'' ScopeNamespace,
     publicAction ''secretreference:create'' ScopeNamespace,
     publicAction ''secretreference:update'' ScopeNamespace,
     publicAction ''secretreference:delete'' ScopeNamespace,
     publicAction ''secret:view'' ScopeNamespace, publicAction ''secret:create'' ScopeNamespace,
     publicAction ''secret:update'' ScopeNamespace,
     publicAction ''secret:delete'' ScopeNamespace,
     publicAction ''workload:view'' ScopeComponent,
     publicAction ''workload:create'' ScopeComponent,
     publicAction ''workload:update'' ScopeComponent,
     publicAction ''workload:delete'' ScopeComponent,
     publicAction ''clusterauthzrole:view'' ScopeCluster,
     publicAction ''clusterauthzrole:create'' ScopeCluster,
     publicAction ''clusterauthzrole:update'' ScopeCluster,
     publicAction ''clusterauthzrole:delete'' ScopeCluster,
     publicAction ''authzrole:view'' ScopeNamespace,
     publicAction ''authzrole:create'' ScopeNamespace,
     publicAction ''authzrole:update'' ScopeNamespace,
     publicAction ''authzrole:delete'' ScopeNamespace,
     publicAction ''clusterauthzrolebinding:view'' ScopeCluster,
     publicAction ''clusterauthzrolebinding:create'' ScopeCluster,
     publicAction ''clusterauthzrolebinding:update'' ScopeCluster,
     publicAction ''clusterauthzrolebinding:delete'' ScopeCluster,
     publicAction ''authzrolebinding:view'' ScopeNamespace,
     publicAction ''authzrolebinding:create'' ScopeNamespace,
     publicAction ''authzrolebinding:update'' ScopeNamespace,
     publicAction ''authzrolebinding:delete'' ScopeNamespace,
     publicAction ''logs:view'' ScopeComponent, publicAction ''events:view'' ScopeComponent,
     publicAction ''wirelogs:view'' ScopeComponent, publicAction ''metrics:view'' ScopeComponent,
     publicAction ''traces:view'' ScopeProject, publicAction ''alerts:view'' ScopeComponent,
     publicAction ''incidents:view'' ScopeComponent,
     publicAction ''incidents:update'' ScopeComponent,
     publicAction ''rcareport:view'' ScopeProject,
     publicAction ''rcareport:update'' ScopeProject,
     publicAction ''finopsreport:view'' ScopeProject,
     publicAction ''finopsreport:update'' ScopeProject,
     publicAction ''finops:view'' ScopeComponent,
     publicAction ''deliveryinsights:view'' ScopeComponent,
     publicAction ''platformlogs:view'' ScopeCluster,
     publicAction ''auditlogs:view'' ScopeCluster]"

definition systemActions :: "Action list" where
  "systemActions = systemActions1 @ systemActions2"

definition conditionRegistry :: "(string \<times> AttributeSpec list) list" where
  "conditionRegistry =
    [(''component:create'', [AttrResourceComponentType]),
     (''component:update'', [AttrResourceComponentType]),
     (''component:delete'', [AttrResourceComponentType]),
     (''resource:create'', [AttrResourceResourceType]),
     (''resource:update'', [AttrResourceResourceType]),
     (''resource:delete'', [AttrResourceResourceType]),
     (''workflowrun:create'', [AttrResourceWorkflow]),
     (''workflowrun:update'', [AttrResourceWorkflow]),
     (''workflowrun:delete'', [AttrResourceWorkflow]),
     (''releasebinding:create'', [AttrResourceEnvironment]),
     (''releasebinding:view'', [AttrResourceEnvironment]),
     (''releasebinding:update'', [AttrResourceEnvironment]),
     (''releasebinding:delete'', [AttrResourceEnvironment]),
     (''resourcereleasebinding:create'', [AttrResourceEnvironment]),
     (''resourcereleasebinding:view'', [AttrResourceEnvironment]),
     (''resourcereleasebinding:update'', [AttrResourceEnvironment]),
     (''resourcereleasebinding:delete'', [AttrResourceEnvironment]),
     (''projectreleasebinding:create'', [AttrResourceEnvironment]),
     (''projectreleasebinding:view'', [AttrResourceEnvironment]),
     (''projectreleasebinding:update'', [AttrResourceEnvironment]),
     (''projectreleasebinding:delete'', [AttrResourceEnvironment]),
     (''component:exec'', [AttrResourceEnvironment]),
     (''component:connect'', [AttrResourceEnvironment]),
     (''resource:connect'', [AttrResourceEnvironment]),
     (''resource:read-secrets'', [AttrResourceEnvironment]),
     (''logs:view'', [AttrResourceEnvironment]), (''wirelogs:view'', [AttrResourceEnvironment]),
     (''metrics:view'', [AttrResourceEnvironment]), (''traces:view'', [AttrResourceEnvironment])]"

definition LookupConditions :: "string \<Rightarrow> AttributeSpec list" where
  "LookupConditions action =
     (case map_of conditionRegistry action of None \<Rightarrow> [] | Some specs \<Rightarrow> specs)"

definition AllActions :: "Action list" where
  "AllActions = systemActions"

definition PublicActions :: "Action list" where
  "PublicActions = sort_key actName
     (map (\<lambda>a. a\<lparr>actConditions := LookupConditions (actName a)\<rparr>)
        (filter (\<lambda>a. \<not> actIsInternal a) systemActions))"

definition concretePublicActions :: "Action list" where
  "concretePublicActions =
     sort_key actName (filter (\<lambda>a. \<not> (actIsInternal a \<or> CHR ''*'' \<in> set (actName a))) systemActions)"

definition ConcretePublicActions :: "Action list" where
  "ConcretePublicActions =
     map (\<lambda>a. a\<lparr>actConditions := LookupConditions (actName a)\<rparr>) concretePublicActions"

definition ExpandActionPattern :: "string \<Rightarrow> string list" where
  "ExpandActionPattern pattern =
     (if pattern = [] then []
      else if pattern = ''*'' then map actName concretePublicActions
      else if hasSuffix pattern '':*''
      then filter (\<lambda>n. hasPrefix n (butlast pattern)) (map actName concretePublicActions)
      else if pattern \<in> actName ` set concretePublicActions then [pattern]
      else [])"

subsection \<open>Attributes common to a list of patterns\<close>

text \<open>
  The counting the code does twice: over the actions a pattern expands to, and over the patterns. A
  key counts once for every item that offers it and has to reach the number of items. The result
  of the code is in the order of a Go map, which is unspecified; here it is the order of first
  occurrence.
\<close>

definition commonSpecs :: "('a \<Rightarrow> AttributeSpec list) \<Rightarrow> 'a list \<Rightarrow> AttributeSpec list" where
  "commonSpecs offers items =
     (let specs = concat (map offers items);
          count = (\<lambda>key. length (filter (\<lambda>s. specKey s = key) specs))
      in map (\<lambda>key. last (filter (\<lambda>s. specKey s = key) specs))
           (filter (\<lambda>key. count key = length items) (remdups (map specKey specs))))"

definition IntersectConditionsForActions :: "string list \<Rightarrow> AttributeSpec list" where
  "IntersectConditionsForActions actions =
     (if actions = [] then []
      else if \<exists>p \<in> set actions. ExpandActionPattern p = [] then []
      else commonSpecs (\<lambda>p. commonSpecs LookupConditions (ExpandActionPattern p)) actions)"

subsection \<open>Action patterns of roles (casbin/helpers.go)\<close>

definition actionMatch :: "string \<Rightarrow> string \<Rightarrow> bool" where
  "actionMatch requestAction roleAction =
     (if roleAction = ''*'' then True
      else if roleAction = requestAction then True
      else if hasSuffix roleAction '':*'' then
        (let prefixLen = length roleAction - 1
         in length requestAction > prefixLen \<and>
            take prefixLen requestAction = take prefixLen roleAction)
      else False)"

definition roleActionMatchWrapper :: "string \<Rightarrow> string \<Rightarrow> bool" where
  "roleActionMatchWrapper requestValue storedRuleValue =
     (if CHR '':'' \<in> set storedRuleValue \<or> storedRuleValue = ''*''
      then actionMatch requestValue storedRuleValue
      else requestValue = storedRuleValue)"

text \<open>\<open>strings.LastIndex\<close> of the colon, cut there when it is not the first byte.\<close>

definition extractActionResourceType :: "string \<Rightarrow> string" where
  "extractActionResourceType action =
     (let before = rev (tl (dropWhile (\<lambda>c. c \<noteq> CHR '':'') (rev action)))
      in if CHR '':'' \<in> set action \<and> before \<noteq> [] then before else action)"

record actionIndex =
  ByResourceType :: "(string, string list) fmap"
  actionsStringList :: "string list"

definition indexAction :: "actionIndex \<Rightarrow> string \<Rightarrow> actionIndex" where
  "indexAction index n =
     (let resourceType = extractActionResourceType n;
          old = (case fmlookup (ByResourceType index) resourceType of None \<Rightarrow> [] | Some ns \<Rightarrow> ns)
      in \<lparr>ByResourceType = fmupd resourceType (old @ [n]) (ByResourceType index),
          actionsStringList = actionsStringList index @ [n]\<rparr>)"

definition indexActions :: "Action list \<Rightarrow> actionIndex" where
  "indexActions allActions =
     foldl indexAction \<lparr>ByResourceType = fmempty, actionsStringList = []\<rparr> (map actName allActions)"

definition expandActionWildcard :: "string \<Rightarrow> actionIndex \<Rightarrow> string list" where
  "expandActionWildcard actionPattern index =
     (if actionPattern = ''*'' then actionsStringList index
      else if hasSuffix actionPattern '':*'' then
        (case fmlookup (ByResourceType index) (take (length actionPattern - 2) actionPattern) of
           Some actions \<Rightarrow> actions
         | None \<Rightarrow> [])
      else [actionPattern])"

end
