(* ===== verification/Authz_Match.thy ===== *)
theory Authz_Match
  imports Authz_Actions Json_Value
begin

text \<open>
  Matching of resources, subjects and conditions: \<^verbatim>\<open>src/internal/authz/casbin/helpers.go\<close> and the
  request types of \<^verbatim>\<open>src/internal/authz/core/types.go\<close>.

  Two things the code calls are parameters. \<open>encoding/json\<close> appears as a \<open>codec\<close>, the four functions
  that encode and decode contexts and conditions; the CEL library appears as the argument
  \<open>compileCEL\<close>, which yields no program for an expression that does not compile and otherwise a
  program that returns a value or an error for an activation.
\<close>

named_theorems authz_simps \<open>unfolding rules of the authorization functions\<close>

subsection \<open>Types of the requests (core/types.go)\<close>

definition PolicyEffectAllow :: string where "PolicyEffectAllow = ''allow''"
definition PolicyEffectDeny :: string where "PolicyEffectDeny = ''deny''"

record SubjectContext =
  subjType :: string
  EntitlementClaim :: string
  EntitlementValues :: "string list"

record ResourceHierarchy =
  hNamespace :: string
  hProject :: string
  hComponent :: string
  hResource :: string

record Resource =
  resType :: string
  resID :: string
  resHierarchy :: ResourceHierarchy

record ResourceAttribute =
  attrEnvironment :: string
  attrComponentType :: string
  attrResourceType :: string
  attrWorkflow :: string

record Context =
  ctxResource :: ResourceAttribute

record EvaluateRequest =
  reqSubjectContext :: "SubjectContext option"
  reqResource :: Resource
  reqAction :: string
  reqContext :: Context

record AuthzCondition =
  condActions :: "string list"
  condExpression :: string

record codec =
  marshalContext :: "Context \<Rightarrow> string"
  unmarshalContext :: "string \<Rightarrow> Context option"
  marshalConditions :: "AuthzCondition list \<Rightarrow> string"
  unmarshalConditions :: "string \<Rightarrow> AuthzCondition list option"

datatype authzError =
    InvalidRequest string
  | InvalidRequestAt string nat
  | EmptyClaimOrValue
  | InvalidSubjectFormat string
  | ConditionsCorrupt string
  | EnforcementFailed string
  | BatchFailedAt nat authzError
  | ContextCancelled
  | NilPointer

subsection \<open>Serialised conditions\<close>

definition emptyContextJSON :: string where "emptyContextJSON = ''{}''"

definition failClosed :: "string \<Rightarrow> bool" where
  "failClosed policyEft \<longleftrightarrow> policyEft \<noteq> PolicyEffectAllow"

definition isPolicyConditionEmpty :: "string \<Rightarrow> bool" where
  "isPolicyConditionEmpty policyCond \<longleftrightarrow> policyCond = [] \<or> policyCond = emptyContextJSON"

definition serializeAuthzContext :: "codec \<Rightarrow> Context \<Rightarrow> string" where
  "serializeAuthzContext J ctx = marshalContext J ctx"

definition decodeConditions :: "codec \<Rightarrow> string \<Rightarrow> (authzError, AuthzCondition list) result" where
  "decodeConditions J raw =
     (if isPolicyConditionEmpty raw then Inr []
      else (case unmarshalConditions J raw of
              None \<Rightarrow> Inl (ConditionsCorrupt raw)
            | Some conds \<Rightarrow> Inr conds))"

definition serializeAuthzConditions :: "codec \<Rightarrow> AuthzCondition list \<Rightarrow> string" where
  "serializeAuthzConditions J conds = (if conds = [] then emptyContextJSON else marshalConditions J conds)"

subsection \<open>Resources\<close>

definition resourceMatch :: "string \<Rightarrow> string \<Rightarrow> bool" where
  "resourceMatch requestResource policyResource =
     (if policyResource = ''*'' then True
      else if requestResource = policyResource then True
      else hasPrefix requestResource (policyResource @ ''/''))"

definition isWithinScope :: "string \<Rightarrow> string \<Rightarrow> bool" where
  "isWithinScope policyResource scopePath =
     (if policyResource = ''*'' \<or> scopePath = ''*'' then True
      else if policyResource = scopePath then True
      else if hasPrefix scopePath (policyResource @ ''/'') then True
      else hasPrefix policyResource (scopePath @ ''/''))"

text \<open>\<open>strings.Trim(path, '/')\<close>.\<close>

definition trimSlashes :: "string \<Rightarrow> string" where
  "trimSlashes s = rev (dropWhile (\<lambda>c. c = CHR ''/'') (rev (dropWhile (\<lambda>c. c = CHR ''/'') s)))"

definition resourceHierarchyToPath :: "ResourceHierarchy \<Rightarrow> string" where
  "resourceHierarchyToPath h =
     (if hNamespace h = [] \<and> hProject h = [] \<and> hComponent h = [] \<and> hResource h = [] then ''*''
      else let p1 = (if hNamespace h \<noteq> [] then ''ns/'' @ hNamespace h else []);
               p2 = (if hProject h \<noteq> [] then p1 @ ''/project/'' @ hProject h else p1);
               p3 = (if hComponent h \<noteq> [] then p2 @ ''/component/'' @ hComponent h
                     else if hResource h \<noteq> [] then p2 @ ''/resource/'' @ hResource h
                     else p2)
           in trimSlashes p3)"

fun setHierarchy :: "ResourceHierarchy \<Rightarrow> string list \<Rightarrow> ResourceHierarchy" where
  "setHierarchy h (pre # value # segments) =
     setHierarchy
       (if pre = ''ns'' then h\<lparr>hNamespace := value\<rparr>
        else if pre = ''project'' then h\<lparr>hProject := value\<rparr>
        else if pre = ''component'' then h\<lparr>hComponent := value\<rparr>
        else if pre = ''resource'' then h\<lparr>hResource := value\<rparr>
        else h) segments"
| "setHierarchy h segments = h"

definition emptyHierarchy :: ResourceHierarchy where
  "emptyHierarchy = \<lparr>hNamespace = [], hProject = [], hComponent = [], hResource = []\<rparr>"

definition resourcePathToHierarchy :: "string \<Rightarrow> ResourceHierarchy" where
  "resourcePathToHierarchy resourcePath =
     (if resourcePath = ''*'' \<or> resourcePath = [] then emptyHierarchy
      else setHierarchy emptyHierarchy (splitOn (CHR ''/'') resourcePath))"

subsection \<open>Subjects and namespaces\<close>

definition formatSubject :: "string \<Rightarrow> string \<Rightarrow> (authzError, string) result" where
  "formatSubject claim value =
     (if claim = [] \<or> value = [] then Inl EmptyClaimOrValue else Inr (claim @ '':'' @ value))"

definition parseSubject :: "string \<Rightarrow> (authzError, string \<times> string) result" where
  "parseSubject subject =
     (case splitN2 (CHR '':'') subject of
        [claim, value] \<Rightarrow> Inr (claim, value)
      | _ \<Rightarrow> Inl (InvalidSubjectFormat subject))"

definition normalizeNamespace :: "string \<Rightarrow> string" where
  "normalizeNamespace ns = (if ns = [] then ''*'' else ns)"

subsection \<open>Validation\<close>

definition validateEvaluateRequest :: "EvaluateRequest option \<Rightarrow> authzError option" where
  "validateEvaluateRequest req =
     (case req of
        None \<Rightarrow> Some (InvalidRequest ''evaluate request is nil'')
      | Some r \<Rightarrow>
          if reqSubjectContext r = None then Some (InvalidRequest ''subject context is required'')
          else if resType (reqResource r) = [] then Some (InvalidRequest ''resource type is required'')
          else if reqAction r = [] then Some (InvalidRequest ''action is required'')
          else None)"

fun validateBatchFrom :: "nat \<Rightarrow> EvaluateRequest list \<Rightarrow> authzError option" where
  "validateBatchFrom i [] = None"
| "validateBatchFrom i (r # rs) =
     (if reqSubjectContext r = None then Some (InvalidRequestAt ''subject context is required'' i)
      else if resType (reqResource r) = [] then Some (InvalidRequestAt ''resource type is required'' i)
      else if reqAction r = [] then Some (InvalidRequestAt ''action is required'' i)
      else validateBatchFrom (i + 1) rs)"

definition validateBatchEvaluateRequest :: "EvaluateRequest list option \<Rightarrow> authzError option" where
  "validateBatchEvaluateRequest req =
     (case req of
        None \<Rightarrow> Some (InvalidRequest ''batch evaluate request is nil'')
      | Some rs \<Rightarrow>
          if rs = [] then Some (InvalidRequest ''batch evaluate request contains no requests'')
          else validateBatchFrom 0 rs)"

subsection \<open>Conditions\<close>

type_synonym activation = "(string, (string, jval) fmap) fmap"

datatype celResult = CelError | CelValue jval

type_synonym celCompiler = "string \<Rightarrow> (activation \<Rightarrow> celResult) option"

datatype evalResult = evalAllow | evalReject | evalError

definition filterConditionsByAction :: "AuthzCondition list \<Rightarrow> string \<Rightarrow> AuthzCondition list" where
  "filterConditionsByAction conds requestAction =
     filter (\<lambda>c. \<exists>pattern \<in> set (condActions c). actionMatch requestAction pattern) conds"

definition evalCondition :: "celCompiler \<Rightarrow> string \<Rightarrow> activation \<Rightarrow> evalResult" where
  "evalCondition compileCEL expr activation =
     (case compileCEL expr of
        None \<Rightarrow> evalError
      | Some prg \<Rightarrow>
          (case prg activation of
             CelError \<Rightarrow> evalError
           | CelValue (JBool b) \<Rightarrow> if b then evalAllow else evalReject
           | CelValue _ \<Rightarrow> evalError))"

fun conditionLoop ::
    "celCompiler \<Rightarrow> activation \<Rightarrow> bool \<Rightarrow> bool \<Rightarrow> AuthzCondition list \<Rightarrow> bool \<times> bool" where
  "conditionLoop compileCEL activation sawMatch sawError [] = (sawMatch, sawError)"
| "conditionLoop compileCEL activation sawMatch sawError (entry # entries) =
     (case evalCondition compileCEL (condExpression entry) activation of
        evalAllow \<Rightarrow> conditionLoop compileCEL activation True sawError entries
      | evalError \<Rightarrow> conditionLoop compileCEL activation sawMatch True entries
      | evalReject \<Rightarrow> conditionLoop compileCEL activation sawMatch sawError entries)"

definition anyConditionMatches :: "celCompiler \<Rightarrow> AuthzCondition list \<Rightarrow> activation \<Rightarrow> string \<Rightarrow> bool" where
  "anyConditionMatches compileCEL entries activation policyEft =
     (let (sawMatch, sawError) = conditionLoop compileCEL activation False False entries
      in if sawError then failClosed policyEft else sawMatch)"

definition zeroForCELType :: "celType \<Rightarrow> jval" where
  "zeroForCELType t =
     (case t of
        StringType \<Rightarrow> JStr []
      | BoolType \<Rightarrow> JBool False
      | IntType \<Rightarrow> JInt 0
      | DoubleType \<Rightarrow> JFloat ''0''
      | OtherType \<Rightarrow> JNil)"

text \<open>
  The JSON round trip of the context: the struct \<open>resource\<close> is always written, and of its fields
  those that are not empty.
\<close>

definition convertCtxToAttrMap :: "Context \<Rightarrow> activation" where
  "convertCtxToAttrMap ctx =
     (let r = ctxResource ctx;
          field = (\<lambda>k v m. if v = [] then m else fmupd k (JStr v) m)
      in fmupd ''resource''
           (field ''environment'' (attrEnvironment r)
             (field ''componentType'' (attrComponentType r)
               (field ''resourceType'' (attrResourceType r)
                 (field ''workflow'' (attrWorkflow r) fmempty)))) fmempty)"

definition attrsOf :: "activation \<Rightarrow> string \<Rightarrow> (string, jval) fmap" where
  "attrsOf a root = (case fmlookup a root of None \<Rightarrow> fmempty | Some leaves \<Rightarrow> leaves)"

definition bindAttr :: "activation \<Rightarrow> activation \<Rightarrow> AttributeSpec \<Rightarrow> activation" where
  "bindAttr ctxAttrs act spec =
     (let root = Root spec; leaf = Leaf spec in
      if root = [] \<or> leaf = [] then act
      else let value = (case fmlookup (attrsOf ctxAttrs root) leaf of
                          None \<Rightarrow> zeroForCELType (specCELType spec)
                        | Some v \<Rightarrow> v)
           in fmupd root (fmupd leaf value (attrsOf act root)) act)"

definition buildCelActivation :: "Context \<Rightarrow> AttributeSpec list \<Rightarrow> activation" where
  "buildCelActivation ctx allowedAttrs =
     (if allowedAttrs = [] then fmempty
      else foldl (bindAttr (convertCtxToAttrMap ctx)) fmempty allowedAttrs)"

definition buildActivationForRequest :: "codec \<Rightarrow> string \<Rightarrow> string \<Rightarrow> activation option" where
  "buildActivationForRequest J requestCtxJSON requestAction =
     (case unmarshalContext J requestCtxJSON of
        None \<Rightarrow> None
      | Some ctx \<Rightarrow> Some (buildCelActivation ctx (LookupConditions requestAction)))"

definition ConditionMatcher ::
    "codec \<Rightarrow> celCompiler \<Rightarrow> string \<Rightarrow> string \<Rightarrow> string \<Rightarrow> string \<Rightarrow> bool" where
  "ConditionMatcher J compileCEL requestCtxJSON requestAction policyCond policyEft =
     (if isPolicyConditionEmpty policyCond then True
      else (case unmarshalConditions J policyCond of
              None \<Rightarrow> failClosed policyEft
            | Some conditions \<Rightarrow>
                let matching = filterConditionsByAction conditions requestAction in
                if matching = [] then True
                else (case buildActivationForRequest J requestCtxJSON requestAction of
                        None \<Rightarrow> failClosed policyEft
                      | Some activation \<Rightarrow> anyConditionMatches compileCEL matching activation policyEft)))"

subsection \<open>Differences of policies and actions\<close>

definition policyKey :: "string list \<Rightarrow> string" where
  "policyKey policy = joinWith [CHR 0x00] policy"

definition policySet :: "string list list \<Rightarrow> (string, string list) fmap" where
  "policySet policies = foldl (\<lambda>m p. fmupd (policyKey p) p m) fmempty policies"

text \<open>The results are in the order of a Go map, which is unspecified; here they are in key order.\<close>

definition computePolicyDiff ::
    "string list list \<Rightarrow> string list list \<Rightarrow> string list list \<times> string list list" where
  "computePolicyDiff oldPolicies newPolicies =
     (let oldSet = policySet oldPolicies;
          newSet = policySet newPolicies
      in (map snd (filter (\<lambda>(key, p). fmlookup oldSet key = None) (sorted_list_of_fmap newSet)),
          map snd (filter (\<lambda>(key, p). fmlookup newSet key = None) (sorted_list_of_fmap oldSet))))"

definition computeActionsDiff :: "string list \<Rightarrow> string list \<Rightarrow> string list \<times> string list" where
  "computeActionsDiff existingActions newActions =
     (filter (\<lambda>a. a \<notin> set existingActions) (remdups newActions),
      filter (\<lambda>a. a \<notin> set newActions) (remdups existingActions))"

end
