(* ===== verification/Authz_Pdp.thy ===== *)
theory Authz_Pdp
  imports Authz_Match "HOL-Library.Product_Lexorder"
begin

text \<open>
  The policy decision point: \<^verbatim>\<open>src/internal/authz/casbin/pdp.go\<close> (Evaluate, BatchEvaluate,
  GetSubjectProfile) and the model \<^verbatim>\<open>src/internal/authz/casbin/rbac_model.conf\<close> it enforces.

  The Casbin enforcer is a parameter of the operations that call it: \<open>enforce\<close> for
  \<open>Enforce(sub, resource, act, ctx)\<close>, and for the profile the two filtered reads. What Casbin
  documents about them for this model is stated by \<open>permEnforce\<close> and \<open>roleLink\<close>, the reading of the
  sections of the model file. A policy is the tuple \<open>sub, resource, role, role_ns, eft, cond,
  binding_name\<close>, a grouping rule the triple \<open>role, action, role_ns\<close>.
\<close>

type_synonym policy = "string list"
type_synonym enforceFn = "string \<Rightarrow> string \<Rightarrow> string \<Rightarrow> string \<Rightarrow> (string, bool) result"

subsection \<open>The model file\<close>

text \<open>\<open>g = _, _, _\<close> with the matching function the enforcer registers for it. A link is one rule long: roles are
  not nested, since what a role is linked to are actions (\<open>roleLink_casbinLink\<close>).\<close>

definition roleLink :: "string list list \<Rightarrow> string \<Rightarrow> string \<Rightarrow> string \<Rightarrow> bool" where
  "roleLink groupings role act ns \<longleftrightarrow>
     (\<exists>rule \<in> set groupings. length rule = 3 \<and> rule ! 0 = role \<and> rule ! 2 = ns \<and>
        roleActionMatchWrapper act (rule ! 1))"

text \<open>The matcher \<open>m\<close>.\<close>

definition policyMatches ::
    "codec \<Rightarrow> celCompiler \<Rightarrow> string list list \<Rightarrow> string \<Rightarrow> string \<Rightarrow> string \<Rightarrow> string \<Rightarrow> policy \<Rightarrow> bool" where
  "policyMatches J C groupings sub resource act ctx p \<longleftrightarrow>
     length p = 7 \<and> sub = p ! 0 \<and> resourceMatch resource (p ! 1) \<and>
     roleLink groupings (p ! 2) act (p ! 3) \<and> ConditionMatcher J C ctx act (p ! 5) (p ! 4)"

text \<open>The policy effect \<open>e\<close>.\<close>

definition permEnforce ::
    "codec \<Rightarrow> celCompiler \<Rightarrow> string list list \<Rightarrow> policy list \<Rightarrow> string \<Rightarrow> string \<Rightarrow> string \<Rightarrow> string \<Rightarrow> bool" where
  "permEnforce J C groupings policies sub resource act ctx \<longleftrightarrow>
     (\<exists>p \<in> set policies. policyMatches J C groupings sub resource act ctx p \<and> p ! 4 = PolicyEffectAllow) \<and>
     \<not> (\<exists>p \<in> set policies. policyMatches J C groupings sub resource act ctx p \<and> p ! 4 = PolicyEffectDeny)"

subsection \<open>Decisions\<close>

record Decision =
  decDecision :: bool
  decReason :: "string option"

definition quoted :: "string \<Rightarrow> string" where
  "quoted s = [CHR 0x27] @ s @ [CHR 0x27]"

definition grantedReason :: "string \<Rightarrow> string \<Rightarrow> string \<Rightarrow> string \<Rightarrow> string" where
  "grantedReason entitlementValue action resourcePath resourceID =
     ''Access granted: entitlement value '' @ quoted entitlementValue @ '' authorized to perform '' @
     quoted action @ '' on hierarchy '' @ quoted resourcePath @
     (if resourceID \<noteq> [] then '' (id: '' @ resourceID @ '')'' else [])"

fun checkLoop ::
    "enforceFn \<Rightarrow> string \<Rightarrow> string \<Rightarrow> string \<Rightarrow> string \<Rightarrow> string \<Rightarrow> string list \<Rightarrow> (authzError, Decision) result" where
  "checkLoop enforce claim resourcePath resourceID action ctxJSON [] =
     Inr \<lparr>decDecision = False, decReason = Some ''no matching policies found''\<rparr>"
| "checkLoop enforce claim resourcePath resourceID action ctxJSON (v # vs) =
     bindR (formatSubject claim v) (\<lambda>entitlement.
       case enforce entitlement resourcePath action ctxJSON of
         Inl err \<Rightarrow> Inl (EnforcementFailed err)
       | Inr True \<Rightarrow> Inr \<lparr>decDecision = True,
                         decReason = Some (grantedReason v action resourcePath resourceID)\<rparr>
       | Inr False \<Rightarrow> checkLoop enforce claim resourcePath resourceID action ctxJSON vs)"

definition check :: "codec \<Rightarrow> enforceFn \<Rightarrow> EvaluateRequest \<Rightarrow> (authzError, Decision) result" where
  "check J enforce request =
     (let resourcePath = resourceHierarchyToPath (resHierarchy (reqResource request)) in
      case reqSubjectContext request of
        None \<Rightarrow> Inl (InvalidRequest ''subject context is required'')
      | Some subjectCtx \<Rightarrow>
          checkLoop enforce (EntitlementClaim subjectCtx) resourcePath (resID (reqResource request))
            (reqAction request) (serializeAuthzContext J (reqContext request))
            (EntitlementValues subjectCtx))"

definition Evaluate :: "codec \<Rightarrow> enforceFn \<Rightarrow> EvaluateRequest option \<Rightarrow> (authzError, Decision) result" where
  "Evaluate J enforce request =
     (case validateEvaluateRequest request of
        Some err \<Rightarrow> Inl err
      | None \<Rightarrow> (case request of None \<Rightarrow> Inl NilPointer | Some r \<Rightarrow> check J enforce r))"

text \<open>\<open>cancelled i\<close>: the context is cancelled when the loop looks at it before request \<open>i\<close>.\<close>

fun batchLoop ::
    "codec \<Rightarrow> enforceFn \<Rightarrow> (nat \<Rightarrow> bool) \<Rightarrow> nat \<Rightarrow> EvaluateRequest list \<Rightarrow> (authzError, Decision list) result" where
  "batchLoop J enforce cancelled i [] = Inr []"
| "batchLoop J enforce cancelled i (req # reqs) =
     (if cancelled i then Inl ContextCancelled
      else (case check J enforce req of
              Inl err \<Rightarrow> Inl (BatchFailedAt i err)
            | Inr d \<Rightarrow> bindR (batchLoop J enforce cancelled (i + 1) reqs) (\<lambda>ds. Inr (d # ds))))"

definition BatchEvaluate ::
    "codec \<Rightarrow> enforceFn \<Rightarrow> (nat \<Rightarrow> bool) \<Rightarrow> EvaluateRequest list option \<Rightarrow> (authzError, Decision list) result" where
  "BatchEvaluate J enforce cancelled request =
     (case validateBatchEvaluateRequest request of
        Some err \<Rightarrow> Inl err
      | None \<Rightarrow> (case request of None \<Rightarrow> Inl NilPointer | Some rs \<Rightarrow> batchLoop J enforce cancelled 0 rs))"

subsection \<open>Subject profiles: the policies of a subject\<close>

record policyInfo =
  piSubject :: string
  piResourcePath :: string
  piRoleName :: string
  piRoleNamespace :: string
  piEffect :: string
  piConditions :: string

definition policyInfoOf :: "policy \<Rightarrow> policyInfo" where
  "policyInfoOf p =
     \<lparr>piSubject = p ! 0, piResourcePath = p ! 1, piRoleName = p ! 2, piRoleNamespace = p ! 3,
      piEffect = p ! 4, piConditions = p ! 5\<rparr>"

definition filterPoliciesBySubjectAndScope ::
    "(string \<Rightarrow> (string, policy list) result) \<Rightarrow> SubjectContext \<Rightarrow> string \<Rightarrow> (authzError, policyInfo list) result" where
  "filterPoliciesBySubjectAndScope getFilteredPolicy subjectCtx scopePath =
     concatMapR (\<lambda>entitlementValue.
       bindR (formatSubject (EntitlementClaim subjectCtx) entitlementValue) (\<lambda>subject.
         case getFilteredPolicy subject of
           Inl err \<Rightarrow> Inl (EnforcementFailed err)
         | Inr policies \<Rightarrow>
             Inr (map policyInfoOf
                   (filter (\<lambda>p. length p = 7 \<and> isWithinScope (p ! 1) scopePath) policies))))
       (EntitlementValues subjectCtx)"

subsection \<open>Subject profiles: accumulating expressions\<close>

text \<open>\<open>resourceKey\<close>: subject, path and effect, ordered as the code sorts them.\<close>

type_synonym resourceKey = "string \<times> string \<times> string"

record capState =
  roleToActions :: "(string \<times> string, string list) fmap"
  actionExpressions :: "(string, (resourceKey, string list) fmap) fmap"
  unconditionalKeys :: "(string, (resourceKey, bool) fmap) fmap"

definition subMap :: "(string, ('k, 'v) fmap) fmap \<Rightarrow> string \<Rightarrow> ('k, 'v) fmap" where
  "subMap m a = (case fmlookup m a of None \<Rightarrow> fmempty | Some n \<Rightarrow> n)"

definition roleActions ::
    "(string \<Rightarrow> string \<Rightarrow> (string, string list list) result) \<Rightarrow> actionIndex \<Rightarrow> string \<Rightarrow> string \<Rightarrow>
     (authzError, string list) result" where
  "roleActions getGrouping actionIdx roleName roleNamespace =
     (case getGrouping roleName roleNamespace of
        Inl err \<Rightarrow> Inl (EnforcementFailed err)
      | Inr rules \<Rightarrow>
          Inr (concat (map (\<lambda>ra. expandActionWildcard (ra ! 1) actionIdx)
                        (filter (\<lambda>ra. length ra = 3) rules))))"

definition addPolicyAction ::
    "AuthzCondition list \<Rightarrow> policyInfo \<Rightarrow> capState \<Rightarrow> string \<Rightarrow> capState" where
  "addPolicyAction allConds p st action =
     (let exprs = subMap (actionExpressions st) action;
          unconditional = subMap (unconditionalKeys st) action;
          key = (piSubject p, piResourcePath p, piEffect p);
          actionConds = filterConditionsByAction allConds action
      in if actionConds \<noteq> [] then
           (if fmlookup unconditional key = Some True
            then st\<lparr>actionExpressions := fmupd action exprs (actionExpressions st),
                    unconditionalKeys := fmupd action unconditional (unconditionalKeys st)\<rparr>
            else let old = (case fmlookup exprs key of None \<Rightarrow> [] | Some es \<Rightarrow> es)
                 in st\<lparr>actionExpressions :=
                         fmupd action (fmupd key (old @ map condExpression actionConds) exprs)
                           (actionExpressions st),
                       unconditionalKeys := fmupd action unconditional (unconditionalKeys st)\<rparr>)
         else st\<lparr>actionExpressions := fmupd action (fmupd key [] exprs) (actionExpressions st),
                 unconditionalKeys := fmupd action (fmupd key True unconditional) (unconditionalKeys st)\<rparr>)"

fun accumulate ::
    "codec \<Rightarrow> (string \<Rightarrow> string \<Rightarrow> (string, string list list) result) \<Rightarrow> actionIndex \<Rightarrow> capState \<Rightarrow>
     policyInfo list \<Rightarrow> (authzError, capState) result" where
  "accumulate J getGrouping actionIdx st [] = Inr st"
| "accumulate J getGrouping actionIdx st (p # policies) =
     bindR (case fmlookup (roleToActions st) (piRoleName p, piRoleNamespace p) of
              Some actions \<Rightarrow> Inr actions
            | None \<Rightarrow> roleActions getGrouping actionIdx (piRoleName p) (piRoleNamespace p)) (\<lambda>actions.
       bindR (decodeConditions J (piConditions p)) (\<lambda>allConds.
         accumulate J getGrouping actionIdx
           (foldl (addPolicyAction allConds p)
             (st\<lparr>roleToActions := fmupd (piRoleName p, piRoleNamespace p) actions (roleToActions st)\<rparr>)
             actions) policies))"

subsection \<open>Subject profiles: resolving allow and deny\<close>

record capEntry =
  cePath :: string
  ceExpressions :: "string list"

definition unconditional :: "capEntry \<Rightarrow> bool" where
  "unconditional e \<longleftrightarrow> ceExpressions e = []"

record subjectPolicies =
  spAllows :: "capEntry list"
  spDenies :: "capEntry list"

record CapabilityResource =
  crPath :: string
  crConstraints :: "string list option"

record ActionCapability =
  acAllowed :: "CapabilityResource list"
  acDenied :: "CapabilityResource list"

definition policiesOf :: "(string, subjectPolicies) fmap \<Rightarrow> string \<Rightarrow> subjectPolicies" where
  "policiesOf bySubject s =
     (case fmlookup bySubject s of None \<Rightarrow> \<lparr>spAllows = [], spDenies = []\<rparr> | Some sp \<Rightarrow> sp)"

definition groupStep ::
    "(string, subjectPolicies) fmap \<Rightarrow> resourceKey \<times> string list \<Rightarrow> (string, subjectPolicies) fmap" where
  "groupStep bySubject kv =
     (case kv of ((subject, path, effect), exprs) \<Rightarrow>
        let sp = policiesOf bySubject subject;
            entry = \<lparr>cePath = path, ceExpressions = exprs\<rparr>
        in fmupd subject
             (if effect = PolicyEffectAllow then sp\<lparr>spAllows := spAllows sp @ [entry]\<rparr>
              else if effect = PolicyEffectDeny then sp\<lparr>spDenies := spDenies sp @ [entry]\<rparr>
              else sp) bySubject)"

definition groupBySubject :: "(resourceKey, string list) fmap \<Rightarrow> (string, subjectPolicies) fmap" where
  "groupBySubject resources = foldl groupStep fmempty (sorted_list_of_fmap resources)"

definition sortedSubjects :: "(string, subjectPolicies) fmap \<Rightarrow> string list" where
  "sortedSubjects bySubject = map fst (sorted_list_of_fmap bySubject)"

definition coveredByUnconditional :: "string \<Rightarrow> capEntry list \<Rightarrow> bool" where
  "coveredByUnconditional path entries \<longleftrightarrow>
     (\<exists>e \<in> set entries. unconditional e \<and> resourceMatch path (cePath e))"

definition survivingAllows :: "(string, subjectPolicies) fmap \<Rightarrow> (string, capEntry list) fmap" where
  "survivingAllows bySubject =
     fmmap (\<lambda>sp. filter (\<lambda>allow. \<not> coveredByUnconditional (cePath allow) (spDenies sp)) (spAllows sp)) bySubject"

definition allowsOf :: "(string, capEntry list) fmap \<Rightarrow> string \<Rightarrow> capEntry list" where
  "allowsOf m s = (case fmlookup m s of None \<Rightarrow> [] | Some es \<Rightarrow> es)"

definition neutralizedByOtherSubject :: "string \<Rightarrow> string \<Rightarrow> (string, capEntry list) fmap \<Rightarrow> bool" where
  "neutralizedByOtherSubject path owner allowsBySubject \<longleftrightarrow>
     (\<exists>(subject, allows) \<in> set (sorted_list_of_fmap allowsBySubject).
        subject \<noteq> owner \<and> coveredByUnconditional path allows)"

record mergedEntry =
  meUnconditional :: bool
  meExpressions :: "string list"

fun mergeLoop ::
    "string list \<Rightarrow> (string, mergedEntry) fmap \<Rightarrow> capEntry list \<Rightarrow> string list \<times> (string, mergedEntry) fmap" where
  "mergeLoop order byPath [] = (order, byPath)"
| "mergeLoop order byPath (entry # entries) =
     (let known = fmlookup byPath (cePath entry);
          merged = (case known of None \<Rightarrow> \<lparr>meUnconditional = False, meExpressions = []\<rparr> | Some m \<Rightarrow> m);
          order' = (if known = None then order @ [cePath entry] else order);
          merged' =
            (if meUnconditional merged then merged
             else if unconditional entry then \<lparr>meUnconditional = True, meExpressions = []\<rparr>
             else merged\<lparr>meExpressions :=
                    foldl (\<lambda>es e. if e \<in> set es then es else es @ [e]) (meExpressions merged) (ceExpressions entry)\<rparr>)
      in mergeLoop order' (fmupd (cePath entry) merged' byPath) entries)"

definition mergeByPath :: "capEntry list \<Rightarrow> CapabilityResource list" where
  "mergeByPath entries =
     (let (order, byPath) = mergeLoop [] fmempty entries
      in map (\<lambda>path. \<lparr>crPath = path,
           crConstraints = (case fmlookup byPath path of
              None \<Rightarrow> None
            | Some m \<Rightarrow> if meExpressions m \<noteq> [] then Some (meExpressions m) else None)\<rparr>) order)"

definition reportedAllows :: "(string, subjectPolicies) fmap \<Rightarrow> capEntry list" where
  "reportedAllows bySubject =
     concat (map (allowsOf (survivingAllows bySubject)) (sortedSubjects bySubject))"

definition reportedDenies :: "(string, subjectPolicies) fmap \<Rightarrow> capEntry list" where
  "reportedDenies bySubject =
     concat (map (\<lambda>subject.
       filter (\<lambda>deny. \<not> neutralizedByOtherSubject (cePath deny) subject (survivingAllows bySubject))
         (spDenies (policiesOf bySubject subject))) (sortedSubjects bySubject))"

definition resolveCapability :: "(resourceKey, string list) fmap \<Rightarrow> ActionCapability" where
  "resolveCapability resources =
     (let bySubject = groupBySubject resources
      in \<lparr>acAllowed = mergeByPath (reportedAllows bySubject),
          acDenied = mergeByPath (reportedDenies bySubject)\<rparr>)"

definition buildCapabilitiesFromPolicies ::
    "codec \<Rightarrow> (string \<Rightarrow> string \<Rightarrow> (string, string list list) result) \<Rightarrow> policyInfo list \<Rightarrow> actionIndex \<Rightarrow>
     (authzError, (string, ActionCapability) fmap) result" where
  "buildCapabilitiesFromPolicies J getGrouping policies actionIdx =
     bindR (accumulate J getGrouping actionIdx
              \<lparr>roleToActions = fmempty, actionExpressions = fmempty, unconditionalKeys = fmempty\<rparr> policies)
       (\<lambda>st. Inr (fmmap resolveCapability (actionExpressions st)))"

record ProfileRequest =
  prSubjectContext :: "SubjectContext option"
  prScope :: ResourceHierarchy

text \<open>
  \<open>GetSubjectProfile\<close>. Its first statement logs fields of the request, so a nil request ends in a
  nil dereference before the validation that would reject it. The time stamp is not modelled.
\<close>

definition validateProfileRequest :: "ProfileRequest option \<Rightarrow> authzError option" where
  "validateProfileRequest req =
     (case req of
        None \<Rightarrow> Some (InvalidRequest ''profile request is nil'')
      | Some r \<Rightarrow>
          if prSubjectContext r = None then Some (InvalidRequest ''subject context is required'') else None)"

definition GetSubjectProfile ::
    "codec \<Rightarrow> (string \<Rightarrow> (string, policy list) result) \<Rightarrow>
     (string \<Rightarrow> string \<Rightarrow> (string, string list list) result) \<Rightarrow> ProfileRequest option \<Rightarrow>
     (authzError, (string, ActionCapability) fmap) result" where
  "GetSubjectProfile J getFilteredPolicy getGrouping request =
     (case request of
        None \<Rightarrow> Inl NilPointer
      | Some r \<Rightarrow>
          (case validateProfileRequest request of
             Some err \<Rightarrow> Inl err
           | None \<Rightarrow>
               (case prSubjectContext r of
                  None \<Rightarrow> Inl NilPointer
                | Some subjectCtx \<Rightarrow>
                    bindR (filterPoliciesBySubjectAndScope getFilteredPolicy subjectCtx
                             (resourceHierarchyToPath (prScope r))) (\<lambda>policies.
                      buildCapabilitiesFromPolicies J getGrouping policies
                        (indexActions ConcretePublicActions)))))"

end
