(* ===== verification/Authz_Actions_Facts.thy ===== *)
theory Authz_Actions_Facts
  imports Authz_Actions
begin

text \<open>
  On the action names of the system the three readings of an action pattern agree: matching
  (enforcement), index lookup (profiles) and expansion (admission of conditions).
\<close>

definition wellFormedAction :: "string \<Rightarrow> bool" where
  "wellFormedAction n \<longleftrightarrow>
     (case splitOn (CHR '':'') n of
        [x, y] \<Rightarrow> x \<noteq> [] \<and> y \<noteq> [] \<and> CHR ''*'' \<notin> set n
      | _ \<Rightarrow> False)"

lemma wellFormedAction_cases:
  assumes "wellFormedAction n"
  obtains x y where "n = x @ CHR '':'' # y" and "x \<noteq> []" and "y \<noteq> []" and "CHR '':'' \<notin> set x"
    and "CHR '':'' \<notin> set y" and "CHR ''*'' \<notin> set n"
proof -
  from assms obtain x y where xy: "splitOn (CHR '':'') n = [x, y]" "x \<noteq> []" "y \<noteq> []" "CHR ''*'' \<notin> set n"
    by (auto simp: wellFormedAction_def split: list.splits)
  then have "n = x @ CHR '':'' # y"
    using splitOn_join[of "CHR '':''" n] by simp
  moreover have "CHR '':'' \<notin> set x" "CHR '':'' \<notin> set y"
    using xy(1) splitOn_parts_no_sep[of _ "CHR '':''" n] by auto
  ultimately show ?thesis
    using xy that by blast
qed

lemma systemActions1_wellFormed: "list_all (\<lambda>a. wellFormedAction (actName a)) systemActions1"
  by code_simp

lemma systemActions2_wellFormed: "list_all (\<lambda>a. wellFormedAction (actName a)) systemActions2"
  by code_simp

lemma systemActions_wellFormed: "a \<in> set systemActions \<Longrightarrow> wellFormedAction (actName a)"
  using systemActions1_wellFormed systemActions2_wellFormed
  by (auto simp: systemActions_def list_all_iff)

lemma concretePublicActions_wellFormed:
  "n \<in> actName ` set concretePublicActions \<Longrightarrow> wellFormedAction n"
  by (auto simp: concretePublicActions_def systemActions_wellFormed)

lemma ConcretePublicActions_names [simp]:
  "map actName ConcretePublicActions = map actName concretePublicActions"
  by (simp add: ConcretePublicActions_def comp_def)

subsection \<open>Matching and the index\<close>

lemma extract_wellFormed:
  "x \<noteq> [] \<Longrightarrow> CHR '':'' \<notin> set y \<Longrightarrow> extractActionResourceType (x @ CHR '':'' # y) = x"
  by (auto simp: extractActionResourceType_def dropWhile_append Let_def)

lemma suffix_wildcard: "suffix '':*'' pat \<Longrightarrow> \<exists>r. pat = r @ '':*''"
  by (auto simp: suffix_def)

lemma prefix_colon_unique:
  assumes "CHR '':'' \<notin> set x" and "CHR '':'' \<notin> set y"
  shows "prefix (r @ '':'') (x @ CHR '':'' # y) \<longleftrightarrow> r = x"
proof
  assume "prefix (r @ '':'') (x @ CHR '':'' # y)"
  then obtain t where t: "x @ CHR '':'' # y = r @ CHR '':'' # t"
    by (auto simp: prefix_def)
  with assms show "r = x"
    by (auto simp: append_eq_append_conv2 Cons_eq_append_conv append_eq_Cons_conv)
qed (simp add: prefix_def)

lemma actionMatch_wildcard:
  "actionMatch n (r @ '':*'') \<longleftrightarrow> n = r @ '':*'' \<or> (prefix (r @ '':'') n \<and> n \<noteq> r @ '':'')"
proof -
  have "take (Suc (length r)) n = r @ '':'' \<longleftrightarrow> prefix (r @ '':'') n"
    by (metis append_eq_conv_conj length_append_singleton prefix_def take_is_prefix)
  moreover have "prefix (r @ '':'') n \<Longrightarrow> (Suc (length r) < length n) = (n \<noteq> r @ '':'')"
    by (auto simp: prefix_def)
  ultimately show ?thesis
    by (auto simp: actionMatch_def suffix_def Let_def)
qed

lemma actionMatch_extract:
  assumes "wellFormedAction n"
  shows "actionMatch n (r @ '':*'') \<longleftrightarrow> extractActionResourceType n = r"
  using assms
proof (rule wellFormedAction_cases)
  fix x y
  assume n: "n = x @ CHR '':'' # y" "x \<noteq> []" "y \<noteq> []" "CHR '':'' \<notin> set x" "CHR '':'' \<notin> set y"
    "CHR ''*'' \<notin> set n"
  have "n \<noteq> r @ '':*''"
    using n(6) by auto
  moreover have "prefix (r @ '':'') n \<and> n \<noteq> r @ '':'' \<longleftrightarrow> r = x"
    using prefix_colon_unique[OF n(4,5), of r] n(1,3) by auto
  moreover have "extractActionResourceType n = x"
    using n(1,2,5) by (simp add: extract_wellFormed)
  ultimately show ?thesis
    by (auto simp: actionMatch_wildcard)
qed

definition indexed :: "actionIndex \<Rightarrow> string \<Rightarrow> string list" where
  "indexed index r = (case fmlookup (ByResourceType index) r of None \<Rightarrow> [] | Some ns \<Rightarrow> ns)"

lemma indexed_step:
  "indexed (indexAction index n) r = indexed index r @ (if extractActionResourceType n = r then [n] else [])"
  by (simp add: indexed_def indexAction_def Let_def)

lemma foldl_indexAction:
  "indexed (foldl indexAction index ns) r =
     indexed index r @ filter (\<lambda>n. extractActionResourceType n = r) ns \<and>
   actionsStringList (foldl indexAction index ns) = actionsStringList index @ ns"
proof (induction ns arbitrary: index)
  case Nil
  then show ?case by simp
next
  case (Cons n ns)
  then show ?case
    by (simp add: indexed_step) (simp add: indexAction_def Let_def)
qed

lemma indexActions_lookup:
  "indexed (indexActions acts) r = filter (\<lambda>n. extractActionResourceType n = r) (map actName acts)"
  "actionsStringList (indexActions acts) = map actName acts"
  using foldl_indexAction[of "\<lparr>ByResourceType = fmempty, actionsStringList = []\<rparr>" "map actName acts" r]
  by (simp_all add: indexActions_def indexed_def)

lemma expandActionWildcard_match:
  assumes "\<forall>n \<in> actName ` set acts. wellFormedAction n" and "n \<in> actName ` set acts"
  shows "n \<in> set (expandActionWildcard pat (indexActions acts)) \<longleftrightarrow> actionMatch n pat"
proof (cases "suffix '':*'' pat")
  case True
  then obtain r where r: "pat = r @ '':*''" using suffix_wildcard by blast
  then have "set (expandActionWildcard pat (indexActions acts)) = set (indexed (indexActions acts) r)"
    by (auto simp: expandActionWildcard_def suffix_def indexed_def)
  with assms r show ?thesis
    by (auto simp: indexActions_lookup actionMatch_extract)
next
  case False
  with assms show ?thesis
    by (auto simp: expandActionWildcard_def actionMatch_def indexActions_lookup)
qed

subsection \<open>Expansion\<close>

lemma ExpandActionPattern_match:
  assumes "n \<in> actName ` set concretePublicActions"
  shows "n \<in> set (ExpandActionPattern pat) \<longleftrightarrow> actionMatch n pat"
proof -
  from assms have wf: "wellFormedAction n"
    by (rule concretePublicActions_wellFormed)
  then have n: "n \<noteq> []" "CHR ''*'' \<notin> set n" "\<And>r. n \<noteq> r @ '':''"
    by (rule wellFormedAction_cases; auto simp: append_eq_append_conv2 Cons_eq_append_conv append_eq_Cons_conv)+
  show ?thesis
  proof (cases "suffix '':*'' pat")
    case True
    then obtain r where "pat = r @ '':*''" using suffix_wildcard by blast
    with assms n show ?thesis
      by (auto simp: ExpandActionPattern_def actionMatch_wildcard suffix_def butlast_append)
  next
    case False
    with assms n show ?thesis
      by (auto simp: ExpandActionPattern_def actionMatch_def)
  qed
qed

lemma ExpandActionPattern_public: "set (ExpandActionPattern pat) \<subseteq> actName ` set concretePublicActions"
  by (auto simp: ExpandActionPattern_def)

lemma ExpandActionPattern_set:
  "set (ExpandActionPattern pat) = {n \<in> actName ` set concretePublicActions. actionMatch n pat}"
  using ExpandActionPattern_match[of _ pat] ExpandActionPattern_public[of pat] by blast

subsection \<open>Common attributes\<close>

lemma sum_list_all_one:
  fixes ks :: "nat list"
  shows "\<forall>k \<in> set ks. k \<le> 1 \<Longrightarrow> sum_list ks = length ks \<longleftrightarrow> (\<forall>k \<in> set ks. k = 1)"
proof (induction ks)
  case Nil
  then show ?case by simp
next
  case (Cons k ks)
  have "sum_list ks \<le> length ks"
    using Cons.prems by (induction ks) (auto simp: le_Suc_eq)
  with Cons show ?case by auto
qed

lemma length_filter_concat:
  "length (filter P (concat (map f xs))) = sum_list (map (\<lambda>x. length (filter P (f x))) xs)"
  by (induction xs) auto

lemma count_key_le_one:
  "distinct (map specKey specs) \<Longrightarrow>
   length (filter (\<lambda>s. specKey s = key) specs) \<le> 1 \<and>
   (length (filter (\<lambda>s. specKey s = key) specs) = 1 \<longleftrightarrow> key \<in> specKey ` set specs)"
proof (induction specs)
  case Nil
  then show ?case by simp
next
  case (Cons s specs)
  have "filter (\<lambda>t. specKey t = specKey s) specs = []"
    using Cons.prems by (auto simp: filter_empty_conv image_iff)
  with Cons show ?case by auto
qed

lemma count_key_all:
  assumes "\<forall>x \<in> set items. distinct (map specKey (offers x))"
  shows "length (filter (\<lambda>s. specKey s = key) (concat (map offers items))) = length items \<longleftrightarrow>
    (\<forall>x \<in> set items. key \<in> specKey ` set (offers x))"
proof -
  let ?ks = "map (\<lambda>x. length (filter (\<lambda>s. specKey s = key) (offers x))) items"
  have "\<forall>k \<in> set ?ks. k \<le> 1"
    using assms count_key_le_one by auto
  then have "sum_list ?ks = length items \<longleftrightarrow> (\<forall>k \<in> set ?ks. k = 1)"
    using sum_list_all_one[of ?ks] by simp
  moreover have "length (filter (\<lambda>s. specKey s = key) (offers x)) = 1 \<longleftrightarrow> key \<in> specKey ` set (offers x)"
    if "x \<in> set items" for x
    using assms that count_key_le_one[of "offers x" key] by blast
  ultimately show ?thesis
    by (simp add: length_filter_concat)
qed

text \<open>The specs every item offers, provided a key determines its spec.\<close>

lemma commonSpecs_set:
  assumes "\<forall>x \<in> set items. distinct (map specKey (offers x))"
    and "inj_on specKey (\<Union>x \<in> set items. set (offers x))" and "items \<noteq> []"
  shows "set (commonSpecs offers items) = (\<Inter>x \<in> set items. set (offers x)) \<and>
    distinct (map specKey (commonSpecs offers items))"
proof -
  let ?specs = "concat (map offers items)"
  let ?keys = "filter (\<lambda>key. length (filter (\<lambda>s. specKey s = key) ?specs) = length items)
    (remdups (map specKey ?specs))"
  have pick: "last (filter (\<lambda>s. specKey s = specKey t) ?specs) = t" if "t \<in> set ?specs" for t
  proof -
    have "filter (\<lambda>s. specKey s = specKey t) ?specs \<noteq> []"
      using that by (auto simp: filter_empty_conv)
    then have "last (filter (\<lambda>s. specKey s = specKey t) ?specs) \<in> {s \<in> set ?specs. specKey s = specKey t}"
      using last_in_set by fastforce
    with that assms(2) show ?thesis by (auto dest: inj_onD)
  qed
  have keys: "set ?keys = {key. \<forall>x \<in> set items. key \<in> specKey ` set (offers x)}"
    using assms(3) by (auto simp: count_key_all[OF assms(1)] neq_Nil_conv)
  let ?pick = "\<lambda>key. last (filter (\<lambda>s. specKey s = key) ?specs)"
  have common: "commonSpecs offers items = map ?pick ?keys"
    by (simp only: commonSpecs_def Let_def)
  have "specKey (?pick key) = key" if key: "key \<in> set ?keys" for key
  proof -
    from key obtain t where "t \<in> set ?specs" "specKey t = key" by auto
    with pick[of t] show ?thesis by auto
  qed
  then have "map specKey (map ?pick ?keys) = ?keys"
    unfolding map_map comp_def by (intro map_idI) blast
  then have "distinct (map specKey (commonSpecs offers items))"
    unfolding common by simp
  moreover have "?pick key \<in> set (offers x)" if "key \<in> set ?keys" "x \<in> set items" for key x
  proof -
    from that(1) have "\<forall>x \<in> set items. key \<in> specKey ` set (offers x)" unfolding keys by simp
    with that(2) obtain s where "s \<in> set (offers x)" "specKey s = key" by auto
    moreover from this that(2) have "s \<in> set ?specs" by auto
    ultimately show ?thesis using pick[of s] by simp
  qed
  moreover have "t \<in> ?pick ` set ?keys" if t: "t \<in> (\<Inter>x \<in> set items. set (offers x))" for t
  proof -
    obtain x where "x \<in> set items" using assms(3) by (cases items) auto
    with t have spec: "t \<in> set ?specs" by auto
    have "\<forall>x \<in> set items. specKey t \<in> specKey ` set (offers x)" using t by blast
    then have "specKey t \<in> set ?keys" unfolding keys by (rule CollectI)
    with pick[OF spec] show ?thesis by (rule image_eqI[OF sym])
  qed
  ultimately show ?thesis
    unfolding common set_map by blast
qed

text \<open>The registry offers every key once and with one spec.\<close>

lemma conditionRegistry_specs:
  "list_all (\<lambda>(n, specs). length specs = 1 \<and> list_all (\<lambda>s. s \<in> set [AttrResourceEnvironment,
     AttrResourceComponentType, AttrResourceResourceType, AttrResourceWorkflow]) specs) conditionRegistry"
  by code_simp

lemma LookupConditions_specs:
  "LookupConditions n = [] \<or> (\<exists>s \<in> {AttrResourceEnvironment, AttrResourceComponentType,
     AttrResourceResourceType, AttrResourceWorkflow}. LookupConditions n = [s])"
proof (cases "map_of conditionRegistry n")
  case None
  then show ?thesis by (simp add: LookupConditions_def)
next
  case (Some specs)
  then have "(n, specs) \<in> set conditionRegistry" by (rule map_of_SomeD)
  with conditionRegistry_specs have "length specs = 1" "\<forall>s \<in> set specs. s \<in> set [AttrResourceEnvironment,
     AttrResourceComponentType, AttrResourceResourceType, AttrResourceWorkflow]"
    by (auto simp: list_all_iff)
  with Some show ?thesis
    by (cases specs) (auto simp: LookupConditions_def)
qed

lemma attributes_inj:
  "inj_on specKey {AttrResourceEnvironment, AttrResourceComponentType, AttrResourceResourceType, AttrResourceWorkflow}"
  by (auto simp: inj_on_def AttrResourceEnvironment_def AttrResourceComponentType_def
      AttrResourceResourceType_def AttrResourceWorkflow_def)

lemma LookupConditions_offers:
  "distinct (map specKey (LookupConditions n)) \<and> set (LookupConditions n) \<subseteq>
     {AttrResourceEnvironment, AttrResourceComponentType, AttrResourceResourceType, AttrResourceWorkflow}"
  using LookupConditions_specs[of n] by auto

lemma common_of_pattern:
  assumes "ExpandActionPattern p \<noteq> []"
  shows "set (commonSpecs LookupConditions (ExpandActionPattern p)) =
      (\<Inter>n \<in> set (ExpandActionPattern p). set (LookupConditions n)) \<and>
    distinct (map specKey (commonSpecs LookupConditions (ExpandActionPattern p)))"
  using assms LookupConditions_offers
  by (intro commonSpecs_set) (blast intro: inj_on_subset[OF attributes_inj])+

lemma IntersectConditions_set:
  assumes "actions \<noteq> []" and "\<forall>p \<in> set actions. ExpandActionPattern p \<noteq> []"
  shows "set (IntersectConditionsForActions actions) =
    (\<Inter>p \<in> set actions. \<Inter>n \<in> set (ExpandActionPattern p). set (LookupConditions n))"
proof -
  let ?offers = "\<lambda>p. commonSpecs LookupConditions (ExpandActionPattern p)"
  have "(\<Union>p \<in> set actions. set (?offers p)) \<subseteq>
      {AttrResourceEnvironment, AttrResourceComponentType, AttrResourceResourceType, AttrResourceWorkflow}"
  proof (rule UN_least)
    fix p assume "p \<in> set actions"
    with assms(2) have "ExpandActionPattern p \<noteq> []" by blast
    then obtain n where "n \<in> set (ExpandActionPattern p)" by (cases "ExpandActionPattern p") auto
    with common_of_pattern[OF \<open>ExpandActionPattern p \<noteq> []\<close>] LookupConditions_offers
    show "set (?offers p) \<subseteq>
      {AttrResourceEnvironment, AttrResourceComponentType, AttrResourceResourceType, AttrResourceWorkflow}"
      by blast
  qed
  then have "inj_on specKey (\<Union>p \<in> set actions. set (?offers p))"
    by (rule inj_on_subset[OF attributes_inj])
  then have "set (commonSpecs ?offers actions) = (\<Inter>p \<in> set actions. set (?offers p))"
    using assms common_of_pattern by (intro commonSpecs_set[THEN conjunct1]) auto
  with assms common_of_pattern show ?thesis
    by (auto simp: IntersectConditionsForActions_def)
qed

lemma expand_public:
  assumes "n \<in> actName ` set ConcretePublicActions"
  shows "n \<in> set (expandActionWildcard pat (indexActions ConcretePublicActions)) \<longleftrightarrow> actionMatch n pat"
proof (rule expandActionWildcard_match)
  have "actName ` set ConcretePublicActions = actName ` set concretePublicActions"
    by (metis ConcretePublicActions_names set_map)
  then show "\<forall>m \<in> actName ` set ConcretePublicActions. wellFormedAction m"
    using concretePublicActions_wellFormed by auto
qed (rule assms)

text \<open>The matching function registered for roles only short-cuts patterns without a wildcard.\<close>

lemma roleActionMatchWrapper_eq: "roleActionMatchWrapper n pat \<longleftrightarrow> actionMatch n pat"
  by (auto simp: roleActionMatchWrapper_def actionMatch_def suffix_def)

subsection \<open>Properties\<close>

text \<open>C23: The subject profile and enforcement read role actions alike: a concrete public action is in the
  expansion of an action pattern through the profile's index exactly when the pattern matches the
  action in enforcement.\<close>

theorem profile_expansion_is_enforcement:
  assumes "n \<in> actName ` set ConcretePublicActions"
  shows "n \<in> set (expandActionWildcard pat (indexActions ConcretePublicActions)) \<longleftrightarrow> actionMatch n pat"
  by (rule expand_public[OF assms])

theorem profile_expansion_is_enforcement_witness:
  "''component:view'' \<in> set (expandActionWildcard ''component:*'' (indexActions ConcretePublicActions)) \<and>
   ''project:view'' \<notin> set (expandActionWildcard ''component:*'' (indexActions ConcretePublicActions))"
proof -
  have "publicAction ''component:view'' ScopeComponent \<in> set systemActions"
    "publicAction ''project:view'' ScopeProject \<in> set systemActions"
    by code_simp+
  then have "''component:view'' \<in> actName ` set ConcretePublicActions"
    "''project:view'' \<in> actName ` set ConcretePublicActions"
    by (force simp: ConcretePublicActions_def concretePublicActions_def publicAction_def image_iff)+
  moreover have "actionMatch ''component:view'' ''component:*''" "\<not> actionMatch ''project:view'' ''component:*''"
    by code_simp+
  ultimately show ?thesis
    using profile_expansion_is_enforcement by blast
qed

text \<open>C24: The attributes admission allows in a condition on a non-empty list of action patterns, each of
  which matches some action, are exactly the attributes that are bound at run time for every
  action one of the patterns matches.\<close>

theorem admitted_attributes_are_bound:
  assumes "actions \<noteq> []"
    and "\<forall>p \<in> set actions. \<exists>n \<in> actName ` set concretePublicActions. actionMatch n p"
  shows "s \<in> set (IntersectConditionsForActions actions) \<longleftrightarrow>
    (\<forall>p \<in> set actions. \<forall>n \<in> actName ` set concretePublicActions.
       actionMatch n p \<longrightarrow> s \<in> set (LookupConditions n))"
proof -
  have "\<forall>p \<in> set actions. ExpandActionPattern p \<noteq> []"
    using assms(2) ExpandActionPattern_match by (metis empty_iff list.set(1))
  then show ?thesis
    using IntersectConditions_set[OF assms(1)] by (auto simp: ExpandActionPattern_set)
qed

theorem admitted_attributes_are_bound_witness:
  "AttrResourceEnvironment \<in> set (IntersectConditionsForActions [''logs:view'', ''metrics:view''])"
proof -
  have "publicAction ''logs:view'' ScopeComponent \<in> set systemActions"
    "publicAction ''metrics:view'' ScopeComponent \<in> set systemActions"
    by code_simp+
  then have names: "''logs:view'' \<in> actName ` set concretePublicActions"
    "''metrics:view'' \<in> actName ` set concretePublicActions"
    by (force simp: concretePublicActions_def publicAction_def image_iff)+
  have exact: "actionMatch n ''logs:view'' \<longleftrightarrow> n = ''logs:view''"
    "actionMatch n ''metrics:view'' \<longleftrightarrow> n = ''metrics:view''" for n
    by (auto simp: actionMatch_def suffix_def Cons_eq_append_conv)
  have "LookupConditions ''logs:view'' = [AttrResourceEnvironment]"
    "LookupConditions ''metrics:view'' = [AttrResourceEnvironment]"
    by code_simp+
  then have "\<forall>p \<in> set [''logs:view'', ''metrics:view'']. \<forall>n \<in> actName ` set concretePublicActions.
      actionMatch n p \<longrightarrow> AttrResourceEnvironment \<in> set (LookupConditions n)"
    using exact by auto
  moreover have "\<forall>p \<in> set [''logs:view'', ''metrics:view'']. \<exists>n \<in> actName ` set concretePublicActions. actionMatch n p"
    using names exact[THEN iffD2, OF refl] by (metis list.set_intros set_ConsD list.set_cases empty_iff list.set(1))
  ultimately show ?thesis
    using admitted_attributes_are_bound[of "[''logs:view'', ''metrics:view'']" AttrResourceEnvironment]
    by blast
qed

end
