(* ===== verification/Authz_Match_Facts.thy ===== *)
theory Authz_Match_Facts
  imports Authz_Match Authz_Actions_Facts
begin

text \<open>
  Resource paths as segment lists: matching is the prefix order on segments, so a policy covers
  exactly the hierarchies below its own, names that extend one another never match, and paths
  determine hierarchies. Conditions fail closed, and every admitted attribute is bound.
\<close>

subsection \<open>Matching is the prefix order on segments\<close>

abbreviation segments :: "string \<Rightarrow> string list" where
  "segments p \<equiv> splitOn (CHR ''/'') p"

lemma resourceMatch_segments:
  "resourceMatch r p \<longleftrightarrow> p = ''*'' \<or> prefix (segments p) (segments r)"
  using splitOn_prefix[of r p "CHR ''/''"] by (auto simp: resourceMatch_def)

lemma resourceMatch_refl [simp]: "resourceMatch p p"
  by (simp add: resourceMatch_segments)

lemma prefix_star: "prefix (segments p) (segments ''*'') \<longleftrightarrow> p = ''*''"
proof
  assume "prefix (segments p) (segments ''*'')"
  moreover have "segments ''*'' = [''*'']" by simp
  ultimately have "segments p = [''*'']"
    by (cases "segments p") (auto simp: prefix_Cons)
  then show "p = ''*''"
    using splitOn_join[of "CHR ''/''" p] by simp
qed simp

lemma resourceMatch_star [simp]: "resourceMatch r ''*''" "resourceMatch ''*'' p \<longleftrightarrow> p = ''*''"
  using prefix_star[of p] by (auto simp: resourceMatch_segments)

lemma resourceMatch_trans:
  "resourceMatch a b \<Longrightarrow> resourceMatch b c \<Longrightarrow> resourceMatch a c"
  using prefix_star prefix_order.trans unfolding resourceMatch_segments by metis

lemma resourceMatch_comparable:
  "resourceMatch r a \<Longrightarrow> resourceMatch r b \<Longrightarrow> resourceMatch a b \<or> resourceMatch b a"
  unfolding resourceMatch_segments using prefix_same_cases by blast

lemma isWithinScope_match:
  "isWithinScope p scope \<longleftrightarrow> resourceMatch p scope \<or> resourceMatch scope p"
  by (auto simp: isWithinScope_def resourceMatch_def)

subsection \<open>Hierarchies\<close>

text \<open>
  The hierarchies the API admits: names without a slash, a project only in a namespace, a component
  or a resource only in a project, and not both.
\<close>

definition wfHierarchy :: "ResourceHierarchy \<Rightarrow> bool" where
  "wfHierarchy h \<longleftrightarrow>
     (\<forall>n \<in> {hNamespace h, hProject h, hComponent h, hResource h}. CHR ''/'' \<notin> set n) \<and>
     (hProject h \<noteq> [] \<longrightarrow> hNamespace h \<noteq> []) \<and>
     (hComponent h \<noteq> [] \<longrightarrow> hProject h \<noteq> []) \<and>
     (hResource h \<noteq> [] \<longrightarrow> hProject h \<noteq> []) \<and>
     (hComponent h = [] \<or> hResource h = [])"

definition scopeCovers :: "ResourceHierarchy \<Rightarrow> ResourceHierarchy \<Rightarrow> bool" where
  "scopeCovers pol req \<longleftrightarrow>
     (hNamespace pol = [] \<or> hNamespace pol = hNamespace req) \<and>
     (hProject pol = [] \<or> hProject pol = hProject req) \<and>
     (hComponent pol = [] \<or> hComponent pol = hComponent req) \<and>
     (hResource pol = [] \<or> hResource pol = hResource req)"

definition hierarchySegments :: "ResourceHierarchy \<Rightarrow> string list" where
  "hierarchySegments h =
     [''ns'', hNamespace h] @
     (if hProject h \<noteq> [] then [''project'', hProject h] else []) @
     (if hComponent h \<noteq> [] then [''component'', hComponent h]
      else if hResource h \<noteq> [] then [''resource'', hResource h] else [])"

lemma dropWhile_hd: "s \<noteq> [] \<Longrightarrow> \<not> P (hd s) \<Longrightarrow> dropWhile P s = s"
  by (cases s) auto

lemma trimSlashes_id:
  "s \<noteq> [] \<Longrightarrow> hd s \<noteq> CHR ''/'' \<Longrightarrow> last s \<noteq> CHR ''/'' \<Longrightarrow> trimSlashes s = s"
  by (simp add: trimSlashes_def dropWhile_hd hd_rev)

lemma name_last: "n \<noteq> [] \<Longrightarrow> CHR ''/'' \<notin> set n \<Longrightarrow> last (s @ n) \<noteq> CHR ''/''"
  using last_in_set[of n] by (metis last_appendR)

lemma path_segments:
  assumes "wfHierarchy h" and "hNamespace h \<noteq> []"
  shows "resourceHierarchyToPath h = joinWith ''/'' (hierarchySegments h)"
proof -
  have trim: "trimSlashes (CHR ''n'' # s @ n) = CHR ''n'' # s @ n"
    if "n \<noteq> []" "CHR ''/'' \<notin> set n" for s n
    using that name_last[of n "CHR ''n'' # s"] by (intro trimSlashes_id) auto
  show ?thesis
    using assms trim[of "hNamespace h" "''s/''"] trim[of "hProject h" "''s/'' @ hNamespace h @ ''/project/''"]
      trim[of "hComponent h" "''s/'' @ hNamespace h @ ''/project/'' @ hProject h @ ''/component/''"]
      trim[of "hResource h" "''s/'' @ hNamespace h @ ''/project/'' @ hProject h @ ''/resource/''"]
    by (auto simp: resourceHierarchyToPath_def hierarchySegments_def wfHierarchy_def Let_def)
qed

lemma hierarchySegments_no_slash:
  "wfHierarchy h \<Longrightarrow> \<forall>s \<in> set (hierarchySegments h). CHR ''/'' \<notin> set s"
  by (auto simp: hierarchySegments_def wfHierarchy_def)

lemma segments_path:
  assumes "wfHierarchy h" and "hNamespace h \<noteq> []"
  shows "segments (resourceHierarchyToPath h) = hierarchySegments h"
proof -
  have "hierarchySegments h \<noteq> []" by (simp add: hierarchySegments_def)
  then show ?thesis
    using splitOn_joinWith[OF _ hierarchySegments_no_slash[OF assms(1)]] path_segments[OF assms] by simp
qed

lemma path_empty:
  "wfHierarchy h \<Longrightarrow> hNamespace h = [] \<Longrightarrow> resourceHierarchyToPath h = ''*'' \<and> h = emptyHierarchy"
  by (auto simp: wfHierarchy_def resourceHierarchyToPath_def emptyHierarchy_def)

lemma path_of_empty [simp]: "resourceHierarchyToPath emptyHierarchy = ''*''"
  by (simp add: resourceHierarchyToPath_def emptyHierarchy_def)

lemma path_not_star:
  assumes "wfHierarchy h" and "hNamespace h \<noteq> []"
  shows "resourceHierarchyToPath h \<noteq> ''*'' \<and> resourceHierarchyToPath h \<noteq> []"
  using segments_path[OF assms] by (auto simp: hierarchySegments_def)

lemma setHierarchy_segments:
  "wfHierarchy h \<Longrightarrow> setHierarchy emptyHierarchy (hierarchySegments h) = h"
  by (auto simp: hierarchySegments_def emptyHierarchy_def wfHierarchy_def)

lemma prefix_hierarchySegments:
  assumes "wfHierarchy pol" and "wfHierarchy req" and "hNamespace pol \<noteq> []" and "hNamespace req \<noteq> []"
  shows "prefix (hierarchySegments pol) (hierarchySegments req) \<longleftrightarrow> scopeCovers pol req"
  using assms by (auto simp: hierarchySegments_def scopeCovers_def wfHierarchy_def prefix_Cons)

subsection \<open>Differences\<close>

lemma policyKey_inj:
  assumes "p \<noteq> []" "q \<noteq> []" "\<forall>f \<in> set p. CHR 0x00 \<notin> set f" "\<forall>f \<in> set q. CHR 0x00 \<notin> set f"
  shows "policyKey p = policyKey q \<longleftrightarrow> p = q"
  using splitOn_joinWith[OF assms(1,3)] splitOn_joinWith[OF assms(2,4)] by (metis policyKey_def)

definition wfPolicies :: "string list list \<Rightarrow> bool" where
  "wfPolicies ps \<longleftrightarrow> (\<forall>p \<in> set ps. p \<noteq> [] \<and> (\<forall>f \<in> set p. CHR 0x00 \<notin> set f))"

lemma foldl_policySet:
  assumes "wfPolicies ps"
    and "\<forall>k p. fmlookup m k = Some p \<longleftrightarrow> p \<in> A \<and> k = policyKey p"
    and "\<forall>p \<in> A. p \<noteq> [] \<and> (\<forall>f \<in> set p. CHR 0x00 \<notin> set f)"
  shows "\<forall>k p. fmlookup (foldl (\<lambda>m p. fmupd (policyKey p) p m) m ps) k = Some p \<longleftrightarrow>
    p \<in> A \<union> set ps \<and> k = policyKey p"
  using assms
proof (induction ps arbitrary: m A)
  case Nil
  then show ?case by simp
next
  case (Cons q ps)
  have q: "q \<noteq> []" "\<forall>f \<in> set q. CHR 0x00 \<notin> set f"
    using Cons.prems(1) by (auto simp: wfPolicies_def)
  have "\<forall>k p. fmlookup (fmupd (policyKey q) q m) k = Some p \<longleftrightarrow> p \<in> insert q A \<and> k = policyKey p"
    using Cons.prems(2,3) q policyKey_inj by auto
  moreover have "wfPolicies ps" "\<forall>p \<in> insert q A. p \<noteq> [] \<and> (\<forall>f \<in> set p. CHR 0x00 \<notin> set f)"
    using Cons.prems q by (auto simp: wfPolicies_def)
  ultimately show ?case
    using Cons.IH[of "fmupd (policyKey q) q m" "insert q A"] by simp
qed

lemma policySet_lookup:
  assumes "wfPolicies ps"
  shows "fmlookup (policySet ps) k = Some p \<longleftrightarrow> p \<in> set ps \<and> k = policyKey p"
  using foldl_policySet[OF assms, of fmempty "{}"] by (simp add: policySet_def)

lemma policyDiff_side:
  assumes "wfPolicies old" and "wfPolicies new"
  shows "set (map snd (filter (\<lambda>(key, p). fmlookup (policySet old) key = None)
    (sorted_list_of_fmap (policySet new)))) = set new - set old"
proof -
  have "fmlookup (policySet old) (policyKey p) = None \<longleftrightarrow> p \<notin> set old" if "p \<in> set new" for p
  proof -
    have "p \<noteq> [] \<and> (\<forall>f \<in> set p. CHR 0x00 \<notin> set f)"
      using that assms(2) by (auto simp: wfPolicies_def)
    then have "(\<exists>q \<in> set old. policyKey q = policyKey p) \<longleftrightarrow> p \<in> set old"
      using assms(1) policyKey_inj by (auto simp: wfPolicies_def)
    then show ?thesis
      using policySet_lookup[OF assms(1), of "policyKey p"] by (metis not_Some_eq)
  qed
  then show ?thesis
    by (auto simp: set_sorted_list_of_fmap policySet_lookup[OF assms(2)] image_iff)
qed

subsection \<open>Conditions\<close>

lemma conditionLoop_eq:
  "conditionLoop C act m e entries =
     (m \<or> (\<exists>x \<in> set entries. evalCondition C (condExpression x) act = evalAllow),
      e \<or> (\<exists>x \<in> set entries. evalCondition C (condExpression x) act = evalError))"
proof (induction entries arbitrary: m e)
  case Nil
  then show ?case by simp
next
  case (Cons x entries)
  then show ?case
    by (cases "evalCondition C (condExpression x) act") auto
qed

lemma anyConditionMatches_eq:
  "anyConditionMatches C entries act eft \<longleftrightarrow>
     (if \<exists>x \<in> set entries. evalCondition C (condExpression x) act = evalError then eft \<noteq> ''allow''
      else \<exists>x \<in> set entries. evalCondition C (condExpression x) act = evalAllow)"
  by (simp add: anyConditionMatches_def conditionLoop_eq failClosed_def PolicyEffectAllow_def)

text \<open>What an attribute of the request is worth: its value, or the zero of its type.\<close>

definition attrValue :: "Context \<Rightarrow> AttributeSpec \<Rightarrow> jval" where
  "attrValue ctx spec =
     (case fmlookup (attrsOf (convertCtxToAttrMap ctx) (Root spec)) (Leaf spec) of
        None \<Rightarrow> zeroForCELType (specCELType spec)
      | Some v \<Rightarrow> v)"

lemma bindAttr_lookup:
  "fmlookup (attrsOf (bindAttr (convertCtxToAttrMap ctx) act spec) root) leaf =
     (if Root spec \<noteq> [] \<and> Leaf spec \<noteq> [] \<and> root = Root spec \<and> leaf = Leaf spec then Some (attrValue ctx spec)
      else fmlookup (attrsOf act root) leaf)"
  by (auto simp: bindAttr_def attrValue_def attrsOf_def Let_def)

lemma foldl_bindAttr_unbound:
  "\<forall>s \<in> set specs. Root s \<noteq> root \<or> Leaf s \<noteq> leaf \<Longrightarrow>
   fmlookup (attrsOf (foldl (bindAttr (convertCtxToAttrMap ctx)) act specs) root) leaf =
     fmlookup (attrsOf act root) leaf"
  by (induction specs arbitrary: act) (auto simp: bindAttr_lookup)

lemma foldl_bindAttr_bound:
  assumes "s \<in> set specs" and "Root s \<noteq> []" and "Leaf s \<noteq> []"
    and "\<forall>t \<in> set specs. Root t = Root s \<and> Leaf t = Leaf s \<longrightarrow> t = s"
  shows "fmlookup (attrsOf (foldl (bindAttr (convertCtxToAttrMap ctx)) act specs) (Root s)) (Leaf s) =
    Some (attrValue ctx s)"
  using assms
proof (induction specs arbitrary: act)
  case Nil
  then show ?case by simp
next
  case (Cons t specs)
  show ?case
  proof (cases "s \<in> set specs")
    case True
    with Cons show ?thesis by simp
  next
    case False
    with Cons.prems have "t = s" "\<forall>u \<in> set specs. Root u \<noteq> Root s \<or> Leaf u \<noteq> Leaf s"
      by auto
    with Cons.prems show ?thesis
      by (simp add: foldl_bindAttr_unbound bindAttr_lookup)
  qed
qed

subsection \<open>Properties\<close>

text \<open>C22: On the hierarchies the API admits, matching a request path against a policy path is containment of
  scopes: every level the policy names is named alike by the request. In particular a policy never
  reaches a sibling whose name extends the policy's name, nor a broader scope.\<close>

theorem resource_match_is_scope:
  assumes "wfHierarchy pol" and "wfHierarchy req"
  shows "resourceMatch (resourceHierarchyToPath req) (resourceHierarchyToPath pol) \<longleftrightarrow> scopeCovers pol req"
proof (cases "hNamespace pol = []")
  case True
  with path_empty[OF assms(1)] have "pol = emptyHierarchy" by simp
  then show ?thesis
    by (simp add: scopeCovers_def) (simp add: emptyHierarchy_def)
next
  case pol: False
  note path_pol = segments_path[OF assms(1) pol] path_not_star[OF assms(1) pol]
  show ?thesis
  proof (cases "hNamespace req = []")
    case True
    with path_empty[OF assms(2)] have "req = emptyHierarchy" by simp
    then show ?thesis
      using path_pol pol by (simp add: scopeCovers_def) (simp add: emptyHierarchy_def)
  next
    case False
    with path_pol segments_path[OF assms(2) False] prefix_hierarchySegments[OF assms pol False]
    show ?thesis by (simp add: resourceMatch_segments)
  qed
qed

definition acmeProject :: "string \<Rightarrow> string \<Rightarrow> ResourceHierarchy" where
  "acmeProject ns proj = \<lparr>hNamespace = ns, hProject = proj, hComponent = [], hResource = []\<rparr>"

theorem resource_match_is_scope_witness:
  "resourceMatch (resourceHierarchyToPath (acmeProject ''acme'' ''p1'')) (resourceHierarchyToPath (acmeProject ''acme'' [])) \<and>
   \<not> resourceMatch (resourceHierarchyToPath (acmeProject ''acme2'' ''p1'')) (resourceHierarchyToPath (acmeProject ''acme'' []))"
proof -
  have "wfHierarchy (acmeProject ''acme'' [])" "wfHierarchy (acmeProject ''acme'' ''p1'')"
    "wfHierarchy (acmeProject ''acme2'' ''p1'')"
    by (simp_all add: wfHierarchy_def acmeProject_def)
  then show ?thesis
    using resource_match_is_scope by (simp add: scopeCovers_def acmeProject_def)
qed

text \<open>On the hierarchies the API admits, converting a hierarchy to a path and back gives the hierarchy.\<close>

theorem resource_path_roundtrip:
  assumes "wfHierarchy h"
  shows "resourcePathToHierarchy (resourceHierarchyToPath h) = h"
proof (cases "hNamespace h = []")
  case True
  with path_empty[OF assms] have "h = emptyHierarchy" by simp
  then show ?thesis by (simp add: resourcePathToHierarchy_def)
next
  case False
  with assms show ?thesis
    by (simp add: resourcePathToHierarchy_def path_not_star segments_path setHierarchy_segments)
qed

text \<open>A subject string gives back the claim and the value it was made of, whenever the claim name has no
  colon; the value may contain any character.\<close>

theorem subject_roundtrip:
  assumes "formatSubject claim value = Inr subject" and "CHR '':'' \<notin> set claim"
  shows "parseSubject subject = Inr (claim, value)"
  using assms splitN2_Some[of "CHR '':''" claim "value"]
  by (auto simp: formatSubject_def parseSubject_def split: if_splits)

text \<open>The entries of a stored condition that target an action, and whether one of the steps fails that the action needs.\<close>

definition targeting :: "codec \<Rightarrow> string \<Rightarrow> string \<Rightarrow> AuthzCondition set" where
  "targeting J cond action =
     (case unmarshalConditions J cond of
        None \<Rightarrow> {}
      | Some conds \<Rightarrow> {x \<in> set conds. \<exists>pattern \<in> set (condActions x). actionMatch action pattern})"

definition conditionFails :: "codec \<Rightarrow> celCompiler \<Rightarrow> string \<Rightarrow> string \<Rightarrow> string \<Rightarrow> bool" where
  "conditionFails J C ctxJSON action cond \<longleftrightarrow>
     unmarshalConditions J cond = None \<or>
     targeting J cond action \<noteq> {} \<and>
       (case unmarshalContext J ctxJSON of
          None \<Rightarrow> True
        | Some ctx \<Rightarrow> \<exists>x \<in> targeting J cond action.
            evalCondition C (condExpression x) (buildCelActivation ctx (LookupConditions action)) = evalError)"

text \<open>C21: Conditions fail closed, on every input. An empty condition matches. If the condition cannot be decoded, or
  it has an entry that targets the action and the context of the request cannot be decoded or one such entry
  does not compile or does not evaluate to a truth value, then the condition of an allow policy does not match and
  that of every other policy matches. Otherwise it matches exactly when no entry targets the action or
  one that does is true.\<close>

theorem condition_fails_closed:
  "ConditionMatcher J C ctxJSON action cond eft \<longleftrightarrow>
    isPolicyConditionEmpty cond \<or>
    (if conditionFails J C ctxJSON action cond then eft \<noteq> ''allow''
     else targeting J cond action = {} \<or>
       (\<exists>ctx. unmarshalContext J ctxJSON = Some ctx \<and>
         (\<exists>x \<in> targeting J cond action.
           evalCondition C (condExpression x) (buildCelActivation ctx (LookupConditions action)) = evalAllow)))"
proof (cases "unmarshalConditions J cond")
  case None
  then show ?thesis
    by (simp add: ConditionMatcher_def conditionFails_def failClosed_def PolicyEffectAllow_def)
next
  case (Some conds)
  have "targeting J cond action = set (filterConditionsByAction conds action)"
    using Some by (auto simp: targeting_def filterConditionsByAction_def)
  then show ?thesis
    using Some by (auto simp: ConditionMatcher_def conditionFails_def buildActivationForRequest_def anyConditionMatches_eq
        failClosed_def PolicyEffectAllow_def Let_def split: option.splits)
qed

definition exampleCodec :: codec where
  "exampleCodec = \<lparr>marshalContext = (\<lambda>_. ''{}''),
     unmarshalContext = (\<lambda>_. Some \<lparr>ctxResource = \<lparr>attrEnvironment = ''dev'', attrComponentType = [],
        attrResourceType = [], attrWorkflow = []\<rparr>\<rparr>),
     marshalConditions = (\<lambda>_. ''c''),
     unmarshalConditions = (\<lambda>_. Some [\<lparr>condActions = [''logs:*''], condExpression = ''e''\<rparr>])\<rparr>"

theorem condition_fails_closed_witness:
  "\<not> ConditionMatcher exampleCodec (\<lambda>_. None) ''{}'' ''logs:view'' ''c'' ''allow'' \<and>
   ConditionMatcher exampleCodec (\<lambda>_. None) ''{}'' ''logs:view'' ''c'' ''deny'' \<and>
   ConditionMatcher exampleCodec (\<lambda>_. None) ''{}'' ''component:view'' ''c'' ''allow'' \<and>
   \<not> ConditionMatcher (exampleCodec\<lparr>unmarshalConditions := \<lambda>_. None\<rparr>) (\<lambda>_. None) ''{}'' ''component:view'' ''c'' ''allow'' \<and>
   ConditionMatcher exampleCodec (\<lambda>_. Some (\<lambda>_. CelValue (JBool True))) ''{}'' ''logs:view'' ''c'' ''allow''"
  unfolding condition_fails_closed
  by (simp add: conditionFails_def targeting_def exampleCodec_def evalCondition_def isPolicyConditionEmpty_def
      emptyContextJSON_def actionMatch_def suffix_def)

text \<open>Every attribute that conditions on an action may use is bound when the condition is evaluated, to
  the request's value or else to the zero value of the attribute's type, and nothing else is bound.\<close>

theorem activation_binds_admitted_attributes:
  "(\<forall>s \<in> set (LookupConditions action).
      fmlookup (attrsOf (buildCelActivation ctx (LookupConditions action)) (Root s)) (Leaf s) = Some (attrValue ctx s)) \<and>
   (fmlookup (attrsOf (buildCelActivation ctx (LookupConditions action)) root) leaf \<noteq> None \<longrightarrow>
      (\<exists>s \<in> set (LookupConditions action). Root s = root \<and> Leaf s = leaf))"
proof -
  have roots: "Root s \<noteq> [] \<and> Leaf s \<noteq> []" if "s \<in> set (LookupConditions action)" for s
    using that LookupConditions_offers[of action]
    by (auto simp: AttrResourceEnvironment_def AttrResourceComponentType_def AttrResourceResourceType_def
        AttrResourceWorkflow_def Root_def Leaf_def)
  have single: "t = s" if "t \<in> set (LookupConditions action)" "s \<in> set (LookupConditions action)" for s t
    using LookupConditions_specs[of action] that by (elim disjE bexE) simp_all
  have "fmlookup (attrsOf (buildCelActivation ctx (LookupConditions action)) root) leaf = None"
    if "\<not> (\<exists>s \<in> set (LookupConditions action). Root s = root \<and> Leaf s = leaf)"
    using that foldl_bindAttr_unbound[of "LookupConditions action" root leaf ctx fmempty]
    by (auto simp: buildCelActivation_def attrsOf_def)
  moreover have "fmlookup (attrsOf (buildCelActivation ctx (LookupConditions action)) (Root s)) (Leaf s) =
      Some (attrValue ctx s)" if s: "s \<in> set (LookupConditions action)" for s
  proof -
    have "\<forall>t \<in> set (LookupConditions action). Root t = Root s \<and> Leaf t = Leaf s \<longrightarrow> t = s"
      using single s by blast
    moreover have "LookupConditions action \<noteq> []" using s by (cases "LookupConditions action") simp_all
    ultimately show ?thesis
      using foldl_bindAttr_bound[OF s, of ctx fmempty] roots[OF s] by (simp add: buildCelActivation_def)
  qed
  ultimately show ?thesis
    by (intro conjI ballI impI) (assumption | metis)+
qed

text \<open>The difference of two sets of policy tuples is exact: added are the tuples only the new list has,
  removed those only the old list has.\<close>

theorem policy_diff_exact:
  assumes "wfPolicies old" and "wfPolicies new"
  shows "set (fst (computePolicyDiff old new)) = set new - set old \<and>
    set (snd (computePolicyDiff old new)) = set old - set new"
  using policyDiff_side[OF assms] policyDiff_side[OF assms(2,1)] by (simp add: computePolicyDiff_def Let_def)

end
