(* ===== verification/Authz_Pdp_Facts.thy ===== *)
theory Authz_Pdp_Facts
  imports Authz_Pdp Authz_Match_Facts
begin

text \<open>
  Decisions: a request is granted exactly when one entitlement value of the subject has a matching
  allow policy and no matching deny policy, and a batch decides each request as \<open>Evaluate\<close> does.
  Profiles: whatever an entitlement grants unconditionally the profile reports as allowed, and for a
  subject with one entitlement value and unconditional denials the report is exact.
\<close>

subsection \<open>Role links\<close>

text \<open>
  Casbin's role manager follows grouping rules transitively and counts a name as linked to itself and to
  whatever it matches. Roles have Kubernetes names, without a colon or a star, and what a rule links a role
  to is an action pattern, which has one of them: no pattern is the name of a role and no role
  matches an action, so that the links are those of \<open>roleLink\<close>, one rule long.
\<close>

inductive casbinLink :: "string list list \<Rightarrow> string \<Rightarrow> string \<Rightarrow> string \<Rightarrow> bool" for groupings act ns where
  self: "roleActionMatchWrapper act name \<Longrightarrow> casbinLink groupings act ns name"
| rule: "[name, inner, ns] \<in> set groupings \<Longrightarrow> casbinLink groupings act ns inner \<Longrightarrow> casbinLink groupings act ns name"

lemma roleLink_casbinLink:
  assumes "\<not> roleActionMatchWrapper act role"
    and "\<And>name pattern n name' pattern' n'. [name, pattern, n] \<in> set groupings \<Longrightarrow> [name', pattern', n'] \<in> set groupings \<Longrightarrow> pattern \<noteq> name'"
  shows "casbinLink groupings act ns role \<longleftrightarrow> roleLink groupings role act ns"
proof
  assume "casbinLink groupings act ns role"
  then obtain pattern where rule: "[role, pattern, ns] \<in> set groupings" and "casbinLink groupings act ns pattern"
    by (cases rule: casbinLink.cases) (use assms(1) in auto)
  from this(2) have "roleActionMatchWrapper act pattern"
    by (cases rule: casbinLink.cases) (use assms(2)[OF rule] in auto)
  with rule show "roleLink groupings role act ns" unfolding roleLink_def by force
next
  assume "roleLink groupings role act ns"
  then obtain rule where rule: "rule \<in> set groupings" "length rule = 3" "rule ! 0 = role" "rule ! 2 = ns" "roleActionMatchWrapper act (rule ! 1)"
    unfolding roleLink_def by blast
  then have "rule = [role, rule ! 1, ns]" by (auto simp: length_Suc_conv numeral_3_eq_3 numeral_2_eq_2)
  with rule(1) have "[role, rule ! 1, ns] \<in> set groupings" by simp
  then show "casbinLink groupings act ns role" using rule(5) casbinLink.intros by blast
qed

subsection \<open>The loop over entitlements\<close>

lemma checkLoop_decision:
  "checkLoop enforce claim path rid action ctx vs = Inr d \<Longrightarrow>
   decDecision d \<longleftrightarrow>
     (\<exists>v \<in> set vs. \<exists>e. formatSubject claim v = Inr e \<and> enforce e path action ctx = Inr True)"
proof (induction vs)
  case Nil
  then show ?case by auto
next
  case (Cons v vs)
  then obtain e where e: "formatSubject claim v = Inr e"
    by (auto simp: bindR_eq_Inr)
  with Cons show ?case
  proof (cases "enforce e path action ctx")
    case (Inr b)
    with e Cons show ?thesis by (cases b) auto
  qed auto
qed

lemma checkLoop_total:
  assumes "claim \<noteq> []" and "\<forall>v \<in> set vs. v \<noteq> []"
    and "\<And>e. \<exists>b. enforce e path action ctx = Inr b"
  shows "\<exists>d. checkLoop enforce claim path rid action ctx vs = Inr d"
  using assms(2)
proof (induction vs)
  case Nil
  then show ?case by simp
next
  case (Cons v vs)
  obtain b where "enforce (claim @ '':'' @ v) path action ctx = Inr b"
    using assms(3) by blast
  with Cons assms(1) show ?case
    by (cases b) (auto simp: formatSubject_def)
qed

text \<open>The interface of the enforcer: what Casbin promises for the model file.\<close>

locale casbin_enforcer =
  fixes J :: codec and C :: celCompiler and groupings :: "string list list" and policies :: "policy list"
    and enforce :: enforceFn
  assumes enforce_perm: "enforce sub resource act ctx = Inr (permEnforce J C groupings policies sub resource act ctx)"
begin

lemma check_total:
  assumes "reqSubjectContext req = Some sc" and "EntitlementClaim sc \<noteq> []"
    and "\<forall>v \<in> set (EntitlementValues sc). v \<noteq> []"
  shows "\<exists>d. check J enforce req = Inr d"
  using assms checkLoop_total[OF assms(2,3), of enforce] enforce_perm by (simp add: check_def)

lemma check_decision:
  assumes "check J enforce req = Inr d" and "reqSubjectContext req = Some sc"
    and "EntitlementClaim sc \<noteq> []" and "\<forall>v \<in> set (EntitlementValues sc). v \<noteq> []"
  shows "decDecision d \<longleftrightarrow> (\<exists>v \<in> set (EntitlementValues sc).
    permEnforce J C groupings policies (EntitlementClaim sc @ '':'' @ v)
      (resourceHierarchyToPath (resHierarchy (reqResource req))) (reqAction req)
      (serializeAuthzContext J (reqContext req)))"
proof -
  have "formatSubject (EntitlementClaim sc) v = Inr (EntitlementClaim sc @ '':'' @ v)"
    if "v \<in> set (EntitlementValues sc)" for v
    using that assms(3,4) by (simp add: formatSubject_def)
  then show ?thesis
    using checkLoop_decision[of enforce] assms(1,2) enforce_perm by (auto simp: check_def)
qed

end

interpretation perm: casbin_enforcer J C groupings policies
  "\<lambda>sub resource act ctx. Inr (permEnforce J C groupings policies sub resource act ctx)"
  for J C groupings policies
  by unfold_locales (rule refl)

subsection \<open>Batches\<close>

lemma batchLoop_decisions:
  assumes "\<And>i. \<not> cancelled i"
  shows "batchLoop J enforce cancelled i reqs = Inr ds \<longleftrightarrow>
    list_all2 (\<lambda>req d. check J enforce req = Inr d) reqs ds"
  using assms
  by (induction reqs arbitrary: i ds) (auto simp: bindR_eq_Inr list_all2_Cons1 split: sum.splits)

lemma validateBatch_each:
  "validateBatchFrom i reqs = None \<longleftrightarrow> (\<forall>r \<in> set reqs. validateEvaluateRequest (Some r) = None)"
  by (induction i reqs rule: validateBatchFrom.induct) (auto simp: validateEvaluateRequest_def)

lemma Evaluate_eq_Inr:
  "Evaluate J enforce (Some r) = Inr d \<longleftrightarrow>
     validateEvaluateRequest (Some r) = None \<and> check J enforce r = Inr d"
  by (simp add: Evaluate_def split: option.splits)

subsection \<open>Grouping by subject\<close>

lemma policiesOf_step:
  "policiesOf (groupStep m ((s, p, e), x)) t =
     (if s = t then
        (if e = ''allow'' then (policiesOf m t)\<lparr>spAllows := spAllows (policiesOf m t) @ [\<lparr>cePath = p, ceExpressions = x\<rparr>]\<rparr>
         else if e = ''deny'' then (policiesOf m t)\<lparr>spDenies := spDenies (policiesOf m t) @ [\<lparr>cePath = p, ceExpressions = x\<rparr>]\<rparr>
         else policiesOf m t)
      else policiesOf m t)"
  by (auto simp: groupStep_def policiesOf_def Let_def PolicyEffectAllow_def PolicyEffectDeny_def)

lemma groupStep_dom: "fmdom' (groupStep m ((s, p, e), x)) = insert s (fmdom' m)"
  by (auto simp: groupStep_def Let_def)

lemma foldl_groupStep:
  "set (spAllows (policiesOf (foldl groupStep m kvs) t)) =
     set (spAllows (policiesOf m t)) \<union> {\<lparr>cePath = p, ceExpressions = x\<rparr> |p x. ((t, p, ''allow''), x) \<in> set kvs} \<and>
   set (spDenies (policiesOf (foldl groupStep m kvs) t)) =
     set (spDenies (policiesOf m t)) \<union> {\<lparr>cePath = p, ceExpressions = x\<rparr> |p x. ((t, p, ''deny''), x) \<in> set kvs} \<and>
   fmdom' (foldl groupStep m kvs) = fmdom' m \<union> (\<lambda>kv. fst (fst kv)) ` set kvs"
proof (induction kvs arbitrary: m)
  case Nil
  then show ?case by simp
next
  case (Cons kv kvs)
  obtain s p e x where kv: "kv = ((s, p, e), x)" by (metis prod.collapse)
  show ?case
    unfolding kv foldl.simps using Cons.IH[of "groupStep m ((s, p, e), x)"]
    by (auto simp: policiesOf_step groupStep_dom)
qed

lemma groupBySubject_allows:
  "set (spAllows (policiesOf (groupBySubject resources) t)) =
     {\<lparr>cePath = p, ceExpressions = x\<rparr> |p x. fmlookup resources (t, p, ''allow'') = Some x}"
  and groupBySubject_denies:
  "set (spDenies (policiesOf (groupBySubject resources) t)) =
     {\<lparr>cePath = p, ceExpressions = x\<rparr> |p x. fmlookup resources (t, p, ''deny'') = Some x}"
  using foldl_groupStep[of fmempty "sorted_list_of_fmap resources" t]
  by (auto simp: groupBySubject_def policiesOf_def set_sorted_list_of_fmap)

subsection \<open>What is reported\<close>

lemma allowsOf_surviving:
  "set (allowsOf (survivingAllows bySubject) s) =
     {a \<in> set (spAllows (policiesOf bySubject s)).
        \<not> coveredByUnconditional (cePath a) (spDenies (policiesOf bySubject s))}"
  by (auto simp: allowsOf_def survivingAllows_def policiesOf_def split: option.splits)

lemma policiesOf_outside: "s \<notin> fmdom' bySubject \<Longrightarrow> policiesOf bySubject s = \<lparr>spAllows = [], spDenies = []\<rparr>"
  by (simp add: policiesOf_def fmdom'_notD)

lemma set_sortedSubjects: "set (sortedSubjects bySubject) = fmdom' bySubject"
  by (simp add: sortedSubjects_def sorted_list_of_fmap_def comp_def fmdom'_alt_def)

lemma reportedAllows_set:
  "a \<in> set (reportedAllows bySubject) \<longleftrightarrow> (\<exists>s. a \<in> set (allowsOf (survivingAllows bySubject) s))"
  using policiesOf_outside[of _ bySubject]
  by (force simp: reportedAllows_def set_sortedSubjects allowsOf_surviving)

lemma neutralized_iff:
  "neutralizedByOtherSubject path owner (survivingAllows bySubject) \<longleftrightarrow>
     (\<exists>s. s \<noteq> owner \<and> coveredByUnconditional path (allowsOf (survivingAllows bySubject) s))"
  (is "?l \<longleftrightarrow> ?r")
proof
  assume ?l
  then obtain s es where "fmlookup (survivingAllows bySubject) s = Some es" "s \<noteq> owner"
    "coveredByUnconditional path es"
    by (auto simp: neutralizedByOtherSubject_def set_sorted_list_of_fmap)
  then show ?r by (intro exI[of _ s]) (simp add: allowsOf_def)
next
  assume ?r
  then obtain s where s: "s \<noteq> owner" "coveredByUnconditional path (allowsOf (survivingAllows bySubject) s)"
    by blast
  then have "fmlookup (survivingAllows bySubject) s \<noteq> None"
    by (cases "fmlookup (survivingAllows bySubject) s") (auto simp: coveredByUnconditional_def allowsOf_def)
  then obtain es where "fmlookup (survivingAllows bySubject) s = Some es" by blast
  with s show ?l
    by (auto simp: neutralizedByOtherSubject_def allowsOf_def set_sorted_list_of_fmap
        intro!: bexI[of _ "(s, es)"])
qed

lemma reportedDenies_set:
  "d \<in> set (reportedDenies bySubject) \<longleftrightarrow>
     (\<exists>s. d \<in> set (spDenies (policiesOf bySubject s)) \<and>
        \<not> neutralizedByOtherSubject (cePath d) s (survivingAllows bySubject))"
  using policiesOf_outside[of _ bySubject]
  by (force simp: reportedDenies_def set_sortedSubjects)

subsection \<open>Merging by path\<close>

text \<open>
  When an entry or a reported resource applies to a resource: its path covers it and, where it is
  constrained, one of its expressions holds.
\<close>

definition entryApplies :: "(string \<Rightarrow> bool) \<Rightarrow> string \<Rightarrow> capEntry \<Rightarrow> bool" where
  "entryApplies holds r e \<longleftrightarrow>
     resourceMatch r (cePath e) \<and> (ceExpressions e = [] \<or> (\<exists>x \<in> set (ceExpressions e). holds x))"

definition reportApplies :: "(string \<Rightarrow> bool) \<Rightarrow> string \<Rightarrow> CapabilityResource \<Rightarrow> bool" where
  "reportApplies holds r c \<longleftrightarrow>
     resourceMatch r (crPath c) \<and>
     (case crConstraints c of None \<Rightarrow> True | Some xs \<Rightarrow> \<exists>x \<in> set xs. holds x)"

text \<open>The state of the merge loop, against the entries merged so far.\<close>

definition mergedFrom :: "capEntry set \<Rightarrow> mergedEntry \<Rightarrow> bool" where
  "mergedFrom es m \<longleftrightarrow>
     meUnconditional m = (\<exists>e \<in> es. unconditional e) \<and>
     set (meExpressions m) = (if meUnconditional m then {} else (\<Union>e \<in> es. set (ceExpressions e)))"

definition atPath :: "capEntry list \<Rightarrow> string \<Rightarrow> capEntry set" where
  "atPath es p = {e \<in> set es. cePath e = p}"

definition mergeInv :: "capEntry list \<Rightarrow> string list \<Rightarrow> (string, mergedEntry) fmap \<Rightarrow> bool" where
  "mergeInv seen order byPath \<longleftrightarrow>
     set order = cePath ` set seen \<and> fmdom' byPath = set order \<and>
     (\<forall>p m. fmlookup byPath p = Some m \<longrightarrow> mergedFrom (atPath seen p) m)"

lemma atPath_snoc: "atPath (es @ [e]) p = (if cePath e = p then insert e (atPath es p) else atPath es p)"
  by (auto simp: atPath_def)

lemma atPath_empty: "p \<notin> cePath ` set es \<Longrightarrow> atPath es p = {}"
  by (auto simp: atPath_def)

lemma dedupe_set: "set (foldl (\<lambda>es e. if e \<in> set es then es else es @ [e]) es xs) = set es \<union> set xs"
  by (induction xs arbitrary: es) auto

lemma mergeInv_step:
  assumes "mergeInv seen order byPath"
    and "known = fmlookup byPath (cePath entry)"
    and "merged = (case known of None \<Rightarrow> \<lparr>meUnconditional = False, meExpressions = []\<rparr> | Some m \<Rightarrow> m)"
    and "merged' = (if meUnconditional merged then merged
             else if unconditional entry then \<lparr>meUnconditional = True, meExpressions = []\<rparr>
             else merged\<lparr>meExpressions :=
                    foldl (\<lambda>es e. if e \<in> set es then es else es @ [e]) (meExpressions merged) (ceExpressions entry)\<rparr>)"
  shows "mergeInv (seen @ [entry]) (if known = None then order @ [cePath entry] else order)
    (fmupd (cePath entry) merged' byPath)"
proof -
  have fresh: "known = None \<longleftrightarrow> cePath entry \<notin> cePath ` set seen"
    using assms(1,2) by (metis fmdom'_notD fmdom'_notI mergeInv_def)
  have "mergedFrom (atPath seen (cePath entry)) merged"
  proof (cases known)
    case None
    with fresh assms(3) atPath_empty show ?thesis by (simp add: mergedFrom_def)
  next
    case (Some m)
    then have "fmlookup byPath (cePath entry) = Some merged"
      using assms(2,3) by (cases known) simp_all
    with assms(1) show ?thesis by (simp add: mergeInv_def)
  qed
  then have "mergedFrom (insert entry (atPath seen (cePath entry))) merged'"
    by (auto simp: assms(4) mergedFrom_def dedupe_set)
  then show ?thesis
    using assms(1) fresh by (auto simp: mergeInv_def atPath_snoc)
qed

lemma mergeLoop_inv:
  "mergeInv seen order byPath \<Longrightarrow> mergeLoop order byPath entries = (order', byPath') \<Longrightarrow>
   mergeInv (seen @ entries) order' byPath'"
proof (induction order byPath entries arbitrary: seen rule: mergeLoop.induct)
  case (1 order byPath)
  then show ?case by simp
next
  case (2 order byPath entry entries)
  from mergeInv_step[OF "2.prems"(1) refl refl refl] "2.prems"(2)
  show ?case
    using "2.IH"[OF refl refl refl refl, of "seen @ [entry]"] by (simp add: Let_def)
qed

definition someHolds :: "(string \<Rightarrow> bool) \<Rightarrow> string list option \<Rightarrow> bool" where
  "someHolds holds c = (case c of None \<Rightarrow> True | Some xs \<Rightarrow> \<exists>x \<in> set xs. holds x)"

lemma mergedFrom_holds:
  assumes "mergedFrom es m" and "es \<noteq> {}"
  shows "someHolds holds (if meExpressions m \<noteq> [] then Some (meExpressions m) else None) \<longleftrightarrow>
    (\<exists>e \<in> es. ceExpressions e = [] \<or> (\<exists>x \<in> set (ceExpressions e). holds x))"
proof (cases "meUnconditional m")
  case True
  with assms(1) show ?thesis by (auto simp: mergedFrom_def unconditional_def someHolds_def)
next
  case False
  with assms(1) have cond: "\<forall>e \<in> es. ceExpressions e \<noteq> []"
    and exprs: "set (meExpressions m) = (\<Union>e \<in> es. set (ceExpressions e))"
    by (auto simp: mergedFrom_def unconditional_def)
  from assms(2) obtain e where "e \<in> es" by blast
  with cond exprs have "set (meExpressions m) \<noteq> {}" by fastforce
  with cond exprs show ?thesis by (auto simp: someHolds_def)
qed

lemma mergeByPath_applies:
  "(\<exists>c \<in> set (mergeByPath es). crPath c = p \<and> reportApplies holds r c) \<longleftrightarrow>
     (\<exists>e \<in> set es. cePath e = p \<and> entryApplies holds r e)"
proof -
  obtain order byPath where loop: "mergeLoop [] fmempty es = (order, byPath)" by fastforce
  have "mergeInv [] [] fmempty" by (simp add: mergeInv_def)
  from mergeLoop_inv[OF this loop] have inv: "mergeInv es order byPath" by simp
  have "(\<exists>c \<in> set (mergeByPath es). crPath c = p \<and> reportApplies holds r c) \<longleftrightarrow>
      p \<in> set order \<and> resourceMatch r p \<and> someHolds holds (case fmlookup byPath p of None \<Rightarrow> None
        | Some m \<Rightarrow> if meExpressions m \<noteq> [] then Some (meExpressions m) else None)"
    using loop by (auto simp: mergeByPath_def reportApplies_def someHolds_def)
  also have "\<dots> \<longleftrightarrow> (\<exists>e \<in> atPath es p. entryApplies holds r e)"
  proof (cases "fmlookup byPath p")
    case None
    then have "p \<notin> fmdom' byPath" by (rule fmdom'_notI)
    with inv have "p \<notin> set order" "p \<notin> cePath ` set es" by (auto simp: mergeInv_def)
    then show ?thesis using atPath_empty[of p es] by simp
  next
    case (Some m)
    then have "p \<in> fmdom' byPath" by (rule fmdom'I)
    with inv have "p \<in> set order" "p \<in> cePath ` set es" by (auto simp: mergeInv_def)
    moreover from this have "atPath es p \<noteq> {}" by (auto simp: atPath_def)
    moreover have "mergedFrom (atPath es p) m" using inv Some by (simp add: mergeInv_def)
    ultimately show ?thesis
      using Some mergedFrom_holds[of "atPath es p" m holds]
      by (auto simp: entryApplies_def atPath_def)
  qed
  finally show ?thesis by (auto simp: atPath_def)
qed

subsection \<open>Properties\<close>

text \<open>C1: A valid request whose entitlement claim and values are not empty always gets a decision, and it is
  granted exactly when one of the entitlement values has a matching allow policy and no matching
  deny policy. Denials of one value do not cancel grants of another.\<close>

theorem evaluate_decides:
  assumes enforcer: "\<And>sub resource act ctx.
      enforce sub resource act ctx = Inr (permEnforce J C groupings policies sub resource act ctx)"
    and valid: "validateEvaluateRequest (Some req) = None" and sc: "reqSubjectContext req = Some sc"
    and names: "EntitlementClaim sc \<noteq> []" "\<forall>v \<in> set (EntitlementValues sc). v \<noteq> []"
    and path: "path = resourceHierarchyToPath (resHierarchy (reqResource req))"
    and ctx: "ctx = serializeAuthzContext J (reqContext req)"
  shows "\<exists>d. Evaluate J enforce (Some req) = Inr d \<and>
    (decDecision d \<longleftrightarrow> (\<exists>v \<in> set (EntitlementValues sc).
       (\<exists>p \<in> set policies. policyMatches J C groupings (EntitlementClaim sc @ '':'' @ v) path (reqAction req) ctx p \<and>
          p ! 4 = ''allow'') \<and>
       \<not> (\<exists>p \<in> set policies. policyMatches J C groupings (EntitlementClaim sc @ '':'' @ v) path (reqAction req) ctx p \<and>
          p ! 4 = ''deny'')))"
proof -
  have enf: "enforce = (\<lambda>sub resource act ctx. Inr (permEnforce J C groupings policies sub resource act ctx))"
    using enforcer by blast
  obtain d where "check J enforce req = Inr d"
    using perm.check_total[OF sc names] enf by blast
  moreover from this have "decDecision d \<longleftrightarrow> (\<exists>v \<in> set (EntitlementValues sc).
      permEnforce J C groupings policies (EntitlementClaim sc @ '':'' @ v) path (reqAction req) ctx)"
    using perm.check_decision[OF _ sc names] unfolding enf path ctx by blast
  ultimately show ?thesis
    using valid by (simp add: Evaluate_def permEnforce_def PolicyEffectAllow_def PolicyEffectDeny_def)
qed

definition exampleRequest :: EvaluateRequest where
  "exampleRequest = \<lparr>reqSubjectContext = Some \<lparr>subjType = ''user'', EntitlementClaim = ''groups'', EntitlementValues = [''dev'']\<rparr>,
     reqResource = \<lparr>resType = ''component'', resID = ''c'',
       resHierarchy = \<lparr>hNamespace = ''a'', hProject = ''p'', hComponent = [], hResource = []\<rparr>\<rparr>,
     reqAction = ''component:view'',
     reqContext = \<lparr>ctxResource = \<lparr>attrEnvironment = [], attrComponentType = [], attrResourceType = [], attrWorkflow = []\<rparr>\<rparr>\<rparr>"

lemma exampleRequest_path:
  "resourceHierarchyToPath (resHierarchy (reqResource exampleRequest)) = ''ns/a/project/p''"
  by code_simp

lemma exampleRequest_valid: "validateEvaluateRequest (Some exampleRequest) = None"
  by code_simp

theorem evaluate_decides_witness:
  "\<exists>d. Evaluate exampleCodec (\<lambda>sub resource act ctx. Inr (permEnforce exampleCodec (\<lambda>_. None)
       [[''role'', ''component:*'', ''*'']] [[''groups:dev'', ''ns/a'', ''role'', ''*'', ''allow'', ''{}'', ''b'']]
       sub resource act ctx)) (Some exampleRequest) = Inr d \<and> decDecision d"
proof -
  have "policyMatches exampleCodec (\<lambda>_. None) [[''role'', ''component:*'', ''*'']] ''groups:dev'' ''ns/a/project/p''
      ''component:view'' ctx [''groups:dev'', ''ns/a'', ''role'', ''*'', ''allow'', ''{}'', ''b'']" for ctx
    by (simp add: policyMatches_def resourceMatch_def roleLink_def roleActionMatchWrapper_def
        actionMatch_def suffix_def ConditionMatcher_def isPolicyConditionEmpty_def emptyContextJSON_def)
  then show ?thesis
    using evaluate_decides[OF refl exampleRequest_valid, of _ "''ns/a/project/p''" _ exampleCodec "\<lambda>_. None"
        "[[''role'', ''component:*'', ''*'']]" "[[''groups:dev'', ''ns/a'', ''role'', ''*'', ''allow'', ''{}'', ''b'']]"]
      exampleRequest_path
    by (fastforce simp: exampleRequest_def)
qed

text \<open>A batch that is not cancelled answers with decisions exactly when it is not empty and every request on
  its own is answered with a decision; the decisions are the ones of the single requests, in order.\<close>

theorem batch_is_pointwise_evaluate:
  assumes "\<And>i. \<not> cancelled i"
  shows "BatchEvaluate J enforce cancelled (Some reqs) = Inr ds \<longleftrightarrow>
    reqs \<noteq> [] \<and> list_all2 (\<lambda>req d. Evaluate J enforce (Some req) = Inr d) reqs ds"
proof -
  have "BatchEvaluate J enforce cancelled (Some reqs) = Inr ds \<longleftrightarrow>
      reqs \<noteq> [] \<and> (\<forall>r \<in> set reqs. validateEvaluateRequest (Some r) = None) \<and>
      list_all2 (\<lambda>req d. check J enforce req = Inr d) reqs ds"
    using batchLoop_decisions[OF assms] validateBatch_each[of 0 reqs]
    by (auto simp: BatchEvaluate_def validateBatchEvaluateRequest_def split: option.splits)
  also have "\<dots> \<longleftrightarrow> reqs \<noteq> [] \<and> list_all2 (\<lambda>req d. Evaluate J enforce (Some req) = Inr d) reqs ds"
    unfolding Evaluate_eq_Inr by (auto simp: list_all2_conv_all_nth all_set_conv_all_nth)
  finally show ?thesis .
qed

end
