(* ===== verification/Authz_Profile_Facts.thy ===== *)
theory Authz_Profile_Facts
  imports Authz_Pdp_Facts
begin

text \<open>
  Subject profiles against enforcement. The lists of a capability are read as the comment of
  \<open>resolveCapability\<close> says (\<open>profileAllows\<close>); what one entitlement grants is the resolution
  enforcement makes (\<open>grants\<close>). The accumulated expressions of an action stand for the policies
  of the subject, so that the reading of the profile can be compared with Casbin's decision.
\<close>

subsection \<open>Reading a capability\<close>

definition profileAllows :: "(string \<Rightarrow> bool) \<Rightarrow> ActionCapability \<Rightarrow> string \<Rightarrow> bool" where
  "profileAllows holds cap r \<longleftrightarrow>
     (\<exists>a \<in> set (acAllowed cap). reportApplies holds r a \<and>
        \<not> (\<exists>d \<in> set (acDenied cap). reportApplies holds r d \<and> resourceMatch (crPath d) (crPath a)))"

definition applies :: "(string \<Rightarrow> bool) \<Rightarrow> (resourceKey, string list) fmap \<Rightarrow> string \<Rightarrow> string \<Rightarrow> string \<Rightarrow> bool" where
  "applies holds resources s effect r \<longleftrightarrow>
     (\<exists>p x. fmlookup resources (s, p, effect) = Some x \<and> entryApplies holds r \<lparr>cePath = p, ceExpressions = x\<rparr>)"


lemma profileAllows_entries:
  "profileAllows holds (resolveCapability resources) r \<longleftrightarrow>
     (\<exists>a \<in> set (reportedAllows (groupBySubject resources)). entryApplies holds r a \<and>
        \<not> (\<exists>d \<in> set (reportedDenies (groupBySubject resources)). entryApplies holds r d \<and>
             resourceMatch (cePath d) (cePath a)))"
proof -
  let ?A = "mergeByPath (reportedAllows (groupBySubject resources))"
  let ?D = "mergeByPath (reportedDenies (groupBySubject resources))"
  have "(\<exists>d \<in> set ?D. reportApplies holds r d \<and> resourceMatch (crPath d) p) \<longleftrightarrow>
      (\<exists>d \<in> set (reportedDenies (groupBySubject resources)). entryApplies holds r d \<and> resourceMatch (cePath d) p)" for p
    using mergeByPath_applies[of "reportedDenies (groupBySubject resources)"] by metis
  moreover have "(\<exists>a \<in> set ?A. reportApplies holds r a \<and> Q (crPath a)) \<longleftrightarrow>
      (\<exists>a \<in> set (reportedAllows (groupBySubject resources)). entryApplies holds r a \<and> Q (cePath a))" for Q
    using mergeByPath_applies[of "reportedAllows (groupBySubject resources)"] by metis
  ultimately show ?thesis
    by (simp add: profileAllows_def resolveCapability_def Let_def)
qed

lemma entryApplies_unconditional [simp]:
  "entryApplies holds r \<lparr>cePath = p, ceExpressions = []\<rparr> \<longleftrightarrow> resourceMatch r p"
  by (simp add: entryApplies_def)





text \<open>
  An unconditional allow that no unconditional denial of its subject covers is reported, and only a denial of
  the same subject inside it that no other subject's allow neutralises is reported against it.
\<close>

lemma surviving_plain_allow:
  assumes "fmlookup resources (s, p, ''allow'') = Some []"
    and "\<And>q. fmlookup resources (s, q, ''deny'') = Some [] \<Longrightarrow> \<not> resourceMatch p q"
  shows "\<lparr>cePath = p, ceExpressions = []\<rparr> \<in> set (allowsOf (survivingAllows (groupBySubject resources)) s)"
  using assms by (auto simp: allowsOf_surviving groupBySubject_allows groupBySubject_denies coveredByUnconditional_def unconditional_def)

lemma resolve_plain_allow:
  assumes allow: "fmlookup resources (s, p, ''allow'') = Some []"
    and keep: "\<And>q. fmlookup resources (s, q, ''deny'') = Some [] \<Longrightarrow> \<not> resourceMatch p q"
    and r: "resourceMatch r p"
    and own: "\<And>q x. fmlookup resources (s, q, ''deny'') = Some x \<Longrightarrow> entryApplies holds r \<lparr>cePath = q, ceExpressions = x\<rparr> \<Longrightarrow>
      resourceMatch q p \<Longrightarrow> neutralizedByOtherSubject q s (survivingAllows (groupBySubject resources))"
  shows "profileAllows holds (resolveCapability resources) r"
proof -
  let ?a = "\<lparr>cePath = p, ceExpressions = []\<rparr>" and ?by = "groupBySubject resources"
  note surv = surviving_plain_allow[OF allow keep]
  have "\<not> (entryApplies holds r d \<and> resourceMatch (cePath d) p)" if "d \<in> set (reportedDenies ?by)" for d
  proof
    assume d: "entryApplies holds r d \<and> resourceMatch (cePath d) p"
    from that obtain t where t: "d \<in> set (spDenies (policiesOf ?by t))"
      "\<not> neutralizedByOtherSubject (cePath d) t (survivingAllows ?by)"
      by (auto simp: reportedDenies_set)
    from t(1) obtain q x where q: "d = \<lparr>cePath = q, ceExpressions = x\<rparr>" "fmlookup resources (t, q, ''deny'') = Some x"
      by (auto simp: groupBySubject_denies)
    have "neutralizedByOtherSubject q t (survivingAllows ?by)" if "t \<noteq> s"
      unfolding neutralized_iff coveredByUnconditional_def
      using surv d q(1) that by (intro exI[of _ s] conjI bexI[of _ ?a]) (auto simp: unconditional_def)
    with own[of q x] q d t(2) show False by (cases "t = s") auto
  qed
  moreover have "?a \<in> set (reportedAllows ?by)" using surv by (auto simp: reportedAllows_set)
  ultimately show ?thesis
    unfolding profileAllows_entries using r by (intro bexI[of _ ?a]) auto
qed


lemma resolve_mutual_allows:
  assumes "fmlookup resources (s, p, ''allow'') = Some []" and "fmlookup resources (t, q, ''allow'') = Some []"
    and "\<And>x. fmlookup resources (s, x, ''deny'') = Some [] \<Longrightarrow> \<not> resourceMatch p x"
    and "\<And>x. fmlookup resources (t, x, ''deny'') = Some [] \<Longrightarrow> \<not> resourceMatch q x"
    and "s \<noteq> t" and "resourceMatch p q" and "resourceMatch r p"
  shows "profileAllows holds (resolveCapability resources) r"
proof (rule resolve_plain_allow[OF assms(1,3,7)])
  fix x assume "resourceMatch x p"
  then have "resourceMatch x q" using resourceMatch_trans assms(6) by blast
  with surviving_plain_allow[OF assms(2,4)] assms(5)
  show "neutralizedByOtherSubject x s (survivingAllows (groupBySubject resources))"
    unfolding neutralized_iff coveredByUnconditional_def
    by (intro exI[of _ t] conjI bexI[of _ "\<lparr>cePath = q, ceExpressions = []\<rparr>"]) (auto simp: unconditional_def)
qed

subsection \<open>Accumulated expressions\<close>

text \<open>
  A contribution is one policy of one action: the action, the key and the expressions of the
  policy's conditions on the action, none when the policy is unconditional there.
\<close>

type_synonym contribution = "string \<times> resourceKey \<times> string list"

definition contributionOf :: "AuthzCondition list \<Rightarrow> policyInfo \<Rightarrow> string \<Rightarrow> contribution" where
  "contributionOf conds p a =
     (a, (piSubject p, piResourcePath p, piEffect p), map condExpression (filterConditionsByAction conds a))"

definition exprsAt :: "contribution list \<Rightarrow> string \<Rightarrow> resourceKey \<Rightarrow> string list list" where
  "exprsAt cs a k = map (\<lambda>(_, _, x). x) (filter (\<lambda>(b, l, _). b = a \<and> l = k) cs)"

definition entryAt :: "capState \<Rightarrow> string \<Rightarrow> resourceKey \<Rightarrow> bool \<times> string list option" where
  "entryAt st a k =
     (fmlookup (subMap (unconditionalKeys st) a) k = Some True, fmlookup (subMap (actionExpressions st) a) k)"

definition entryStep :: "bool \<times> string list option \<Rightarrow> string list \<Rightarrow> bool \<times> string list option" where
  "entryStep e y =
     (if y = [] then (True, Some [])
      else if fst e then e
      else (False, Some ((case snd e of None \<Rightarrow> [] | Some es \<Rightarrow> es) @ y)))"

definition accInv :: "contribution list \<Rightarrow> capState \<Rightarrow> bool" where
  "accInv cs st \<longleftrightarrow>
     (\<forall>a. a \<in> fmdom' (actionExpressions st) \<longleftrightarrow> a \<in> fst ` set cs) \<and>
     (\<forall>a k. entryAt st a k = foldl entryStep (False, None) (exprsAt cs a k))"

lemma accInvD:
  assumes "accInv cs st"
  shows "a \<in> fmdom' (actionExpressions st) \<longleftrightarrow> a \<in> fst ` set cs"
    and "entryAt st a k = foldl entryStep (False, None) (exprsAt cs a k)"
  using assms unfolding accInv_def by blast+

lemma subMap_fmupd [simp]: "subMap (fmupd a m n) b = (if a = b then m else subMap n b)"
  by (simp add: subMap_def)

lemma exprsAt_snoc [simp]:
  "exprsAt (cs @ [(b, l, y)]) a k = exprsAt cs a k @ (if b = a \<and> l = k then [y] else [])"
  by (simp add: exprsAt_def)

lemma set_exprsAt: "set (exprsAt cs a k) = {x. (a, k, x) \<in> set cs}"
  by (force simp: exprsAt_def)

lemma foldl_entryStep:
  "foldl entryStep (False, None) ys =
     ([] \<in> set ys, if ys = [] then None else Some (if [] \<in> set ys then [] else concat ys))"
  by (induction ys rule: rev_induct) (auto simp: entryStep_def)

lemma entryAt_addPolicyAction:
  "entryAt (addPolicyAction conds p st a) b k =
     (case contributionOf conds p a of
        (a', k', y) \<Rightarrow> if a' = b \<and> k' = k then entryStep (entryAt st b k) y else entryAt st b k)"
  by (simp add: entryAt_def addPolicyAction_def contributionOf_def entryStep_def Let_def)

lemma addPolicyAction_inv:
  assumes "accInv cs st"
  shows "accInv (cs @ [contributionOf conds p a]) (addPolicyAction conds p st a)"
proof -
  obtain k y where new: "contributionOf conds p a = (a, k, y)" by (simp add: contributionOf_def)
  have "fmdom' (actionExpressions (addPolicyAction conds p st a)) = insert a (fmdom' (actionExpressions st))"
    by (simp add: addPolicyAction_def Let_def)
  moreover have "entryAt (addPolicyAction conds p st a) b l =
      foldl entryStep (False, None) (exprsAt (cs @ [(a, k, y)]) b l)" for b l
    unfolding entryAt_addPolicyAction new by (simp add: accInvD(2)[OF assms])
  ultimately show ?thesis
    using accInvD(1)[OF assms] unfolding accInv_def new by simp
qed

lemma foldl_addPolicyAction_inv:
  "accInv cs st \<Longrightarrow>
   accInv (cs @ map (contributionOf conds p) as) (foldl (addPolicyAction conds p) st as)"
  by (induction "as" arbitrary: cs st) (use addPolicyAction_inv in force)+

lemma addPolicyAction_roles [simp]:
  "roleToActions (foldl (addPolicyAction conds p) st as) = roleToActions st"
  by (induction "as" arbitrary: st) (auto simp: addPolicyAction_def Let_def)

text \<open>The actions and the conditions of a policy; the profile is an error when one cannot be read.\<close>

definition actionsOf ::
    "(string \<Rightarrow> string \<Rightarrow> (string, string list list) result) \<Rightarrow> actionIndex \<Rightarrow> policyInfo \<Rightarrow> string list" where
  "actionsOf getGrouping idx p =
     (case roleActions getGrouping idx (piRoleName p) (piRoleNamespace p) of Inl _ \<Rightarrow> [] | Inr as \<Rightarrow> as)"

definition condsOf :: "codec \<Rightarrow> policyInfo \<Rightarrow> AuthzCondition list" where
  "condsOf J p = (case decodeConditions J (piConditions p) of Inl _ \<Rightarrow> [] | Inr cs \<Rightarrow> cs)"

definition contributions ::
    "codec \<Rightarrow> (string \<Rightarrow> string \<Rightarrow> (string, string list list) result) \<Rightarrow> actionIndex \<Rightarrow> policyInfo list \<Rightarrow>
     contribution list" where
  "contributions J getGrouping idx ps =
     concat (map (\<lambda>p. map (contributionOf (condsOf J p) p) (actionsOf getGrouping idx p)) ps)"

definition cacheOk ::
    "(string \<Rightarrow> string \<Rightarrow> (string, string list list) result) \<Rightarrow> actionIndex \<Rightarrow> capState \<Rightarrow> bool" where
  "cacheOk getGrouping idx st \<longleftrightarrow>
     (\<forall>role ns as. fmlookup (roleToActions st) (role, ns) = Some as \<longrightarrow>
        roleActions getGrouping idx role ns = Inr as)"

lemma accumulate_inv:
  assumes "accumulate J getGrouping idx st ps = Inr st'" and "accInv cs st" and "cacheOk getGrouping idx st"
  shows "accInv (cs @ contributions J getGrouping idx ps) st'"
  using assms
proof (induction ps arbitrary: st cs)
  case Nil
  then show ?case by (simp add: contributions_def)
next
  case (Cons p ps)
  let ?key = "(piRoleName p, piRoleNamespace p)"
  from Cons.prems(1) obtain as conds where
    "as": "(case fmlookup (roleToActions st) ?key of Some as \<Rightarrow> Inr as
          | None \<Rightarrow> roleActions getGrouping idx (piRoleName p) (piRoleNamespace p)) = Inr as"
    and conds: "decodeConditions J (piConditions p) = Inr conds"
    and rest: "accumulate J getGrouping idx (foldl (addPolicyAction conds p)
        (st\<lparr>roleToActions := fmupd ?key as (roleToActions st)\<rparr>) as) ps = Inr st'"
    by (auto simp: bindR_eq_Inr)
  let ?st = "st\<lparr>roleToActions := fmupd ?key as (roleToActions st)\<rparr>"
  have role: "roleActions getGrouping idx (piRoleName p) (piRoleNamespace p) = Inr as"
    using "as" Cons.prems(3) by (auto simp: cacheOk_def split: option.splits)
  have "accInv cs ?st"
    using Cons.prems(2) by (simp add: accInv_def entryAt_def)
  then have "accInv (cs @ map (contributionOf conds p) as) (foldl (addPolicyAction conds p) ?st as)"
    by (rule foldl_addPolicyAction_inv)
  moreover have "cacheOk getGrouping idx (foldl (addPolicyAction conds p) ?st as)"
    using Cons.prems(3) role by (auto simp: cacheOk_def)
  ultimately have "accInv ((cs @ map (contributionOf conds p) as) @ contributions J getGrouping idx ps) st'"
    by (rule Cons.IH[OF rest])
  moreover have "map (contributionOf conds p) as =
      map (contributionOf (condsOf J p) p) (actionsOf getGrouping idx p)"
    using role conds by (simp add: condsOf_def actionsOf_def)
  ultimately show ?case by (simp add: contributions_def)
qed

lemma applies_contributions:
  assumes "accInv cs st"
  shows "applies holds (subMap (actionExpressions st) a) s eff r \<longleftrightarrow>
    (\<exists>p x. (a, (s, p, eff), x) \<in> set cs \<and> resourceMatch r p \<and> (x = [] \<or> (\<exists>e \<in> set x. holds e)))"
proof -
  have "fmlookup (subMap (actionExpressions st) a) k =
      (let ys = exprsAt cs a k in if ys = [] then None else Some (if [] \<in> set ys then [] else concat ys))" for k
    using accInvD(2)[OF assms, of a k] by (simp add: entryAt_def foldl_entryStep Let_def)
  then have "(\<exists>x. fmlookup (subMap (actionExpressions st) a) (s, p, eff) = Some x \<and>
        entryApplies holds r \<lparr>cePath = p, ceExpressions = x\<rparr>) \<longleftrightarrow>
      resourceMatch r p \<and> (\<exists>y \<in> set (exprsAt cs a (s, p, eff)). y = [] \<or> (\<exists>e \<in> set y. holds e))" for p
    by (cases "exprsAt cs a (s, p, eff)") (auto simp: entryApplies_def Let_def)
  then show ?thesis
    unfolding applies_def by (auto simp: set_exprsAt)
qed

subsection \<open>Policies of the subject\<close>

text \<open>The two filtered reads of Casbin, in which an empty field matches every rule.\<close>

definition filteredPolicy :: "policy list \<Rightarrow> string \<Rightarrow> (string, policy list) result" where
  "filteredPolicy policies s = Inr (filter (\<lambda>p. s = [] \<or> p ! 0 = s) policies)"

definition filteredGrouping :: "string list list \<Rightarrow> string \<Rightarrow> string \<Rightarrow> (string, string list list) result" where
  "filteredGrouping groupings role ns =
     Inr (filter (\<lambda>g. (role = [] \<or> g ! 0 = role) \<and> (ns = [] \<or> g ! 2 = ns)) groupings)"

text \<open>The shape of the stored tuples; a role of cluster scope has the namespace \<open>*\<close>.\<close>

definition storeOk :: "string list list \<Rightarrow> policy list \<Rightarrow> bool" where
  "storeOk groupings policies \<longleftrightarrow>
     (\<forall>g \<in> set groupings. length g = 3) \<and>
     (\<forall>p \<in> set policies. length p = 7 \<and> p ! 2 \<noteq> [] \<and> p ! 3 \<noteq> [])"

lemma actionsOf_roleLink:
  assumes "storeOk groupings policies" and "p \<in> set policies" and "a \<in> actName ` set ConcretePublicActions"
  shows "a \<in> set (actionsOf (filteredGrouping groupings) (indexActions ConcretePublicActions) (policyInfoOf p)) \<longleftrightarrow>
    roleLink groupings (p ! 2) a (p ! 3)"
  using assms expand_public[OF assms(3)]
  by (auto simp: actionsOf_def roleActions_def filteredGrouping_def policyInfoOf_def roleLink_def storeOk_def
      roleActionMatchWrapper_eq)

definition noEvalError :: "codec \<Rightarrow> celCompiler \<Rightarrow> policy list \<Rightarrow> activation \<Rightarrow> bool" where
  "noEvalError J C policies env \<longleftrightarrow>
     (\<forall>p \<in> set policies. \<forall>c \<in> set (condsOf J (policyInfoOf p)).
        evalCondition C (condExpression c) env \<noteq> evalError)"

lemma ConditionMatcher_condsOf:
  assumes "decodeConditions J (p ! 5) = Inr conds" and "buildActivationForRequest J ctx a = Some env"
    and "\<forall>c \<in> set conds. evalCondition C (condExpression c) env \<noteq> evalError"
    and "x = map condExpression (filterConditionsByAction conds a)"
  shows "ConditionMatcher J C ctx a (p ! 5) eft \<longleftrightarrow>
    x = [] \<or> (\<exists>e \<in> set x. evalCondition C e env = evalAllow)"
proof (cases "isPolicyConditionEmpty (p ! 5)")
  case True
  with assms show ?thesis
    by (simp add: ConditionMatcher_def decodeConditions_def filterConditionsByAction_def)
next
  case False
  with assms(1) have "unmarshalConditions J (p ! 5) = Some conds"
    by (simp add: decodeConditions_def split: option.splits)
  moreover have "\<not> (\<exists>c \<in> set (filterConditionsByAction conds a). evalCondition C (condExpression c) env = evalError)"
    using assms(3) by (auto simp: filterConditionsByAction_def)
  ultimately show ?thesis
    using False assms(2,4) by (auto simp: ConditionMatcher_def anyConditionMatches_eq Let_def)
qed

lemma accumulate_decodes:
  "accumulate J getGrouping idx st ps = Inr st' \<Longrightarrow> q \<in> set ps \<Longrightarrow>
   decodeConditions J (piConditions q) = Inr (condsOf J q)"
  by (induction ps arbitrary: st) (auto simp: bindR_eq_Inr condsOf_def)

lemma subject_policies:
  assumes read: "filterPoliciesBySubjectAndScope (filteredPolicy policies) sc scope = Inr ps"
    and ok: "storeOk groupings policies"
  shows "q \<in> set ps \<longleftrightarrow> (\<exists>p \<in> set policies. \<exists>v \<in> set (EntitlementValues sc). q = policyInfoOf p \<and>
    p ! 0 = EntitlementClaim sc @ '':'' @ v \<and> isWithinScope (p ! 1) scope)"
proof -
  let ?f = "\<lambda>v. bindR (formatSubject (EntitlementClaim sc) v) (\<lambda>subject.
      case filteredPolicy policies subject of
        Inl err \<Rightarrow> Inl (EnforcementFailed err)
      | Inr found \<Rightarrow> Inr (map policyInfoOf (filter (\<lambda>p. length p = 7 \<and> isWithinScope (p ! 1) scope) found)))"
  have f: "?f v = Inr ys \<longleftrightarrow> formatSubject (EntitlementClaim sc) v = Inr (EntitlementClaim sc @ '':'' @ v) \<and>
      ys = map policyInfoOf (filter (\<lambda>p. p ! 0 = EntitlementClaim sc @ '':'' @ v \<and> isWithinScope (p ! 1) scope) policies)" for v ys
    using ok by (auto simp: formatSubject_def filteredPolicy_def storeOk_def intro!: arg_cong[of _ _ "map policyInfoOf"] filter_cong)
  from read have "concatMapR ?f (EntitlementValues sc) = Inr ps"
    by (simp add: filterPoliciesBySubjectAndScope_def)
  from concatMapR_mem[OF this] show ?thesis
    unfolding f by auto
qed

lemma contributions_mem:
  "(a, (s, path, eff), x) \<in> set (contributions J getGrouping idx ps) \<longleftrightarrow>
     (\<exists>q \<in> set ps. a \<in> set (actionsOf getGrouping idx q) \<and> piSubject q = s \<and> piResourcePath q = path \<and>
        piEffect q = eff \<and> x = map condExpression (filterConditionsByAction (condsOf J q) a))"
  by (auto simp: contributions_def contributionOf_def)

lemma matches_applies:
  assumes read: "filterPoliciesBySubjectAndScope (filteredPolicy policies) sc scope = Inr ps"
    and acc: "accumulate J (filteredGrouping groupings) (indexActions ConcretePublicActions)
        \<lparr>roleToActions = fmempty, actionExpressions = fmempty, unconditionalKeys = fmempty\<rparr> ps = Inr st"
    and ok: "storeOk groupings policies" and a: "a \<in> actName ` set ConcretePublicActions"
    and r: "resourceMatch r scope" and v: "v \<in> set (EntitlementValues sc)"
    and env: "buildActivationForRequest J ctx a = Some env" and noerr: "noEvalError J C policies env"
    and s: "s = EntitlementClaim sc @ '':'' @ v"
  shows "applies (\<lambda>e. evalCondition C e env = evalAllow) (subMap (actionExpressions st) a) s eff r \<longleftrightarrow>
    (\<exists>p \<in> set policies. policyMatches J C groupings s r a ctx p \<and> p ! 4 = eff)"
proof -
  let ?G = "filteredGrouping groupings" and ?idx = "indexActions ConcretePublicActions"
  let ?x = "\<lambda>q. map condExpression (filterConditionsByAction (condsOf J q) a)"
  let ?holds = "\<lambda>e. evalCondition C e env = evalAllow"
  have inv: "accInv ([] @ contributions J ?G ?idx ps) st"
    using acc by (rule accumulate_inv) (auto simp: accInv_def entryAt_def exprsAt_def subMap_def cacheOk_def)
  have "applies ?holds (subMap (actionExpressions st) a) s eff r \<longleftrightarrow>
      (\<exists>q \<in> set ps. a \<in> set (actionsOf ?G ?idx q) \<and> piSubject q = s \<and> piEffect q = eff \<and>
         resourceMatch r (piResourcePath q) \<and> (?x q = [] \<or> (\<exists>e \<in> set (?x q). ?holds e)))"
    unfolding applies_contributions[OF inv] append_Nil contributions_mem by fast
  also have "\<dots> \<longleftrightarrow> (\<exists>p \<in> set policies. policyMatches J C groupings s r a ctx p \<and> p ! 4 = eff)"
  proof -
    have info: "piSubject (policyInfoOf p) = p ! 0" "piEffect (policyInfoOf p) = p ! 4"
      "piResourcePath (policyInfoOf p) = p ! 1" "piConditions (policyInfoOf p) = p ! 5" for p
      by (simp_all add: policyInfoOf_def)
    have "(?x (policyInfoOf p) = [] \<or> (\<exists>e \<in> set (?x (policyInfoOf p)). ?holds e)) \<longleftrightarrow>
        ConditionMatcher J C ctx a (p ! 5) (p ! 4)" if "p \<in> set policies" "policyInfoOf p \<in> set ps" for p
      using ConditionMatcher_condsOf[of J p "condsOf J (policyInfoOf p)" ctx a env C] env noerr that
        accumulate_decodes[OF acc that(2)] by (auto simp: noEvalError_def info)
    moreover have "policyInfoOf p \<in> set ps" if "p \<in> set policies" "p ! 0 = s" "resourceMatch r (p ! 1)" for p
      using that v s r resourceMatch_comparable[of r "p ! 1" scope]
      unfolding subject_policies[OF read ok] by (auto simp: isWithinScope_match)
    moreover have "\<exists>p \<in> set policies. q = policyInfoOf p" if "q \<in> set ps" for q
      using that unfolding subject_policies[OF read ok] by auto
    ultimately show ?thesis
      using actionsOf_roleLink[OF ok _ a] ok unfolding policyMatches_def storeOk_def by (metis info)
  qed
  finally show ?thesis .
qed

lemma profile_parts:
  assumes "GetSubjectProfile J (filteredPolicy policies) getGrouping (Some preq) = Inr caps"
    and "prSubjectContext preq = Some sc"
  obtains ps st where
    "filterPoliciesBySubjectAndScope (filteredPolicy policies) sc (resourceHierarchyToPath (prScope preq)) = Inr ps"
    and "accumulate J getGrouping (indexActions ConcretePublicActions)
        \<lparr>roleToActions = fmempty, actionExpressions = fmempty, unconditionalKeys = fmempty\<rparr> ps = Inr st"
    and "caps = fmmap resolveCapability (actionExpressions st)"
  using assms
  by (auto simp: GetSubjectProfile_def validateProfileRequest_def buildCapabilitiesFromPolicies_def bindR_eq_Inr)

lemma nothing_allowed_without_entries: "\<not> profileAllows holds (resolveCapability fmempty) r"
proof -
  have "spAllows (policiesOf (groupBySubject fmempty) t) = []" for t
    using groupBySubject_allows[of fmempty t] by simp
  then have "reportedAllows (groupBySubject fmempty) = []"
    using reportedAllows_set[of _ "groupBySubject fmempty"]
    by (metis (no_types, lifting) allowsOf_surviving empty_iff list.set(1) mem_Collect_eq list.set_intros(1) list.exhaust)
  then show ?thesis unfolding profileAllows_entries by simp
qed

lemma profile_at:
  "(\<exists>cap. fmlookup (fmmap resolveCapability m) a = Some cap \<and> profileAllows holds cap r) \<longleftrightarrow>
     profileAllows holds (resolveCapability (subMap m a)) r"
  using nothing_allowed_without_entries by (cases "fmlookup m a") (auto simp: subMap_def)

lemma accInv_lookup:
  assumes "accInv cs st"
  shows "fmlookup (subMap (actionExpressions st) a) k =
    (if exprsAt cs a k = [] then None
     else Some (if (a, k, []) \<in> set cs then [] else concat (exprsAt cs a k)))"
  using accInvD(2)[OF assms, of a k] set_exprsAt[of cs a k]
  by (simp add: entryAt_def foldl_entryStep)

lemma accumulate_accInv:
  assumes "accumulate J getGrouping idx
      \<lparr>roleToActions = fmempty, actionExpressions = fmempty, unconditionalKeys = fmempty\<rparr> ps = Inr st"
  shows "accInv (contributions J getGrouping idx ps) st"
  using accumulate_inv[OF assms, of "[]"]
  by (simp add: accInv_def entryAt_def exprsAt_def subMap_def cacheOk_def)

text \<open>A policy of a subject that has an action through its role and no condition on it.\<close>

definition plainPolicy :: "codec \<Rightarrow> string list list \<Rightarrow> string \<Rightarrow> string \<Rightarrow> string \<Rightarrow> policy \<Rightarrow> bool" where
  "plainPolicy J groupings s a eff p \<longleftrightarrow>
     p ! 0 = s \<and> p ! 4 = eff \<and> roleLink groupings (p ! 2) a (p ! 3) \<and>
     filterConditionsByAction (condsOf J (policyInfoOf p)) a = []"

lemma plain_entry:
  assumes read: "filterPoliciesBySubjectAndScope (filteredPolicy policies) sc scope = Inr ps"
    and acc: "accumulate J (filteredGrouping groupings) (indexActions ConcretePublicActions)
        \<lparr>roleToActions = fmempty, actionExpressions = fmempty, unconditionalKeys = fmempty\<rparr> ps = Inr st"
    and ok: "storeOk groupings policies" and a: "a \<in> actName ` set ConcretePublicActions"
    and r: "resourceMatch r scope" "resourceMatch r (p ! 1)"
    and v: "v \<in> set (EntitlementValues sc)" "s = EntitlementClaim sc @ '':'' @ v"
    and p: "p \<in> set policies" "plainPolicy J groupings s a eff p"
  shows "fmlookup (subMap (actionExpressions st) a) (s, p ! 1, eff) = Some []"
proof -
  have "policyInfoOf p \<in> set ps"
    unfolding subject_policies[OF read ok] using p v r resourceMatch_comparable[of r "p ! 1" scope]
    by (auto simp: isWithinScope_match plainPolicy_def)
  then have "(a, (s, p ! 1, eff), []) \<in>
      set (contributions J (filteredGrouping groupings) (indexActions ConcretePublicActions) ps)"
    unfolding contributions_mem
    using p actionsOf_roleLink[OF ok p(1) a] by (intro bexI) (auto simp: policyInfoOf_def plainPolicy_def)
  then show ?thesis
    unfolding accInv_lookup[OF accumulate_accInv[OF acc]] by (auto simp: exprsAt_def filter_empty_conv)
qed

lemma entry_policy:
  assumes read: "filterPoliciesBySubjectAndScope (filteredPolicy policies) sc scope = Inr ps"
    and acc: "accumulate J (filteredGrouping groupings) (indexActions ConcretePublicActions)
        \<lparr>roleToActions = fmempty, actionExpressions = fmempty, unconditionalKeys = fmempty\<rparr> ps = Inr st"
    and ok: "storeOk groupings policies" and a: "a \<in> actName ` set ConcretePublicActions"
    and entry: "fmlookup (subMap (actionExpressions st) a) (s, path, eff) = Some x"
  shows "\<exists>p \<in> set policies. p ! 0 = s \<and> p ! 1 = path \<and> p ! 4 = eff \<and> roleLink groupings (p ! 2) a (p ! 3) \<and>
    (x = [] \<longrightarrow> plainPolicy J groupings s a eff p)"
proof -
  let ?cs = "contributions J (filteredGrouping groupings) (indexActions ConcretePublicActions) ps"
  have "\<exists>y. (a, (s, path, eff), y) \<in> set ?cs \<and> (x = [] \<longrightarrow> y = [])"
    using entry set_exprsAt[of ?cs a "(s, path, eff)"] unfolding accInv_lookup[OF accumulate_accInv[OF acc]]
    by (cases "exprsAt ?cs a (s, path, eff)") (auto split: if_splits)
  then obtain q where q: "q \<in> set ps" "a \<in> set (actionsOf (filteredGrouping groupings) (indexActions ConcretePublicActions) q)"
    "piSubject q = s" "piResourcePath q = path" "piEffect q = eff" "x = [] \<longrightarrow> filterConditionsByAction (condsOf J q) a = []"
    unfolding contributions_mem by auto
  then obtain p where "p \<in> set policies" "q = policyInfoOf p"
    unfolding subject_policies[OF read ok] by blast
  with q show ?thesis
    using actionsOf_roleLink[OF ok _ a] by (intro bexI[of _ p]) (auto simp: plainPolicy_def policyInfoOf_def)
qed

text \<open>A profile and a decision about the same action, resource and context, with no evaluation error.\<close>

definition profiled ::
    "codec \<Rightarrow> celCompiler \<Rightarrow> string list list \<Rightarrow> policy list \<Rightarrow> ProfileRequest \<Rightarrow> SubjectContext \<Rightarrow> string \<Rightarrow> string \<Rightarrow>
     string \<Rightarrow> activation \<Rightarrow> bool" where
  "profiled J C groupings policies preq sc a r ctx env \<longleftrightarrow>
     storeOk groupings policies \<and> prSubjectContext preq = Some sc \<and>
     a \<in> actName ` set ConcretePublicActions \<and> resourceMatch r (resourceHierarchyToPath (prScope preq)) \<and>
     buildActivationForRequest J ctx a = Some env \<and> noEvalError J C policies env"

text \<open>The profile of a subject with named entitlements is computed when every stored condition decodes.\<close>

lemma accumulate_total:
  "\<forall>q \<in> set ps. \<exists>conds. decodeConditions J (piConditions q) = Inr conds \<Longrightarrow>
   \<exists>st'. accumulate J (filteredGrouping groupings) idx st ps = Inr st'"
proof (induction ps arbitrary: st)
  case (Cons q ps)
  then show ?case
    by (cases "fmlookup (roleToActions st) (piRoleName q, piRoleNamespace q)")
      (auto simp: roleActions_def filteredGrouping_def)
qed simp

lemma concatMapR_within:
  "(\<And>x. x \<in> set xs \<Longrightarrow> \<exists>ys. f x = Inr ys \<and> set ys \<subseteq> A) \<Longrightarrow> \<exists>zs. concatMapR f xs = Inr zs \<and> set zs \<subseteq> A"
proof (induction xs)
  case (Cons x xs)
  then obtain ys zs where "f x = Inr ys" "set ys \<subseteq> A" "concatMapR f xs = Inr zs" "set zs \<subseteq> A"
    by (metis list.set_intros)
  then show ?case by simp
qed simp

lemma profile_total:
  assumes "prSubjectContext preq = Some sc" and "EntitlementClaim sc \<noteq> []" and "[] \<notin> set (EntitlementValues sc)"
    and "\<forall>p \<in> set policies. \<exists>conds. decodeConditions J (p ! 5) = Inr conds"
  shows "\<exists>caps. GetSubjectProfile J (filteredPolicy policies) (filteredGrouping groupings) (Some preq) = Inr caps"
proof -
  have "\<exists>ps. filterPoliciesBySubjectAndScope (filteredPolicy policies) sc scope = Inr ps \<and> set ps \<subseteq> policyInfoOf ` set policies" for scope
    unfolding filterPoliciesBySubjectAndScope_def
    by (rule concatMapR_within) (use assms(2,3) in \<open>auto simp: formatSubject_def filteredPolicy_def\<close>)
  then obtain ps where read: "filterPoliciesBySubjectAndScope (filteredPolicy policies) sc (resourceHierarchyToPath (prScope preq)) = Inr ps"
    and ps: "set ps \<subseteq> policyInfoOf ` set policies" by blast
  then have "\<forall>q \<in> set ps. \<exists>conds. decodeConditions J (piConditions q) = Inr conds"
    using assms(4) by (auto simp: policyInfoOf_def)
  from accumulate_total[OF this] assms(1) read show ?thesis
    by (auto simp: GetSubjectProfile_def validateProfileRequest_def buildCapabilitiesFromPolicies_def bindR_eq_Inr)
qed

lemma profiled_entries:
  assumes setting: "profiled J C groupings policies preq sc a r ctx env"
    and profile: "GetSubjectProfile J (filteredPolicy policies) (filteredGrouping groupings) (Some preq) = Inr caps"
  obtains m where
    "\<And>holds. (\<exists>cap. fmlookup caps a = Some cap \<and> profileAllows holds cap r) \<longleftrightarrow> profileAllows holds (resolveCapability m) r"
    and "\<And>v p eff. v \<in> set (EntitlementValues sc) \<Longrightarrow> p \<in> set policies \<Longrightarrow> resourceMatch r (p ! 1) \<Longrightarrow>
      plainPolicy J groupings (EntitlementClaim sc @ '':'' @ v) a eff p \<Longrightarrow>
      fmlookup m (EntitlementClaim sc @ '':'' @ v, p ! 1, eff) = Some []"
    and "\<And>s path eff x. fmlookup m (s, path, eff) = Some x \<Longrightarrow> \<exists>p \<in> set policies. p ! 0 = s \<and> p ! 1 = path \<and> p ! 4 = eff \<and>
      roleLink groupings (p ! 2) a (p ! 3) \<and> (x = [] \<longrightarrow> plainPolicy J groupings s a eff p)"
    and "\<And>v eff. v \<in> set (EntitlementValues sc) \<Longrightarrow>
      applies (\<lambda>e. evalCondition C e env = evalAllow) m (EntitlementClaim sc @ '':'' @ v) eff r \<longleftrightarrow>
      (\<exists>p \<in> set policies. policyMatches J C groupings (EntitlementClaim sc @ '':'' @ v) r a ctx p \<and> p ! 4 = eff)"
proof -
  from setting have ok: "storeOk groupings policies" and sc: "prSubjectContext preq = Some sc"
    and a: "a \<in> actName ` set ConcretePublicActions" and r: "resourceMatch r (resourceHierarchyToPath (prScope preq))"
    and env: "buildActivationForRequest J ctx a = Some env" "noEvalError J C policies env"
    by (simp_all add: profiled_def)
  obtain ps st where read: "filterPoliciesBySubjectAndScope (filteredPolicy policies) sc (resourceHierarchyToPath (prScope preq)) = Inr ps"
    and acc: "accumulate J (filteredGrouping groupings) (indexActions ConcretePublicActions)
        \<lparr>roleToActions = fmempty, actionExpressions = fmempty, unconditionalKeys = fmempty\<rparr> ps = Inr st"
    and caps: "caps = fmmap resolveCapability (actionExpressions st)"
    using profile_parts[OF profile sc] .
  show thesis
    by (rule that[of "subMap (actionExpressions st) a"])
      (use profile_at[of "actionExpressions st" a] caps plain_entry[OF read acc ok a r] entry_policy[OF read acc ok a]
        matches_applies[OF read acc ok a r _ env] in simp_all)
qed

subsection \<open>Properties\<close>


definition exampleGroupings :: "string list list" where
  "exampleGroupings = [[''role'', ''component:*'', ''*'']]"


definition exampleSubject :: SubjectContext where
  "exampleSubject = \<lparr>subjType = ''user'', EntitlementClaim = ''groups'', EntitlementValues = [''dev'']\<rparr>"

definition exampleProfileRequest :: ProfileRequest where
  "exampleProfileRequest = \<lparr>prSubjectContext = Some exampleSubject, prScope = emptyHierarchy\<rparr>"

definition exampleEnv :: activation where
  "exampleEnv = buildCelActivation (the (unmarshalContext exampleCodec ''{}'')) (LookupConditions ''component:view'')"

lemma component_view_public: "''component:view'' \<in> actName ` set ConcretePublicActions"
proof -
  have "publicAction ''component:view'' ScopeComponent \<in> set systemActions" by code_simp
  then show ?thesis
    by (force simp: ConcretePublicActions_def concretePublicActions_def publicAction_def image_iff)
qed





text \<open>C33: With two entitlement values the profile reports what neither grants, for a public action and when no condition fails
  to evaluate. Let one value allow a scope and another
  allow that scope or more, both without conditions, and let neither value deny its whole scope. If each of
  them denies a resource of the scope without conditions, enforcement grants the resource to neither, but
  each allow neutralises the other value's denial and the profile reports the resource as allowed.\<close>

theorem profile_overreports_common_denial:
  assumes setting: "profiled J C groupings policies preq sc a r ctx env"
    and profile: "GetSubjectProfile J (filteredPolicy policies) (filteredGrouping groupings) (Some preq) = Inr caps"
    and v: "v \<in> set (EntitlementValues sc)" "w \<in> set (EntitlementValues sc)" "v \<noteq> w"
    and s: "s = EntitlementClaim sc @ '':'' @ v" "t = EntitlementClaim sc @ '':'' @ w"
    and allows: "p \<in> set policies" "plainPolicy J groupings s a ''allow'' p"
      "q \<in> set policies" "plainPolicy J groupings t a ''allow'' q" "resourceMatch (p ! 1) (q ! 1)"
    and partly: "\<forall>d \<in> set policies. plainPolicy J groupings s a ''deny'' d \<longrightarrow> \<not> resourceMatch (p ! 1) (d ! 1)"
      "\<forall>d \<in> set policies. plainPolicy J groupings t a ''deny'' d \<longrightarrow> \<not> resourceMatch (q ! 1) (d ! 1)"
    and denies: "d \<in> set policies" "plainPolicy J groupings s a ''deny'' d" "resourceMatch r (d ! 1)"
      "e \<in> set policies" "plainPolicy J groupings t a ''deny'' e" "resourceMatch r (e ! 1)"
    and r: "resourceMatch r (p ! 1)"
  shows "\<not> permEnforce J C groupings policies s r a ctx \<and> \<not> permEnforce J C groupings policies t r a ctx \<and>
    (\<exists>cap. fmlookup caps a = Some cap \<and> profileAllows (\<lambda>e. evalCondition C e env = evalAllow) cap r)"
  using setting profile
proof (rule profiled_entries)
  fix m
  assume m: "\<And>holds. (\<exists>cap. fmlookup caps a = Some cap \<and> profileAllows holds cap r) \<longleftrightarrow> profileAllows holds (resolveCapability m) r"
    "\<And>v p eff. v \<in> set (EntitlementValues sc) \<Longrightarrow> p \<in> set policies \<Longrightarrow> resourceMatch r (p ! 1) \<Longrightarrow>
      plainPolicy J groupings (EntitlementClaim sc @ '':'' @ v) a eff p \<Longrightarrow>
      fmlookup m (EntitlementClaim sc @ '':'' @ v, p ! 1, eff) = Some []"
    "\<And>s path eff x. fmlookup m (s, path, eff) = Some x \<Longrightarrow> \<exists>p \<in> set policies. p ! 0 = s \<and> p ! 1 = path \<and> p ! 4 = eff \<and>
      roleLink groupings (p ! 2) a (p ! 3) \<and> (x = [] \<longrightarrow> plainPolicy J groupings s a eff p)"
    "\<And>v eff. v \<in> set (EntitlementValues sc) \<Longrightarrow>
      applies (\<lambda>e. evalCondition C e env = evalAllow) m (EntitlementClaim sc @ '':'' @ v) eff r \<longleftrightarrow>
      (\<exists>p \<in> set policies. policyMatches J C groupings (EntitlementClaim sc @ '':'' @ v) r a ctx p \<and> p ! 4 = eff)"
  have rq: "resourceMatch r (q ! 1)" using resourceMatch_trans[OF r allows(5)] .
  have plain: "\<not> resourceMatch path x" if "fmlookup m (u, x, ''deny'') = Some []"
    "\<forall>d \<in> set policies. plainPolicy J groupings u a ''deny'' d \<longrightarrow> \<not> resourceMatch path (d ! 1)" for u x path
    using m(3)[OF that(1)] that(2) by auto
  have "fmlookup m (s, p ! 1, ''allow'') = Some []" "fmlookup m (t, q ! 1, ''allow'') = Some []"
    using m(2)[OF v(1) allows(1) r] m(2)[OF v(2) allows(3) rq] allows(2,4) s by simp_all
  from resolve_mutual_allows[OF this plain[OF _ partly(1)] plain[OF _ partly(2)] _ allows(5) r]
  have "profileAllows (\<lambda>e. evalCondition C e env = evalAllow) (resolveCapability m) r" using v(3) s by simp
  moreover have denied: "\<not> permEnforce J C groupings policies (EntitlementClaim sc @ '':'' @ u) r a ctx"
    if "u \<in> set (EntitlementValues sc)" "f \<in> set policies" "plainPolicy J groupings (EntitlementClaim sc @ '':'' @ u) a ''deny'' f"
      "resourceMatch r (f ! 1)" for u f
  proof -
    have "applies (\<lambda>e. evalCondition C e env = evalAllow) m (EntitlementClaim sc @ '':'' @ u) ''deny'' r"
      unfolding applies_def using m(2)[OF that(1,2,4,3)] that(4) by (intro exI[of _ "f ! 1"] exI[of _ "[]"]) simp
    with m(4)[OF that(1)] show ?thesis by (auto simp: permEnforce_def PolicyEffectDeny_def)
  qed
  ultimately show ?thesis
    using denied[OF v(1) denies(1)] denied[OF v(2) denies(4)] denies s unfolding m(1) by blast
qed

text \<open>Two groups that both have the namespace \<open>a\<close> except for its project \<open>p\<close>.\<close>

definition exampleTwoGroups :: "policy list" where
  "exampleTwoGroups =
     [[''groups:dev'', ''ns/a'', ''role'', ''*'', ''allow'', ''{}'', ''b''], [''groups:dev'', ''ns/a/project/p'', ''role'', ''*'', ''deny'', ''{}'', ''c''],
      [''groups:ops'', ''ns/a'', ''role'', ''*'', ''allow'', ''{}'', ''d''], [''groups:ops'', ''ns/a/project/p'', ''role'', ''*'', ''deny'', ''{}'', ''e'']]"

definition exampleTwoSubject :: SubjectContext where
  "exampleTwoSubject = exampleSubject\<lparr>EntitlementValues := [''dev'', ''ops'']\<rparr>"

theorem profile_overreports_common_denial_witness:
  "\<exists>caps cap. GetSubjectProfile exampleCodec (filteredPolicy exampleTwoGroups) (filteredGrouping exampleGroupings)
       (Some (exampleProfileRequest\<lparr>prSubjectContext := Some exampleTwoSubject\<rparr>)) = Inr caps \<and>
     fmlookup caps ''component:view'' = Some cap \<and>
     profileAllows (\<lambda>e. evalCondition (\<lambda>_. None) e exampleEnv = evalAllow) cap ''ns/a/project/p'' \<and>
     \<not> permEnforce exampleCodec (\<lambda>_. None) exampleGroupings exampleTwoGroups ''groups:dev'' ''ns/a/project/p'' ''component:view'' ''{}'' \<and>
     \<not> permEnforce exampleCodec (\<lambda>_. None) exampleGroupings exampleTwoGroups ''groups:ops'' ''ns/a/project/p'' ''component:view'' ''{}''"
proof -
  let ?preq = "exampleProfileRequest\<lparr>prSubjectContext := Some exampleTwoSubject\<rparr>"
  note defs = exampleTwoGroups_def exampleTwoSubject_def exampleSubject_def exampleGroupings_def exampleProfileRequest_def
  have conds: "decodeConditions exampleCodec ''{}'' = Inr []"
    by (simp add: decodeConditions_def isPolicyConditionEmpty_def emptyContextJSON_def)
  have setting: "profiled exampleCodec (\<lambda>_. None) exampleGroupings exampleTwoGroups ?preq exampleTwoSubject
      ''component:view'' ''ns/a/project/p'' ''{}'' exampleEnv"
    using component_view_public conds
    by (simp add: profiled_def storeOk_def defs noEvalError_def condsOf_def policyInfoOf_def)
      (simp add: buildActivationForRequest_def exampleEnv_def exampleCodec_def)
  obtain caps where caps: "GetSubjectProfile exampleCodec (filteredPolicy exampleTwoGroups) (filteredGrouping exampleGroupings)
      (Some ?preq) = Inr caps"
    using profile_total[of ?preq exampleTwoSubject exampleTwoGroups exampleCodec] conds by (auto simp: defs)
  have plain: "plainPolicy exampleCodec exampleGroupings s ''component:view'' eff p \<longleftrightarrow> p ! 0 = s \<and> p ! 4 = eff"
    if "p \<in> set exampleTwoGroups" for s eff p
    using that conds by (auto simp: plainPolicy_def defs roleLink_def roleActionMatchWrapper_eq actionMatch_def suffix_def
        condsOf_def policyInfoOf_def filterConditionsByAction_def)
  from profile_overreports_common_denial[OF setting caps, of "''dev''" "''ops''" _ _ "exampleTwoGroups ! 0" "exampleTwoGroups ! 2"
      "exampleTwoGroups ! 1" "exampleTwoGroups ! 3", OF _ _ _ refl refl] caps
  show ?thesis
    by (simp add: plain) (simp add: exampleTwoGroups_def exampleTwoSubject_def exampleSubject_def resourceMatch_def)
qed

text \<open>C34: The profile misses a conditional denial of a broader scope, for a public action and when no condition fails to
  evaluate. Let an entitlement value allow a scope without
  conditions and deny the action only under conditions and only for scopes that are not inside the allowed
  one. Then the profile reports every resource of the allowed scope as allowed, also in a context in
  which a condition of a denial holds, so that enforcement rejects it.\<close>

theorem profile_misses_broader_conditional_denial:
  assumes setting: "profiled J C groupings policies preq sc a r ctx env"
    and profile: "GetSubjectProfile J (filteredPolicy policies) (filteredGrouping groupings) (Some preq) = Inr caps"
    and v: "v \<in> set (EntitlementValues sc)" "s = EntitlementClaim sc @ '':'' @ v"
    and allow: "p \<in> set policies" "plainPolicy J groupings s a ''allow'' p" "resourceMatch r (p ! 1)"
    and broader: "\<forall>d \<in> set policies. d ! 0 = s \<and> d ! 4 = ''deny'' \<and> roleLink groupings (d ! 2) a (d ! 3) \<longrightarrow>
      \<not> plainPolicy J groupings s a ''deny'' d \<and> \<not> resourceMatch (d ! 1) (p ! 1)"
    and deny: "d \<in> set policies" "policyMatches J C groupings s r a ctx d" "d ! 4 = ''deny''"
  shows "\<not> permEnforce J C groupings policies s r a ctx \<and>
    (\<exists>cap. fmlookup caps a = Some cap \<and> profileAllows (\<lambda>e. evalCondition C e env = evalAllow) cap r)"
  using setting profile
proof (rule profiled_entries)
  fix m
  assume m: "\<And>holds. (\<exists>cap. fmlookup caps a = Some cap \<and> profileAllows holds cap r) \<longleftrightarrow> profileAllows holds (resolveCapability m) r"
    "\<And>v p eff. v \<in> set (EntitlementValues sc) \<Longrightarrow> p \<in> set policies \<Longrightarrow> resourceMatch r (p ! 1) \<Longrightarrow>
      plainPolicy J groupings (EntitlementClaim sc @ '':'' @ v) a eff p \<Longrightarrow>
      fmlookup m (EntitlementClaim sc @ '':'' @ v, p ! 1, eff) = Some []"
    "\<And>s path eff x. fmlookup m (s, path, eff) = Some x \<Longrightarrow> \<exists>p \<in> set policies. p ! 0 = s \<and> p ! 1 = path \<and> p ! 4 = eff \<and>
      roleLink groupings (p ! 2) a (p ! 3) \<and> (x = [] \<longrightarrow> plainPolicy J groupings s a eff p)"
  have own: "\<not> resourceMatch path (p ! 1) \<and> x \<noteq> []" if "fmlookup m (s, path, ''deny'') = Some x" for path x
    using m(3)[OF that] broader by blast
  have "fmlookup m (s, p ! 1, ''allow'') = Some []"
    using m(2)[OF v(1) allow(1,3)] allow(2) v(2) by simp
  then have "profileAllows (\<lambda>e. evalCondition C e env = evalAllow) (resolveCapability m) r"
    by (rule resolve_plain_allow[OF _ _ allow(3)]) (use own in blast)+
  moreover have "\<not> permEnforce J C groupings policies s r a ctx"
    using deny by (auto simp: permEnforce_def PolicyEffectDeny_def)
  ultimately show ?thesis unfolding m(1) by blast
qed

text \<open>A group that has the project \<open>p\<close> of namespace \<open>a\<close>, with the logs of the whole namespace denied under a condition.\<close>

definition exampleLocked :: "policy list" where
  "exampleLocked = [[''groups:dev'', ''ns/a/project/p'', ''role'', ''*'', ''allow'', ''{}'', ''b''],
     [''groups:dev'', ''ns/a'', ''role'', ''*'', ''deny'', ''c'', ''c'']]"

definition exampleLogRole :: "string list list" where
  "exampleLogRole = [[''role'', ''logs:*'', ''*'']]"

lemma logs_view_public: "''logs:view'' \<in> actName ` set ConcretePublicActions"
proof -
  have "publicAction ''logs:view'' ScopeComponent \<in> set systemActions" by code_simp
  then show ?thesis
    by (force simp: ConcretePublicActions_def concretePublicActions_def publicAction_def image_iff)
qed

theorem profile_misses_broader_conditional_denial_witness:
  "let C = (\<lambda>_. Some (\<lambda>_. CelValue (JBool True)));
     env = buildCelActivation (the (unmarshalContext exampleCodec ''{}'')) (LookupConditions ''logs:view'')
   in \<exists>caps cap. GetSubjectProfile exampleCodec (filteredPolicy exampleLocked) (filteredGrouping exampleLogRole)
       (Some exampleProfileRequest) = Inr caps \<and> fmlookup caps ''logs:view'' = Some cap \<and>
     profileAllows (\<lambda>e. evalCondition C e env = evalAllow) cap ''ns/a/project/p'' \<and>
     \<not> permEnforce exampleCodec C exampleLogRole exampleLocked ''groups:dev'' ''ns/a/project/p'' ''logs:view'' ''{}''"
proof -
  let ?C = "(\<lambda>_. Some (\<lambda>_. CelValue (JBool True))) :: celCompiler"
  let ?env = "buildCelActivation (the (unmarshalContext exampleCodec ''{}'')) (LookupConditions ''logs:view'')"
  note defs = exampleLocked_def exampleLogRole_def exampleSubject_def exampleProfileRequest_def
  have conds: "decodeConditions exampleCodec ''{}'' = Inr []"
    "decodeConditions exampleCodec ''c'' = Inr [\<lparr>condActions = [''logs:*''], condExpression = ''e''\<rparr>]"
    by (simp_all add: decodeConditions_def isPolicyConditionEmpty_def emptyContextJSON_def exampleCodec_def)
  have env: "buildActivationForRequest exampleCodec ''{}'' ''logs:view'' = Some ?env"
    by (simp add: buildActivationForRequest_def exampleCodec_def)
  have setting: "profiled exampleCodec ?C exampleLogRole exampleLocked exampleProfileRequest exampleSubject
      ''logs:view'' ''ns/a/project/p'' ''{}'' ?env"
    using logs_view_public conds env
    by (simp add: profiled_def storeOk_def defs noEvalError_def condsOf_def policyInfoOf_def evalCondition_def)
  obtain caps where caps: "GetSubjectProfile exampleCodec (filteredPolicy exampleLocked) (filteredGrouping exampleLogRole)
      (Some exampleProfileRequest) = Inr caps"
    using profile_total[of exampleProfileRequest exampleSubject exampleLocked exampleCodec] conds by (auto simp: defs)
  have role: "roleLink exampleLogRole ''role'' ''logs:view'' ''*''" "actionMatch ''logs:view'' ''logs:*''"
    by (simp_all add: exampleLogRole_def roleLink_def roleActionMatchWrapper_eq actionMatch_def suffix_def)
  have "ConditionMatcher exampleCodec ?C ''{}'' ''logs:view'' ''c'' ''deny''"
    using role(2) by (simp add: ConditionMatcher_def isPolicyConditionEmpty_def emptyContextJSON_def exampleCodec_def
        filterConditionsByAction_def buildActivationForRequest_def anyConditionMatches_eq evalCondition_def)
  then have deny: "policyMatches exampleCodec ?C exampleLogRole ''groups:dev'' ''ns/a/project/p'' ''logs:view'' ''{}'' (exampleLocked ! 1)"
    using role(1) by (simp add: policyMatches_def exampleLocked_def resourceMatch_def)
  have plain: "plainPolicy exampleCodec exampleLogRole s ''logs:view'' eff p \<longleftrightarrow> p ! 0 = s \<and> p ! 4 = eff \<and> eff = ''allow''"
    if "p \<in> set exampleLocked" for s eff p
    using that conds role by (auto simp: plainPolicy_def exampleLocked_def condsOf_def policyInfoOf_def filterConditionsByAction_def)
  have facts: "''dev'' \<in> set (EntitlementValues exampleSubject)" "''groups:dev'' = EntitlementClaim exampleSubject @ '':'' @ ''dev''"
    "exampleLocked ! 0 \<in> set exampleLocked" "exampleLocked ! 1 \<in> set exampleLocked" "exampleLocked ! 1 ! 4 = ''deny''"
    "resourceMatch ''ns/a/project/p'' (exampleLocked ! 0 ! 1)"
    by (simp_all add: exampleSubject_def exampleLocked_def)
  have allow: "plainPolicy exampleCodec exampleLogRole ''groups:dev'' ''logs:view'' ''allow'' (exampleLocked ! 0)"
    unfolding plain[OF facts(3)] by (simp add: exampleLocked_def)
  have broader: "\<forall>d \<in> set exampleLocked. d ! 0 = ''groups:dev'' \<and> d ! 4 = ''deny'' \<and> roleLink exampleLogRole (d ! 2) ''logs:view'' (d ! 3) \<longrightarrow>
      \<not> plainPolicy exampleCodec exampleLogRole ''groups:dev'' ''logs:view'' ''deny'' d \<and> \<not> resourceMatch (d ! 1) (exampleLocked ! 0 ! 1)"
    using plain by (simp add: exampleLocked_def resourceMatch_def)
  show ?thesis
    using profile_misses_broader_conditional_denial[OF setting caps facts(1,2,3) allow facts(6) broader facts(4) deny facts(5)] caps
    unfolding Let_def by blast
qed

end
