(* ===== verification/Authz_Sync.thy ===== *)
theory Authz_Sync
  imports Authz_Pdp
begin

text \<open>
  Synchronisation of the policy store with the cluster:
  \<^verbatim>\<open>src/internal/authz/casbin/k8s_watcher.go\<close>, with the resource types of
  \<^verbatim>\<open>src/api/v1alpha1\<close> it reads.

  The store is the pair of tuple lists the Casbin enforcer holds; the calls that change it are a
  parameter \<open>casbinApi\<close> and take the store to a new store and a result. A handler returns the store
  and the error it reports; the event methods of the informer log the error and drop it. An object
  that reaches a handler is one of the four resources, a tombstone, or something else.
\<close>

subsection \<open>Resources\<close>

record ObjectMeta =
  omName :: string
  omNamespace :: string
  omGeneration :: int
  omLabels :: "(string, string) fmap"
  omAnnotations :: "(string, string) fmap"

record AuthzRoleSpec =
  rsActions :: "string list"
  rsDescription :: string

record AuthzRole =
  roleMeta :: ObjectMeta
  roleSpec :: AuthzRoleSpec

record ClusterAuthzRole =
  crMeta :: ObjectMeta
  crSpec :: AuthzRoleSpec

record RoleRef =
  rrKind :: string
  rrName :: string

record ClusterTargetScope =
  tsNamespace :: string
  tsProject :: string
  tsComponent :: string
  tsResource :: string

record TargetScope =
  scProject :: string
  scComponent :: string
  scResource :: string

record RoleMapping =
  rmRoleRef :: RoleRef
  rmScope :: TargetScope
  rmConditions :: "AuthzCondition list"

record ClusterRoleMapping =
  cmRoleRef :: RoleRef
  cmScope :: ClusterTargetScope
  cmConditions :: "AuthzCondition list"

record AuthzRoleBinding =
  bMeta :: ObjectMeta
  bClaim :: string
  bValue :: string
  bRoleMappings :: "RoleMapping list"
  bEffect :: string

record ClusterAuthzRoleBinding =
  cbMeta :: ObjectMeta
  cbClaim :: string
  cbValue :: string
  cbRoleMappings :: "ClusterRoleMapping list"
  cbEffect :: string

datatype authzObject =
    ObjRole AuthzRole
  | ObjClusterRole ClusterAuthzRole
  | ObjBinding AuthzRoleBinding
  | ObjClusterBinding ClusterAuthzRoleBinding
  | DeletedFinalStateUnknown authzObject
  | ObjOther

definition CRDTypeAuthzRole :: string where "CRDTypeAuthzRole = ''AuthzRole''"
definition CRDTypeClusterAuthzRole :: string where "CRDTypeClusterAuthzRole = ''ClusterAuthzRole''"
definition CRDTypeAuthzRoleBinding :: string where "CRDTypeAuthzRoleBinding = ''AuthzRoleBinding''"
definition CRDTypeClusterAuthzRoleBinding :: string where
  "CRDTypeClusterAuthzRoleBinding = ''ClusterAuthzRoleBinding''"

subsection \<open>The enforcer\<close>

record casbinStore =
  groupings :: "string list list"
  policies :: "policy list"

type_synonym storeCall = "casbinStore \<times> (string, bool) result"

record casbinApi =
  AddGroupingPoliciesEx :: "casbinStore \<Rightarrow> string list list \<Rightarrow> storeCall"
  AddGroupingPolicy :: "casbinStore \<Rightarrow> string list \<Rightarrow> storeCall"
  RemoveGroupingPolicy :: "casbinStore \<Rightarrow> string list \<Rightarrow> storeCall"
  AddPoliciesEx :: "casbinStore \<Rightarrow> policy list \<Rightarrow> storeCall"
  RemovePolicies :: "casbinStore \<Rightarrow> policy list \<Rightarrow> storeCall"

datatype syncError =
    SubjectInvalid authzError
  | EffectNotSpecified string
  | EnforcerFailed string

type_synonym handled = "casbinStore \<times> syncError option"

definition handledCall :: "storeCall \<Rightarrow> handled" where
  "handledCall c = (fst c, case snd c of Inl err \<Rightarrow> Some (EnforcerFailed err) | Inr _ \<Rightarrow> None)"

subsection \<open>Tuples of a resource\<close>

definition bindingRule :: "codec \<Rightarrow> AuthzRoleBinding \<Rightarrow> string \<Rightarrow> RoleMapping \<Rightarrow> policy" where
  "bindingRule J binding subject mapping =
     [subject,
      resourceHierarchyToPath
        \<lparr>hNamespace = omNamespace (bMeta binding), hProject = scProject (rmScope mapping),
         hComponent = scComponent (rmScope mapping), hResource = scResource (rmScope mapping)\<rparr>,
      rrName (rmRoleRef mapping),
      if rrKind (rmRoleRef mapping) = CRDTypeClusterAuthzRole then ''*'' else omNamespace (bMeta binding),
      bEffect binding,
      serializeAuthzConditions J (rmConditions mapping),
      omName (bMeta binding)]"

definition bindingRules :: "codec \<Rightarrow> AuthzRoleBinding \<Rightarrow> (syncError, policy list) result" where
  "bindingRules J binding =
     (case formatSubject (bClaim binding) (bValue binding) of
        Inl err \<Rightarrow> Inl (SubjectInvalid err)
      | Inr subject \<Rightarrow>
          if bEffect binding = [] then Inl (EffectNotSpecified (omName (bMeta binding)))
          else Inr (map (bindingRule J binding subject) (bRoleMappings binding)))"

definition clusterBindingRule :: "codec \<Rightarrow> ClusterAuthzRoleBinding \<Rightarrow> string \<Rightarrow> ClusterRoleMapping \<Rightarrow> policy" where
  "clusterBindingRule J binding subject mapping =
     [subject,
      resourceHierarchyToPath
        \<lparr>hNamespace = tsNamespace (cmScope mapping), hProject = tsProject (cmScope mapping),
         hComponent = tsComponent (cmScope mapping), hResource = tsResource (cmScope mapping)\<rparr>,
      rrName (cmRoleRef mapping), ''*'', cbEffect binding,
      serializeAuthzConditions J (cmConditions mapping),
      omName (cbMeta binding)]"

definition clusterBindingRules :: "codec \<Rightarrow> ClusterAuthzRoleBinding \<Rightarrow> (syncError, policy list) result" where
  "clusterBindingRules J binding =
     (case formatSubject (cbClaim binding) (cbValue binding) of
        Inl err \<Rightarrow> Inl (SubjectInvalid err)
      | Inr subject \<Rightarrow>
          if cbEffect binding = [] then Inl (EffectNotSpecified (omName (cbMeta binding)))
          else Inr (map (clusterBindingRule J binding subject) (cbRoleMappings binding)))"

subsection \<open>Additions\<close>

definition handleAddRole :: "casbinApi \<Rightarrow> authzObject \<Rightarrow> casbinStore \<Rightarrow> handled" where
  "handleAddRole E obj st =
     (case obj of
        ObjRole role \<Rightarrow>
          handledCall (AddGroupingPoliciesEx E st
            (map (\<lambda>action. [omName (roleMeta role), action, omNamespace (roleMeta role)])
              (rsActions (roleSpec role))))
      | _ \<Rightarrow> (st, None))"

definition handleAddClusterRole :: "casbinApi \<Rightarrow> authzObject \<Rightarrow> casbinStore \<Rightarrow> handled" where
  "handleAddClusterRole E obj st =
     (case obj of
        ObjClusterRole role \<Rightarrow>
          handledCall (AddGroupingPoliciesEx E st
            (map (\<lambda>action. [omName (crMeta role), action, ''*'']) (rsActions (crSpec role))))
      | _ \<Rightarrow> (st, None))"

definition handleAddBinding :: "casbinApi \<Rightarrow> codec \<Rightarrow> authzObject \<Rightarrow> casbinStore \<Rightarrow> handled" where
  "handleAddBinding E J obj st =
     (case obj of
        ObjBinding binding \<Rightarrow>
          (case bindingRules J binding of
             Inl err \<Rightarrow> (st, Some err)
           | Inr rules \<Rightarrow> handledCall (AddPoliciesEx E st rules))
      | _ \<Rightarrow> (st, None))"

definition handleAddClusterBinding :: "casbinApi \<Rightarrow> codec \<Rightarrow> authzObject \<Rightarrow> casbinStore \<Rightarrow> handled" where
  "handleAddClusterBinding E J obj st =
     (case obj of
        ObjClusterBinding binding \<Rightarrow>
          (case clusterBindingRules J binding of
             Inl err \<Rightarrow> (st, Some err)
           | Inr rules \<Rightarrow> handledCall (AddPoliciesEx E st rules))
      | _ \<Rightarrow> (st, None))"

definition handleAdd :: "casbinApi \<Rightarrow> codec \<Rightarrow> string \<Rightarrow> authzObject \<Rightarrow> casbinStore \<Rightarrow> handled" where
  "handleAdd E J crdType obj st =
     (if crdType = CRDTypeAuthzRole then handleAddRole E obj st
      else if crdType = CRDTypeClusterAuthzRole then handleAddClusterRole E obj st
      else if crdType = CRDTypeAuthzRoleBinding then handleAddBinding E J obj st
      else if crdType = CRDTypeClusterAuthzRoleBinding then handleAddClusterBinding E J obj st
      else (st, None))"

subsection \<open>Updates\<close>

text \<open>The update of a namespaced role logs the errors of the enforcer and goes on.\<close>

definition handleUpdateRole :: "casbinApi \<Rightarrow> authzObject \<Rightarrow> authzObject \<Rightarrow> casbinStore \<Rightarrow> handled" where
  "handleUpdateRole E oldObj newObj st =
     (case (oldObj, newObj) of
        (ObjRole old, ObjRole new) \<Rightarrow>
          if omGeneration (roleMeta old) = omGeneration (roleMeta new) then (st, None)
          else let (addedActions, removedActions) =
                     computeActionsDiff (rsActions (roleSpec old)) (rsActions (roleSpec new));
                   st1 = foldl (\<lambda>s action. fst (RemoveGroupingPolicy E s
                           [omName (roleMeta old), action, omNamespace (roleMeta old)])) st removedActions;
                   st2 = foldl (\<lambda>s action. fst (AddGroupingPolicy E s
                           [omName (roleMeta new), action, omNamespace (roleMeta new)])) st1 addedActions
               in (st2, None)
      | _ \<Rightarrow> (st, None))"

text \<open>Loops over actions that return the first error of the enforcer.\<close>

fun eachAction ::
    "(casbinStore \<Rightarrow> string list \<Rightarrow> storeCall) \<Rightarrow> string \<Rightarrow> string \<Rightarrow> string list \<Rightarrow> casbinStore \<Rightarrow> handled" where
  "eachAction call name ns [] st = (st, None)"
| "eachAction call name ns (action # actions) st =
     (case handledCall (call st [name, action, ns]) of
        (st', Some err) \<Rightarrow> (st', Some err)
      | (st', None) \<Rightarrow> eachAction call name ns actions st')"

definition handleUpdateClusterRole :: "casbinApi \<Rightarrow> authzObject \<Rightarrow> authzObject \<Rightarrow> casbinStore \<Rightarrow> handled" where
  "handleUpdateClusterRole E oldObj newObj st =
     (case (oldObj, newObj) of
        (ObjClusterRole old, ObjClusterRole new) \<Rightarrow>
          if omGeneration (crMeta old) = omGeneration (crMeta new) then (st, None)
          else let (addedActions, removedActions) =
                     computeActionsDiff (rsActions (crSpec old)) (rsActions (crSpec new))
               in (case eachAction (RemoveGroupingPolicy E) (omName (crMeta old)) ''*'' removedActions st of
                     (st1, Some err) \<Rightarrow> (st1, Some err)
                   | (st1, None) \<Rightarrow>
                       eachAction (AddGroupingPolicy E) (omName (crMeta new)) ''*'' addedActions st1)
      | _ \<Rightarrow> (st, None))"

text \<open>The delta of two lists of tuples: removals first, each call only where there is something to do.\<close>

definition applyPolicyDiff :: "casbinApi \<Rightarrow> policy list \<Rightarrow> policy list \<Rightarrow> casbinStore \<Rightarrow> handled" where
  "applyPolicyDiff E oldPolicies newPolicies st =
     (let (added, removed) = computePolicyDiff oldPolicies newPolicies;
          (st1, err1) = (if removed \<noteq> [] then handledCall (RemovePolicies E st removed) else (st, None))
      in case err1 of
           Some err \<Rightarrow> (st1, Some err)
         | None \<Rightarrow> if added \<noteq> [] then handledCall (AddPoliciesEx E st1 added) else (st1, None))"

definition handleUpdateBinding :: "casbinApi \<Rightarrow> codec \<Rightarrow> authzObject \<Rightarrow> authzObject \<Rightarrow> casbinStore \<Rightarrow> handled" where
  "handleUpdateBinding E J oldObj newObj st =
     (case (oldObj, newObj) of
        (ObjBinding old, ObjBinding new) \<Rightarrow>
          if omGeneration (bMeta old) = omGeneration (bMeta new) then (st, None)
          else (case bindingRules J old of
                  Inl err \<Rightarrow> (st, Some err)
                | Inr oldPolicies \<Rightarrow>
                    (case bindingRules J new of
                       Inl err \<Rightarrow> (st, Some err)
                     | Inr newPolicies \<Rightarrow> applyPolicyDiff E oldPolicies newPolicies st))
      | _ \<Rightarrow> (st, None))"

definition handleUpdateClusterBinding ::
    "casbinApi \<Rightarrow> codec \<Rightarrow> authzObject \<Rightarrow> authzObject \<Rightarrow> casbinStore \<Rightarrow> handled" where
  "handleUpdateClusterBinding E J oldObj newObj st =
     (case (oldObj, newObj) of
        (ObjClusterBinding old, ObjClusterBinding new) \<Rightarrow>
          if omGeneration (cbMeta old) = omGeneration (cbMeta new) then (st, None)
          else (case clusterBindingRules J old of
                  Inl err \<Rightarrow> (st, Some err)
                | Inr oldPolicies \<Rightarrow>
                    (case clusterBindingRules J new of
                       Inl err \<Rightarrow> (st, Some err)
                     | Inr newPolicies \<Rightarrow> applyPolicyDiff E oldPolicies newPolicies st))
      | _ \<Rightarrow> (st, None))"

definition handleUpdate ::
    "casbinApi \<Rightarrow> codec \<Rightarrow> string \<Rightarrow> authzObject \<Rightarrow> authzObject \<Rightarrow> casbinStore \<Rightarrow> handled" where
  "handleUpdate E J crdType oldObj newObj st =
     (if crdType = CRDTypeAuthzRole then handleUpdateRole E oldObj newObj st
      else if crdType = CRDTypeClusterAuthzRole then handleUpdateClusterRole E oldObj newObj st
      else if crdType = CRDTypeAuthzRoleBinding then handleUpdateBinding E J oldObj newObj st
      else if crdType = CRDTypeClusterAuthzRoleBinding then handleUpdateClusterBinding E J oldObj newObj st
      else (st, None))"

subsection \<open>Deletions\<close>

definition handleDeleteRole :: "casbinApi \<Rightarrow> authzObject \<Rightarrow> casbinStore \<Rightarrow> handled" where
  "handleDeleteRole E obj st =
     (case obj of
        ObjRole role \<Rightarrow>
          eachAction (RemoveGroupingPolicy E) (omName (roleMeta role)) (omNamespace (roleMeta role))
            (rsActions (roleSpec role)) st
      | _ \<Rightarrow> (st, None))"

definition handleDeleteClusterRole :: "casbinApi \<Rightarrow> authzObject \<Rightarrow> casbinStore \<Rightarrow> handled" where
  "handleDeleteClusterRole E obj st =
     (case obj of
        ObjClusterRole role \<Rightarrow>
          eachAction (RemoveGroupingPolicy E) (omName (crMeta role)) ''*'' (rsActions (crSpec role)) st
      | _ \<Rightarrow> (st, None))"

definition handleDeleteBinding :: "casbinApi \<Rightarrow> codec \<Rightarrow> authzObject \<Rightarrow> casbinStore \<Rightarrow> handled" where
  "handleDeleteBinding E J obj st =
     (case obj of
        ObjBinding binding \<Rightarrow>
          (case bindingRules J binding of
             Inl err \<Rightarrow> (st, Some err)
           | Inr rules \<Rightarrow> handledCall (RemovePolicies E st rules))
      | _ \<Rightarrow> (st, None))"

definition handleDeleteClusterBinding :: "casbinApi \<Rightarrow> codec \<Rightarrow> authzObject \<Rightarrow> casbinStore \<Rightarrow> handled" where
  "handleDeleteClusterBinding E J obj st =
     (case obj of
        ObjClusterBinding binding \<Rightarrow>
          (case clusterBindingRules J binding of
             Inl err \<Rightarrow> (st, Some err)
           | Inr rules \<Rightarrow> handledCall (RemovePolicies E st rules))
      | _ \<Rightarrow> (st, None))"

definition handleDelete :: "casbinApi \<Rightarrow> codec \<Rightarrow> string \<Rightarrow> authzObject \<Rightarrow> casbinStore \<Rightarrow> handled" where
  "handleDelete E J crdType obj0 st =
     (let obj = (case obj0 of DeletedFinalStateUnknown obj \<Rightarrow> obj | _ \<Rightarrow> obj0)
      in if crdType = CRDTypeAuthzRole then handleDeleteRole E obj st
         else if crdType = CRDTypeClusterAuthzRole then handleDeleteClusterRole E obj st
         else if crdType = CRDTypeAuthzRoleBinding then handleDeleteBinding E J obj st
         else if crdType = CRDTypeClusterAuthzRoleBinding then handleDeleteClusterBinding E J obj st
         else (st, None))"

subsection \<open>The event handler\<close>

definition OnAdd :: "casbinApi \<Rightarrow> codec \<Rightarrow> string \<Rightarrow> authzObject \<Rightarrow> casbinStore \<Rightarrow> casbinStore" where
  "OnAdd E J crdType obj st = fst (handleAdd E J crdType obj st)"

definition OnUpdate ::
    "casbinApi \<Rightarrow> codec \<Rightarrow> string \<Rightarrow> authzObject \<Rightarrow> authzObject \<Rightarrow> casbinStore \<Rightarrow> casbinStore" where
  "OnUpdate E J crdType oldObj newObj st = fst (handleUpdate E J crdType oldObj newObj st)"

definition OnDelete :: "casbinApi \<Rightarrow> codec \<Rightarrow> string \<Rightarrow> authzObject \<Rightarrow> casbinStore \<Rightarrow> casbinStore" where
  "OnDelete E J crdType obj st = fst (handleDelete E J crdType obj st)"

end
