(* ===== verification/Authz_Sync_Facts.thy ===== *)
theory Authz_Sync_Facts
  imports Authz_Sync Authz_Pdp_Facts
begin

text \<open>
  Incremental synchronisation equals a rebuild. The cluster is a map of live objects that changes by
  creation, update and deletion; the informer delivers each change to the handlers. As long as no
  cluster-wide and namespaced binding share a name and no update makes a binding readable or unreadable,
  the store holds in every reachable state exactly the tuples of the live objects. The last two
  subsections show what the handlers do in the two excluded cases: a grant that is still declared is
  revoked, a corrected binding is not enforced, and a revoked grant stays.
\<close>

subsection \<open>Laws of the enforcer\<close>

text \<open>
  What Casbin documents about the calls. A removal of policies is only described where all of them
  are stored: whether others are skipped or make the call a no-op differs between versions.
\<close>

locale casbin_store =
  fixes E :: casbinApi
  assumes add_groupings: "AddGroupingPoliciesEx E st rules = (st', res) \<Longrightarrow>
      (\<exists>b. res = Inr b) \<and> set (groupings st') = set (groupings st) \<union> set rules \<and> policies st' = policies st"
    and add_grouping: "AddGroupingPolicy E st rule = (st', res) \<Longrightarrow>
      (\<exists>b. res = Inr b) \<and> set (groupings st') = insert rule (set (groupings st)) \<and> policies st' = policies st"
    and remove_grouping: "RemoveGroupingPolicy E st rule = (st', res) \<Longrightarrow>
      (\<exists>b. res = Inr b) \<and> set (groupings st') = set (groupings st) - {rule} \<and> policies st' = policies st"
    and add_policies: "AddPoliciesEx E st rules = (st', res) \<Longrightarrow>
      (\<exists>b. res = Inr b) \<and> set (policies st') = set (policies st) \<union> set rules \<and> groupings st' = groupings st"
    and remove_policies: "set rules \<subseteq> set (policies st) \<Longrightarrow> RemovePolicies E st rules = (st', res) \<Longrightarrow>
      (\<exists>b. res = Inr b) \<and> set (policies st') = set (policies st) - set rules \<and> groupings st' = groupings st"

subsection \<open>Declared tuples\<close>

definition groupRules :: "authzObject \<Rightarrow> string list list" where
  "groupRules obj =
     (case obj of
        ObjRole role \<Rightarrow> map (\<lambda>a. [omName (roleMeta role), a, omNamespace (roleMeta role)]) (rsActions (roleSpec role))
      | ObjClusterRole role \<Rightarrow> map (\<lambda>a. [omName (crMeta role), a, ''*'']) (rsActions (crSpec role))
      | _ \<Rightarrow> [])"

definition policyRules :: "codec \<Rightarrow> authzObject \<Rightarrow> policy list" where
  "policyRules J obj =
     (case obj of
        ObjBinding b \<Rightarrow> (case bindingRules J b of Inl _ \<Rightarrow> [] | Inr rules \<Rightarrow> rules)
      | ObjClusterBinding b \<Rightarrow> (case clusterBindingRules J b of Inl _ \<Rightarrow> [] | Inr rules \<Rightarrow> rules)
      | _ \<Rightarrow> [])"

definition objType :: "authzObject \<Rightarrow> string" where
  "objType obj =
     (case obj of
        ObjRole _ \<Rightarrow> CRDTypeAuthzRole
      | ObjClusterRole _ \<Rightarrow> CRDTypeClusterAuthzRole
      | ObjBinding _ \<Rightarrow> CRDTypeAuthzRoleBinding
      | ObjClusterBinding _ \<Rightarrow> CRDTypeClusterAuthzRoleBinding
      | _ \<Rightarrow> [])"

definition objMeta :: "authzObject \<Rightarrow> ObjectMeta option" where
  "objMeta obj =
     (case obj of
        ObjRole r \<Rightarrow> Some (roleMeta r)
      | ObjClusterRole r \<Rightarrow> Some (crMeta r)
      | ObjBinding b \<Rightarrow> Some (bMeta b)
      | ObjClusterBinding b \<Rightarrow> Some (cbMeta b)
      | _ \<Rightarrow> None)"

text \<open>
  A binding whose tuples can be built: its claim, value and effect are not empty. The schema requires the
  fields but admits empty strings, so that a binding in the cluster need not be readable.
\<close>

definition readable :: "codec \<Rightarrow> authzObject \<Rightarrow> bool" where
  "readable J obj =
     (case obj of
        ObjBinding b \<Rightarrow> \<not> isl (bindingRules J b)
      | ObjClusterBinding b \<Rightarrow> \<not> isl (clusterBindingRules J b)
      | _ \<Rightarrow> True)"

text \<open>
  Resources under the names Kubernetes gives out: a namespace is never \<open>*\<close> and has no slash, a cluster-scoped
  object has none. No field of a tuple has a NUL byte, with which the difference of two versions joins
  the fields of a tuple. Readable or not, and whatever its scopes are, a binding qualifies.
\<close>

definition wfObject :: "codec \<Rightarrow> authzObject \<Rightarrow> bool" where
  "wfObject J obj \<longleftrightarrow>
     wfPolicies (policyRules J obj) \<and>
     (case obj of
        ObjRole r \<Rightarrow> omNamespace (roleMeta r) \<noteq> ''*''
      | ObjClusterRole r \<Rightarrow> omNamespace (crMeta r) = []
      | ObjBinding b \<Rightarrow>
          omNamespace (bMeta b) \<noteq> [] \<and> omNamespace (bMeta b) \<noteq> ''*'' \<and> CHR ''/'' \<notin> set (omNamespace (bMeta b))
      | ObjClusterBinding b \<Rightarrow> omNamespace (cbMeta b) = []
      | _ \<Rightarrow> False)"

type_synonym objectKey = "string \<times> string \<times> string"

definition objKey :: "authzObject \<Rightarrow> objectKey" where
  "objKey obj = (objType obj, case objMeta obj of None \<Rightarrow> ([], []) | Some m \<Rightarrow> (omNamespace m, omName m))"

definition sameGeneration :: "authzObject \<Rightarrow> authzObject \<Rightarrow> bool" where
  "sameGeneration old new \<longleftrightarrow> map_option omGeneration (objMeta old) = map_option omGeneration (objMeta new)"

definition sameSpec :: "authzObject \<Rightarrow> authzObject \<Rightarrow> bool" where
  "sameSpec old new =
     (case (old, new) of
        (ObjRole a, ObjRole b) \<Rightarrow> roleSpec a = roleSpec b
      | (ObjClusterRole a, ObjClusterRole b) \<Rightarrow> crSpec a = crSpec b
      | (ObjBinding a, ObjBinding b) \<Rightarrow>
          bClaim a = bClaim b \<and> bValue a = bValue b \<and> bRoleMappings a = bRoleMappings b \<and> bEffect a = bEffect b
      | (ObjClusterBinding a, ObjClusterBinding b) \<Rightarrow>
          cbClaim a = cbClaim b \<and> cbValue a = cbValue b \<and> cbRoleMappings a = cbRoleMappings b \<and> cbEffect a = cbEffect b
      | _ \<Rightarrow> False)"

lemma sameSpec_rules:
  assumes "objKey old = objKey new" and "sameSpec old new"
  shows "groupRules new = groupRules old \<and> policyRules J new = policyRules J old"
  using assms
  by (cases old; cases new) (auto simp: sameSpec_def objKey_def objMeta_def groupRules_def policyRules_def
      bindingRules_def bindingRule_def clusterBindingRules_def clusterBindingRule_def split: sum.splits)

lemma crdTypes_distinct [simp]:
  "CRDTypeAuthzRole \<noteq> CRDTypeClusterAuthzRole" "CRDTypeAuthzRole \<noteq> CRDTypeAuthzRoleBinding"
  "CRDTypeAuthzRole \<noteq> CRDTypeClusterAuthzRoleBinding" "CRDTypeClusterAuthzRole \<noteq> CRDTypeAuthzRole"
  "CRDTypeClusterAuthzRole \<noteq> CRDTypeAuthzRoleBinding" "CRDTypeClusterAuthzRole \<noteq> CRDTypeClusterAuthzRoleBinding"
  "CRDTypeAuthzRoleBinding \<noteq> CRDTypeAuthzRole" "CRDTypeAuthzRoleBinding \<noteq> CRDTypeClusterAuthzRole"
  "CRDTypeAuthzRoleBinding \<noteq> CRDTypeClusterAuthzRoleBinding" "CRDTypeClusterAuthzRoleBinding \<noteq> CRDTypeAuthzRole"
  "CRDTypeClusterAuthzRoleBinding \<noteq> CRDTypeClusterAuthzRole" "CRDTypeClusterAuthzRoleBinding \<noteq> CRDTypeAuthzRoleBinding"
  by (simp_all add: CRDTypeAuthzRole_def CRDTypeClusterAuthzRole_def CRDTypeAuthzRoleBinding_def
      CRDTypeClusterAuthzRoleBinding_def)

lemma crdTypes_nonempty [simp]:
  "CRDTypeAuthzRole \<noteq> []" "CRDTypeClusterAuthzRole \<noteq> []" "CRDTypeAuthzRoleBinding \<noteq> []"
  "CRDTypeClusterAuthzRoleBinding \<noteq> []" "[] \<noteq> CRDTypeAuthzRole" "[] \<noteq> CRDTypeClusterAuthzRole"
  "[] \<noteq> CRDTypeAuthzRoleBinding" "[] \<noteq> CRDTypeClusterAuthzRoleBinding"
  by (simp_all add: CRDTypeAuthzRole_def CRDTypeClusterAuthzRole_def CRDTypeAuthzRoleBinding_def
      CRDTypeClusterAuthzRoleBinding_def)

lemma wfObject_cases:
  assumes "wfObject J obj"
  obtains (role) r where "obj = ObjRole r"
  | (clusterRole) r where "obj = ObjClusterRole r"
  | (binding) b rules where "obj = ObjBinding b" and "bindingRules J b = Inr rules"
  | (clusterBinding) b rules where "obj = ObjClusterBinding b" and "clusterBindingRules J b = Inr rules"
  | (unreadable) "\<not> readable J obj"
proof (cases "readable J obj")
  case True
  with assms that(1-4) show ?thesis
    by (cases obj) (simp_all add: wfObject_def readable_def isl_def, metis sum.exhaust, metis sum.exhaust)
qed (rule that(5))

lemma unreadable_cases:
  assumes "\<not> readable J obj"
  obtains (binding) b err where "obj = ObjBinding b" and "bindingRules J b = Inl err"
  | (clusterBinding) b err where "obj = ObjClusterBinding b" and "clusterBindingRules J b = Inl err"
  using assms by (cases obj) (auto simp: readable_def isl_def)

lemma unreadable_rules: "\<not> readable J obj \<Longrightarrow> groupRules obj = [] \<and> policyRules J obj = []"
  by (cases rule: unreadable_cases) (auto simp: groupRules_def policyRules_def)

lemma sameKey:
  assumes "wfObject J old"
  shows "objKey old = objKey (ObjRole r) \<Longrightarrow> \<exists>q. old = ObjRole q \<and>
      omName (roleMeta q) = omName (roleMeta r) \<and> omNamespace (roleMeta q) = omNamespace (roleMeta r)"
    and "objKey old = objKey (ObjClusterRole cr) \<Longrightarrow> \<exists>q. old = ObjClusterRole q \<and> omName (crMeta q) = omName (crMeta cr)"
    and "objKey old = objKey (ObjBinding b) \<Longrightarrow> readable J old \<Longrightarrow>
      \<exists>q rules. old = ObjBinding q \<and> bindingRules J q = Inr rules"
    and "objKey old = objKey (ObjClusterBinding cb) \<Longrightarrow> readable J old \<Longrightarrow>
      \<exists>q rules. old = ObjClusterBinding q \<and> clusterBindingRules J q = Inr rules"
  using assms by (cases old; auto simp: objKey_def objType_def objMeta_def wfObject_def readable_def isl_def; metis sum.exhaust)+

subsection \<open>What a handler does to the store\<close>

context casbin_store
begin

lemma onAdd:
  assumes "wfObject J obj"
  shows "set (groupings (OnAdd E J (objType obj) obj st)) = set (groupings st) \<union> set (groupRules obj) \<and>
    set (policies (OnAdd E J (objType obj) obj st)) = set (policies st) \<union> set (policyRules J obj)"
  using assms
proof (cases rule: wfObject_cases)
  case (role r)
  then show ?thesis
    using add_groupings[OF prod.collapse[symmetric]]
    by (simp add: OnAdd_def handleAdd_def handleAddRole_def handledCall_def objType_def groupRules_def policyRules_def)
next
  case (clusterRole r)
  then show ?thesis
    using add_groupings[OF prod.collapse[symmetric]]
    by (simp add: OnAdd_def handleAdd_def handleAddClusterRole_def handledCall_def objType_def groupRules_def policyRules_def)
next
  case (binding b rules)
  then show ?thesis
    using add_policies[OF prod.collapse[symmetric]]
    by (simp add: OnAdd_def handleAdd_def handleAddBinding_def handledCall_def objType_def groupRules_def policyRules_def)
next
  case (clusterBinding b rules)
  then show ?thesis
    using add_policies[OF prod.collapse[symmetric]]
    by (simp add: OnAdd_def handleAdd_def handleAddClusterBinding_def handledCall_def objType_def groupRules_def policyRules_def)
next
  case unreadable
  then show ?thesis
    by (cases rule: unreadable_cases)
      (simp_all add: OnAdd_def handleAdd_def handleAddBinding_def handleAddClusterBinding_def objType_def groupRules_def policyRules_def)
qed

lemma eachAction_remove:
  "\<exists>st'. eachAction (RemoveGroupingPolicy E) name ns as st = (st', None) \<and>
    set (groupings st') = set (groupings st) - (\<lambda>a. [name, a, ns]) ` set as \<and> policies st' = policies st"
proof (induction "as" arbitrary: st)
  case Nil
  then show ?case by simp
next
  case (Cons a "as")
  obtain st1 res where call: "RemoveGroupingPolicy E st [name, a, ns] = (st1, res)" by fastforce
  with remove_grouping obtain b where "res = Inr b" by blast
  with Cons.IH[of st1] remove_grouping[OF call] call show ?case
    by (auto simp: handledCall_def)
qed

lemma eachAction_add:
  "\<exists>st'. eachAction (AddGroupingPolicy E) name ns as st = (st', None) \<and>
    set (groupings st') = set (groupings st) \<union> (\<lambda>a. [name, a, ns]) ` set as \<and> policies st' = policies st"
proof (induction "as" arbitrary: st)
  case Nil
  then show ?case by simp
next
  case (Cons a "as")
  obtain st1 res where call: "AddGroupingPolicy E st [name, a, ns] = (st1, res)" by fastforce
  with add_grouping obtain b where "res = Inr b" by blast
  with Cons.IH[of st1] add_grouping[OF call] call show ?case
    by (auto simp: handledCall_def)
qed

lemma foldl_remove:
  "set (groupings (foldl (\<lambda>s a. fst (RemoveGroupingPolicy E s [name, a, ns])) st as)) =
     set (groupings st) - (\<lambda>a. [name, a, ns]) ` set as \<and>
   policies (foldl (\<lambda>s a. fst (RemoveGroupingPolicy E s [name, a, ns])) st as) = policies st"
  by (induction "as" arbitrary: st) (use remove_grouping[OF prod.collapse[symmetric]] in auto)

lemma foldl_add:
  "set (groupings (foldl (\<lambda>s a. fst (AddGroupingPolicy E s [name, a, ns])) st as)) =
     set (groupings st) \<union> (\<lambda>a. [name, a, ns]) ` set as \<and>
   policies (foldl (\<lambda>s a. fst (AddGroupingPolicy E s [name, a, ns])) st as) = policies st"
  by (induction "as" arbitrary: st) (use add_grouping[OF prod.collapse[symmetric]] in auto)

lemma onDelete:
  assumes "wfObject J obj" and "set (policyRules J obj) \<subseteq> set (policies st)"
    and "delivered = obj \<or> delivered = DeletedFinalStateUnknown obj"
  shows "set (groupings (OnDelete E J (objType obj) delivered st)) = set (groupings st) - set (groupRules obj) \<and>
    set (policies (OnDelete E J (objType obj) delivered st)) = set (policies st) - set (policyRules J obj)"
proof -
  have unwrap: "(case delivered of DeletedFinalStateUnknown obj \<Rightarrow> obj | _ \<Rightarrow> delivered) = obj"
    using assms(1,3) by (cases obj) (auto simp: wfObject_def)
  show ?thesis
    using assms(1)
  proof (cases rule: wfObject_cases)
    case (role r)
    then show ?thesis
      using eachAction_remove[of "omName (roleMeta r)" "omNamespace (roleMeta r)" "rsActions (roleSpec r)" st] unwrap
      by (auto simp: OnDelete_def handleDelete_def handleDeleteRole_def objType_def groupRules_def policyRules_def)
  next
    case (clusterRole r)
    then show ?thesis
      using eachAction_remove[of "omName (crMeta r)" "''*''" "rsActions (crSpec r)" st] unwrap
      by (auto simp: OnDelete_def handleDelete_def handleDeleteClusterRole_def objType_def groupRules_def policyRules_def)
  next
    case (binding b rules)
    then show ?thesis
      using remove_policies[OF _ prod.collapse[symmetric], of rules st] unwrap assms(2)
      by (simp add: OnDelete_def handleDelete_def handleDeleteBinding_def handledCall_def objType_def groupRules_def policyRules_def)
  next
    case (clusterBinding b rules)
    then show ?thesis
      using remove_policies[OF _ prod.collapse[symmetric], of rules st] unwrap assms(2)
      by (simp add: OnDelete_def handleDelete_def handleDeleteClusterBinding_def handledCall_def objType_def groupRules_def policyRules_def)
  next
    case unreadable
    then show ?thesis
      using unwrap by (cases rule: unreadable_cases)
        (simp_all add: OnDelete_def handleDelete_def handleDeleteBinding_def handleDeleteClusterBinding_def objType_def
          groupRules_def policyRules_def)
  qed
qed

lemma applyPolicyDiff_ok:
  assumes "wfPolicies old" "wfPolicies new" "set old \<subseteq> set (policies st)"
  shows "groupings (fst (applyPolicyDiff E old new st)) = groupings st \<and>
    set (policies (fst (applyPolicyDiff E old new st))) = (set (policies st) - (set old - set new)) \<union> (set new - set old)"
proof -
  obtain added removed where diff: "computePolicyDiff old new = (added, removed)" by fastforce
  then have sets: "set added = set new - set old" "set removed = set old - set new"
    using policyDiff_side[OF assms(1,2)] policyDiff_side[OF assms(2,1)] by (auto simp: computePolicyDiff_def Let_def)
  define c1 where "c1 = (if removed \<noteq> [] then handledCall (RemovePolicies E st removed) else (st, None))"
  obtain st1 err1 where c1: "c1 = (st1, err1)" by fastforce
  have st1: "err1 = None \<and> groupings st1 = groupings st \<and> set (policies st1) = set (policies st) - set removed"
    using remove_policies[OF _ prod.collapse[symmetric], of removed st] sets(2) assms(3) c1
    by (auto simp: c1_def handledCall_def split: if_splits sum.splits)
  have "applyPolicyDiff E old new st =
      (if added \<noteq> [] then handledCall (AddPoliciesEx E st1 added) else (st1, None))"
    using diff c1 st1 by (simp add: applyPolicyDiff_def c1_def Let_def)
  then show ?thesis
    using add_policies[OF prod.collapse[symmetric], of st1 added] st1 sets
    by (auto simp: handledCall_def)
qed

lemma image_actions_diff:
  "(\<lambda>a. [name, a, ns]) ` (A - B) = (\<lambda>a. [name, a, ns]) ` A - (\<lambda>a. [name, a, ns]) ` (B :: string set)"
  by auto

lemma onUpdate_unreadable:
  assumes "\<not> readable J old \<or> \<not> readable J new"
  shows "OnUpdate E J (objType new) old new st = st"
  using assms
  by (cases old; cases new)
    (auto simp: readable_def isl_def OnUpdate_def handleUpdate_def handleUpdateRole_def handleUpdateClusterRole_def
      handleUpdateBinding_def handleUpdateClusterBinding_def objType_def split: sum.splits)

lemma onUpdate:
  assumes wf: "wfObject J old" "wfObject J new" and key: "objKey old = objKey new" and alike: "readable J old = readable J new"
    and stored: "set (policyRules J old) \<subseteq> set (policies st)" and gen: "\<not> sameGeneration old new"
  shows "set (groupings (OnUpdate E J (objType new) old new st)) =
      (set (groupings st) - (set (groupRules old) - set (groupRules new))) \<union> (set (groupRules new) - set (groupRules old)) \<and>
    set (policies (OnUpdate E J (objType new) old new st)) =
      (set (policies st) - (set (policyRules J old) - set (policyRules J new))) \<union> (set (policyRules J new) - set (policyRules J old))"
  using wf(2)
proof (cases rule: wfObject_cases)
  case (role r)
  with key obtain q where q: "old = ObjRole q"
      "omName (roleMeta q) = omName (roleMeta r)" "omNamespace (roleMeta q) = omNamespace (roleMeta r)"
    using sameKey(1)[OF wf(1)] by blast
  show ?thesis
    using role q gen
    by (auto simp: OnUpdate_def handleUpdate_def handleUpdateRole_def objType_def groupRules_def policyRules_def
        computeActionsDiff_def sameGeneration_def objMeta_def foldl_remove foldl_add)
next
  case (clusterRole r)
  with key obtain q where q: "old = ObjClusterRole q" "omName (crMeta q) = omName (crMeta r)"
    using sameKey(2)[OF wf(1)] by blast
  let ?added = "fst (computeActionsDiff (rsActions (crSpec q)) (rsActions (crSpec r)))"
  let ?removed = "snd (computeActionsDiff (rsActions (crSpec q)) (rsActions (crSpec r)))"
  obtain st1 where st1: "eachAction (RemoveGroupingPolicy E) (omName (crMeta q)) ''*'' ?removed st = (st1, None)"
    "set (groupings st1) = set (groupings st) - (\<lambda>a. [omName (crMeta q), a, ''*'']) ` set ?removed" "policies st1 = policies st"
    using eachAction_remove by blast
  obtain st2 where st2: "eachAction (AddGroupingPolicy E) (omName (crMeta r)) ''*'' ?added st1 = (st2, None)"
    "set (groupings st2) = set (groupings st1) \<union> (\<lambda>a. [omName (crMeta r), a, ''*'']) ` set ?added" "policies st2 = policies st1"
    using eachAction_add by blast
  have "OnUpdate E J (objType new) old new st = st2"
    using clusterRole q gen st1(1) st2(1)
    by (auto simp: OnUpdate_def handleUpdate_def handleUpdateClusterRole_def objType_def sameGeneration_def objMeta_def
        split: prod.splits)
  then show ?thesis
    using clusterRole q st1(2,3) st2(2,3) by (auto simp: groupRules_def policyRules_def computeActionsDiff_def)
next
  case (binding b rules)
  with key alike obtain q oldRules where q: "old = ObjBinding q" "bindingRules J q = Inr oldRules"
    using sameKey(3)[OF wf(1), of b] by (auto simp: readable_def)
  show ?thesis
    using binding q gen applyPolicyDiff_ok[of oldRules rules st] wf stored
    by (simp add: OnUpdate_def handleUpdate_def handleUpdateBinding_def objType_def sameGeneration_def objMeta_def
        wfObject_def policyRules_def groupRules_def)
next
  case (clusterBinding b rules)
  with key alike obtain q oldRules where q: "old = ObjClusterBinding q" "clusterBindingRules J q = Inr oldRules"
    using sameKey(4)[OF wf(1), of b] by (auto simp: readable_def)
  show ?thesis
    using clusterBinding q gen applyPolicyDiff_ok[of oldRules rules st] wf stored
    by (simp add: OnUpdate_def handleUpdate_def handleUpdateClusterBinding_def objType_def sameGeneration_def objMeta_def
        wfObject_def policyRules_def groupRules_def)
next
  case unreadable
  with alike show ?thesis
    using onUpdate_unreadable unreadable_rules[of J old] unreadable_rules[of J new] by simp
qed

lemma onUpdate_unchanged:
  assumes "wfObject J old" "wfObject J new" "objKey old = objKey new" "sameGeneration old new"
  shows "OnUpdate E J (objType new) old new st = st"
  using assms(3,4) by (cases old; cases new)
    (auto simp: OnUpdate_def handleUpdate_def handleUpdateRole_def handleUpdateClusterRole_def handleUpdateBinding_def
      handleUpdateClusterBinding_def objKey_def objType_def objMeta_def sameGeneration_def)

end

subsection \<open>Tuples of different objects\<close>

text \<open>A cluster-wide and a namespaced binding of the same name may declare the same tuple; everything else is kept apart
  by name and namespace.\<close>

definition nameClash :: "authzObject \<Rightarrow> authzObject \<Rightarrow> bool" where
  "nameClash a b \<longleftrightarrow>
     (case (a, b) of
        (ObjBinding x, ObjClusterBinding y) \<Rightarrow> omName (bMeta x) = omName (cbMeta y)
      | (ObjClusterBinding y, ObjBinding x) \<Rightarrow> omName (bMeta x) = omName (cbMeta y)
      | _ \<Rightarrow> False)"

lemma dropWhile_keep: "dropWhile P ys = ys \<Longrightarrow> dropWhile P (xs @ ys) = dropWhile P xs @ ys"
  by (induction xs) simp_all

lemma trimSlashes_front:
  assumes "a \<noteq> []" "hd a \<noteq> CHR ''/''" "last a \<noteq> CHR ''/''"
  shows "\<exists>t. trimSlashes (a @ rest) = a @ t \<and> prefix t rest"
proof -
  let ?P = "\<lambda>c. c = CHR ''/''"
  have "dropWhile ?P (rev a) = rev a" using assms(1,3) by (intro dropWhile_hd) (simp_all add: hd_rev)
  from dropWhile_keep[OF this, of "rev rest"] have "trimSlashes (a @ rest) = a @ rev (dropWhile ?P (rev rest))"
    using dropWhile_hd[of "a @ rest" ?P] assms(1,2) by (simp add: trimSlashes_def)
  moreover have "prefix (rev (dropWhile ?P (rev rest))) rest"
    using suffix_dropWhile[of ?P "rev rest"] by (simp add: suffix_to_prefix)
  ultimately show ?thesis by blast
qed

text \<open>Whatever the names of a scope are, the second segment of its path is the namespace.\<close>

lemma path_namespace:
  assumes "hNamespace h \<noteq> []" and "CHR ''/'' \<notin> set (hNamespace h)"
  shows "segments (resourceHierarchyToPath h) ! 1 = hNamespace h"
proof -
  let ?a = "''ns/'' @ hNamespace h"
  define rest where "rest = (if hProject h \<noteq> [] then ''/project/'' @ hProject h else []) @
    (if hComponent h \<noteq> [] then ''/component/'' @ hComponent h else if hResource h \<noteq> [] then ''/resource/'' @ hResource h else [])"
  have rest: "resourceHierarchyToPath h = trimSlashes (?a @ rest)" "rest = [] \<or> hd rest = CHR ''/''"
    using assms(1) by (simp_all add: resourceHierarchyToPath_def rest_def Let_def)
  have "last ?a \<noteq> CHR ''/''" by (rule name_last[OF assms])
  then obtain t where t: "trimSlashes (?a @ rest) = ?a @ t" "prefix t rest"
    using trimSlashes_front[of ?a rest] by auto
  have ns: "segments (''ns/'' @ s) = ''ns'' # segments s" for s by simp
  show ?thesis
  proof (cases t)
    case Nil
    then show ?thesis using rest(1) t(1) ns[of "hNamespace h"] splitOn_no_sep[OF assms(2)] by simp
  next
    case (Cons c u)
    with t(2) rest(2) have "t = CHR ''/'' # u" by (auto simp: prefix_def)
    then show ?thesis
      using rest(1) t(1) ns[of "hNamespace h @ CHR ''/'' # u"] splitOn_append_sep[OF assms(2), of u] by simp
  qed
qed

lemma bindingRules_namespace:
  assumes wf: "wfObject J (ObjBinding b)" and rules: "bindingRules J b = Inr rules" and p: "p \<in> set rules"
  shows "p ! 6 = omName (bMeta b) \<and> segments (p ! 1) ! 1 = omNamespace (bMeta b)"
proof -
  from rules p obtain subject m where "p = bindingRule J b subject m"
    by (auto simp: bindingRules_def split: sum.splits if_splits)
  then show ?thesis
    using wf path_namespace by (simp add: bindingRule_def wfObject_def)
qed

lemma clusterBindingRules_name:
  "clusterBindingRules J b = Inr rules \<Longrightarrow> p \<in> set rules \<Longrightarrow> p ! 6 = omName (cbMeta b)"
  by (auto simp: clusterBindingRules_def clusterBindingRule_def split: sum.splits if_splits)

lemma policyRules_origin:
  assumes "wfObject J obj" and "p \<in> set (policyRules J obj)"
  shows "(\<exists>b. obj = ObjBinding b \<and> p ! 6 = omName (bMeta b) \<and> segments (p ! 1) ! 1 = omNamespace (bMeta b)) \<or>
    (\<exists>b. obj = ObjClusterBinding b \<and> p ! 6 = omName (cbMeta b))"
  using assms(1)
proof (cases rule: wfObject_cases)
  case (binding b rules)
  with assms bindingRules_namespace[of J b rules p] show ?thesis by (simp add: policyRules_def)
next
  case (clusterBinding b rules)
  with assms clusterBindingRules_name[of J b rules p] show ?thesis by (simp add: policyRules_def)
qed (use assms(2) unreadable_rules[of J obj] in \<open>auto simp: policyRules_def\<close>)

lemma rules_disjoint:
  assumes wf: "wfObject J a" "wfObject J b" and key: "objKey a \<noteq> objKey b" and clash: "\<not> nameClash a b"
  shows "set (groupRules a) \<inter> set (groupRules b) = {} \<and> set (policyRules J a) \<inter> set (policyRules J b) = {}"
proof
  show "set (groupRules a) \<inter> set (groupRules b) = {}"
    using wf key by (cases a; cases b) (auto simp: groupRules_def objKey_def objType_def objMeta_def wfObject_def)
  have "p \<notin> set (policyRules J b)" if p: "p \<in> set (policyRules J a)" for p
  proof
    assume q: "p \<in> set (policyRules J b)"
    with policyRules_origin[OF wf(1) p] policyRules_origin[OF wf(2) q] key clash wf show False
      by (auto simp: objKey_def objType_def objMeta_def nameClash_def wfObject_def)
  qed
  then show "set (policyRules J a) \<inter> set (policyRules J b) = {}" by blast
qed

subsection \<open>Reachable states\<close>

text \<open>
  The informer delivers the current objects when it starts and after a relist, then every change.
  A deletion that was missed is delivered as a tombstone. Two guards leave out what the handlers do not cope
  with: a creation never makes a name clash, and an update never changes whether a binding can be read.
  Kubernetes raises the generation whenever the spec changes.
\<close>

inductive syncStep ::
    "casbinApi \<Rightarrow> codec \<Rightarrow> (objectKey, authzObject) fmap \<times> casbinStore \<Rightarrow> (objectKey, authzObject) fmap \<times> casbinStore \<Rightarrow> bool"
  for E J where
  created: "fmlookup live (objKey obj) = None \<Longrightarrow> wfObject J obj \<Longrightarrow>
     (\<And>k other. fmlookup live k = Some other \<Longrightarrow> \<not> nameClash obj other) \<Longrightarrow>
     syncStep E J (live, st) (fmupd (objKey obj) obj live, OnAdd E J (objType obj) obj st)"
| redelivered: "fmlookup live (objKey obj) = Some obj \<Longrightarrow>
     syncStep E J (live, st) (live, OnAdd E J (objType obj) obj st)"
| updated: "fmlookup live (objKey new) = Some old \<Longrightarrow> wfObject J new \<Longrightarrow>
     (sameGeneration old new \<Longrightarrow> sameSpec old new) \<Longrightarrow> readable J old = readable J new \<Longrightarrow>
     syncStep E J (live, st) (fmupd (objKey new) new live, OnUpdate E J (objType new) old new st)"
| deleted: "fmlookup live (objKey obj) = Some obj \<Longrightarrow>
     delivered = obj \<or> delivered = DeletedFinalStateUnknown obj \<Longrightarrow>
     syncStep E J (live, st) (fmdrop (objKey obj) live, OnDelete E J (objType obj) delivered st)"

inductive syncReachable ::
    "casbinApi \<Rightarrow> codec \<Rightarrow> (objectKey, authzObject) fmap \<times> casbinStore \<Rightarrow> bool"
  for E J where
  start: "syncReachable E J (fmempty, \<lparr>groupings = [], policies = []\<rparr>)"
| step: "syncReachable E J s \<Longrightarrow> syncStep E J s s' \<Longrightarrow> syncReachable E J s'"

definition declared :: "('o \<Rightarrow> 'a list) \<Rightarrow> ('k, 'o) fmap \<Rightarrow> 'a set" where
  "declared f live = {rule. \<exists>k obj. fmlookup live k = Some obj \<and> rule \<in> set (f obj)}"

lemma declared_member: "fmlookup live k = Some obj \<Longrightarrow> set (f obj) \<subseteq> declared f live"
  by (auto simp: declared_def)

lemma declared_fmempty [simp]: "declared f fmempty = {}"
  by (simp add: declared_def)

lemma declared_fmupd:
  assumes "fmlookup live k = None"
  shows "declared f (fmupd k obj live) = declared f live \<union> set (f obj)"
  using assms unfolding declared_def by (auto, metis option.distinct(1))

lemma declared_fmdrop:
  assumes "fmlookup live k = Some obj"
    and "\<And>l other. fmlookup live l = Some other \<Longrightarrow> l \<noteq> k \<Longrightarrow> set (f obj) \<inter> set (f other) = {}"
  shows "declared f (fmdrop k live) = declared f live - set (f obj)"
proof -
  have "rule \<in> declared f (fmdrop k live) \<longleftrightarrow> rule \<in> declared f live \<and> rule \<notin> set (f obj)" for rule
    using assms unfolding declared_def by (auto split: if_splits)
  then show ?thesis by blast
qed

lemma declared_replace:
  assumes "fmlookup live k = Some old"
    and "\<And>l other. fmlookup live l = Some other \<Longrightarrow> l \<noteq> k \<Longrightarrow> set (f old) \<inter> set (f other) = {}"
  shows "declared f (fmupd k new live) =
    (declared f live - (set (f old) - set (f new))) \<union> (set (f new) - set (f old))"
proof -
  have "fmupd k new live = fmupd k new (fmdrop k live)" by (rule fmap_ext) simp
  moreover have "declared f (fmupd k new (fmdrop k live)) = declared f (fmdrop k live) \<union> set (f new)"
    by (rule declared_fmupd) simp
  moreover have "set (f old) \<subseteq> declared f live" using assms(1) by (auto simp: declared_def)
  ultimately show ?thesis using declared_fmdrop[of live k old f, OF assms] by auto
qed

definition wfLive :: "codec \<Rightarrow> (objectKey, authzObject) fmap \<Rightarrow> bool" where
  "wfLive J live \<longleftrightarrow>
     (\<forall>k obj. fmlookup live k = Some obj \<longrightarrow> k = objKey obj \<and> wfObject J obj) \<and>
     (\<forall>k l a b. fmlookup live k = Some a \<longrightarrow> fmlookup live l = Some b \<longrightarrow> \<not> nameClash a b)"

definition synced :: "codec \<Rightarrow> (objectKey, authzObject) fmap \<times> casbinStore \<Rightarrow> bool" where
  "synced J s \<longleftrightarrow> wfLive J (fst s) \<and>
     set (groupings (snd s)) = declared groupRules (fst s) \<and> set (policies (snd s)) = declared (policyRules J) (fst s)"

lemma wfLiveD: "wfLive J live \<Longrightarrow> fmlookup live k = Some obj \<Longrightarrow> k = objKey obj \<and> wfObject J obj"
  unfolding wfLive_def by blast

lemma nameClash_sym: "nameClash a b \<longleftrightarrow> nameClash b a"
  by (auto simp: nameClash_def split: authzObject.splits)

lemma nameClash_key: "objKey a = objKey b \<Longrightarrow> nameClash a c \<longleftrightarrow> nameClash b c"
  by (cases a; cases b; cases c)
    (auto simp: nameClash_def objKey_def objType_def objMeta_def)

lemma nameClash_irrefl [simp]: "\<not> nameClash a a"
  by (cases a) (auto simp: nameClash_def)

lemma wfLive_clash:
  "wfLive J live \<Longrightarrow> fmlookup live k = Some a \<Longrightarrow> fmlookup live l = Some b \<Longrightarrow> \<not> nameClash a b"
  unfolding wfLive_def by blast

lemma wfLive_replace:
  assumes live: "wfLive J live" and old: "fmlookup live (objKey new) = Some old" and key: "objKey old = objKey new"
    and new: "wfObject J new"
  shows "wfLive J (fmupd (objKey new) new live)"
proof -
  let ?live = "fmupd (objKey new) new live"
  have "k = objKey obj \<and> wfObject J obj" if "fmlookup ?live k = Some obj" for k obj
    using that new wfLiveD[OF live, of k obj] by (simp split: if_splits)
  moreover have "\<exists>k a'. fmlookup live k = Some a' \<and> objKey a' = objKey a" if "fmlookup ?live l = Some a" for l a
    using that old key by (metis fmupd_lookup option.inject)
  then have "\<not> nameClash a b" if "fmlookup ?live k = Some a" "fmlookup ?live l = Some b" for k l a b
    using that wfLive_clash[OF live] nameClash_key nameClash_sym by (metis (no_types))
  ultimately show ?thesis unfolding wfLive_def by blast
qed

lemma live_disjoint:
  assumes "wfLive J live" and "fmlookup live (objKey obj) = Some obj" and "fmlookup live l = Some other" and "l \<noteq> objKey obj"
  shows "set (groupRules obj) \<inter> set (groupRules other) = {}" and "set (policyRules J obj) \<inter> set (policyRules J other) = {}"
proof -
  have "wfObject J obj" "wfObject J other" "\<not> nameClash obj other" "objKey obj \<noteq> objKey other"
    using assms unfolding wfLive_def by metis+
  then show "set (groupRules obj) \<inter> set (groupRules other) = {}" "set (policyRules J obj) \<inter> set (policyRules J other) = {}"
    using rules_disjoint by blast+
qed

context casbin_store
begin

lemma created_synced:
  assumes "synced J (live, st)" and "fmlookup live (objKey obj) = None" and "wfObject J obj"
    and "\<And>k other. fmlookup live k = Some other \<Longrightarrow> \<not> nameClash obj other"
  shows "synced J (fmupd (objKey obj) obj live, OnAdd E J (objType obj) obj st)"
proof -
  have "wfLive J (fmupd (objKey obj) obj live)"
    using assms nameClash_sym by (auto simp: synced_def wfLive_def)
  with assms(1) show ?thesis
    using onAdd[OF assms(3), of st] by (simp add: synced_def declared_fmupd[OF assms(2)])
qed

lemma redelivered_synced:
  assumes "synced J (live, st)" and "fmlookup live (objKey obj) = Some obj"
  shows "synced J (live, OnAdd E J (objType obj) obj st)"
proof -
  have "set (groupRules obj) \<subseteq> declared groupRules live" "set (policyRules J obj) \<subseteq> declared (policyRules J) live"
    using assms(2) by (rule declared_member)+
  moreover have "wfObject J obj" using assms(1) wfLiveD[OF _ assms(2)] by (simp add: synced_def)
  ultimately show ?thesis
    using onAdd[of J obj st] assms(1) by (auto simp: synced_def)
qed

lemma updated_synced:
  assumes synced: "synced J (live, st)" and old: "fmlookup live (objKey new) = Some old" and new: "wfObject J new"
    and gen: "sameGeneration old new \<Longrightarrow> sameSpec old new" and alike: "readable J old = readable J new"
  shows "synced J (fmupd (objKey new) new live, OnUpdate E J (objType new) old new st)"
proof -
  have live: "wfLive J live" and key: "objKey old = objKey new" and wf: "wfObject J old"
    using synced wfLiveD[of J, OF _ old] by (auto simp: synced_def)
  have "wfLive J (fmupd (objKey new) new live)"
    using wfLive_replace[OF live old key new] .
  moreover note sets = live_disjoint[OF live, of old]
  have "declared groupRules (fmupd (objKey new) new live) = (declared groupRules live - (set (groupRules old) - set (groupRules new)))
      \<union> (set (groupRules new) - set (groupRules old))"
    "declared (policyRules J) (fmupd (objKey new) new live) = (declared (policyRules J) live - (set (policyRules J old) - set (policyRules J new)))
      \<union> (set (policyRules J new) - set (policyRules J old))"
    using sets old key by (intro declared_replace; simp)+
  moreover have "set (policyRules J old) \<subseteq> set (policies st)"
    using synced declared_member[OF old, of "policyRules J"] by (simp add: synced_def)
  ultimately show ?thesis
    using onUpdate[OF wf new key alike, of st] onUpdate_unchanged[OF wf new key, of st] synced sameSpec_rules[OF key] gen
    by (cases "sameGeneration old new") (simp_all add: synced_def)
qed

lemma deleted_synced:
  assumes synced: "synced J (live, st)" and obj: "fmlookup live (objKey obj) = Some obj"
    and "delivered = obj \<or> delivered = DeletedFinalStateUnknown obj"
  shows "synced J (fmdrop (objKey obj) live, OnDelete E J (objType obj) delivered st)"
proof -
  have live: "wfLive J live" and wf: "wfObject J obj"
    using synced wfLiveD[of J, OF _ obj] by (auto simp: synced_def)
  have "wfLive J (fmdrop (objKey obj) live)"
    using live by (simp add: wfLive_def)
  moreover have "declared groupRules (fmdrop (objKey obj) live) = declared groupRules live - set (groupRules obj)"
    "declared (policyRules J) (fmdrop (objKey obj) live) = declared (policyRules J) live - set (policyRules J obj)"
    using live_disjoint[OF live obj] obj by (intro declared_fmdrop; simp)+
  moreover have "set (policyRules J obj) \<subseteq> set (policies st)"
    using synced declared_member[OF obj, of "policyRules J"] by (simp add: synced_def)
  ultimately show ?thesis
    using onDelete[OF wf _ assms(3), of st] synced by (simp add: synced_def)
qed

lemma reachable_synced: "syncReachable E J s \<Longrightarrow> synced J s"
proof (induction rule: syncReachable.induct)
  case start
  then show ?case by (simp add: synced_def wfLive_def declared_def)
next
  case (step s s')
  from step(2,3) show ?case
    by (cases rule: syncStep.cases)
      (auto intro: created_synced redelivered_synced updated_synced deleted_synced)
qed

end

subsection \<open>An enforcer in memory\<close>

text \<open>Casbin's in-memory model: additions skip what is stored, removals skip what is not.\<close>

definition memAdd :: "'a list \<Rightarrow> 'a list \<Rightarrow> 'a list" where
  "memAdd xs rules = foldl (\<lambda>ys r. if r \<in> set ys then ys else ys @ [r]) xs rules"

definition memRemove :: "'a list \<Rightarrow> 'a list \<Rightarrow> 'a list" where
  "memRemove xs rules = filter (\<lambda>x. x \<notin> set rules) xs"

definition memoryEnforcer :: casbinApi where
  "memoryEnforcer =
     \<lparr>AddGroupingPoliciesEx = (\<lambda>st rules. (st\<lparr>groupings := memAdd (groupings st) rules\<rparr>, Inr True)),
      AddGroupingPolicy = (\<lambda>st rule. (st\<lparr>groupings := memAdd (groupings st) [rule]\<rparr>, Inr (rule \<notin> set (groupings st)))),
      RemoveGroupingPolicy = (\<lambda>st rule. (st\<lparr>groupings := memRemove (groupings st) [rule]\<rparr>, Inr (rule \<in> set (groupings st)))),
      AddPoliciesEx = (\<lambda>st rules. (st\<lparr>policies := memAdd (policies st) rules\<rparr>, Inr True)),
      RemovePolicies = (\<lambda>st rules. (st\<lparr>policies := memRemove (policies st) rules\<rparr>,
         Inr (set rules \<inter> set (policies st) \<noteq> {})))\<rparr>"

lemma set_memAdd [simp]: "set (memAdd xs rules) = set xs \<union> set rules"
  unfolding memAdd_def by (induction rules arbitrary: xs) auto

lemma set_memRemove [simp]: "set (memRemove xs rules) = set xs - set rules"
  by (auto simp: memRemove_def)

interpretation mem: casbin_store memoryEnforcer
  by unfold_locales (auto simp: memoryEnforcer_def)

subsection \<open>Properties\<close>

text \<open>C2: Incremental synchronisation equals a rebuild. In every state reached from the empty store by creations,
  repeated deliveries, updates and deletions (seen or reported by a tombstone) of roles and bindings, the stored
  role rules and policy tuples are exactly those the live objects declare; a binding whose claim, value or effect
  is empty declares none. The runs are those in which a cluster-wide binding never shares its name with
  a namespaced one, no update makes an unreadable binding readable or a readable one unreadable (the code drifts
  in both cases, shown below), an update that keeps the generation keeps the spec, which Kubernetes
  guarantees, and no field of a tuple contains a NUL byte.\<close>

theorem sync_equals_rebuild:
  assumes "casbin_store E" and "syncReachable E J (live, st)"
  shows "set (groupings st) = declared groupRules live \<and> set (policies st) = declared (policyRules J) live"
  using casbin_store.reachable_synced[OF assms] by (simp add: synced_def)

definition exampleMeta :: "string \<Rightarrow> string \<Rightarrow> ObjectMeta" where
  "exampleMeta ns name = \<lparr>omName = name, omNamespace = ns, omGeneration = 1, omLabels = fmempty, omAnnotations = fmempty\<rparr>"

definition exampleBinding :: AuthzRoleBinding where
  "exampleBinding = \<lparr>bMeta = exampleMeta ''a'' ''b'', bClaim = ''groups'', bValue = ''dev'',
     bRoleMappings = [\<lparr>rmRoleRef = \<lparr>rrKind = ''ClusterAuthzRole'', rrName = ''r''\<rparr>,
       rmScope = \<lparr>scProject = [], scComponent = [], scResource = []\<rparr>, rmConditions = []\<rparr>], bEffect = ''allow''\<rparr>"

definition exampleClusterBinding :: ClusterAuthzRoleBinding where
  "exampleClusterBinding = \<lparr>cbMeta = exampleMeta [] ''b'', cbClaim = ''groups'', cbValue = ''dev'',
     cbRoleMappings = [\<lparr>cmRoleRef = \<lparr>rrKind = ''ClusterAuthzRole'', rrName = ''r''\<rparr>,
       cmScope = \<lparr>tsNamespace = ''a'', tsProject = [], tsComponent = [], tsResource = []\<rparr>, cmConditions = []\<rparr>],
     cbEffect = ''allow''\<rparr>"

lemma example_rules:
  "bindingRules J exampleBinding = Inr [[''groups:dev'', ''ns/a'', ''r'', ''*'', ''allow'', ''{}'', ''b'']]"
  "clusterBindingRules J exampleClusterBinding = Inr [[''groups:dev'', ''ns/a'', ''r'', ''*'', ''allow'', ''{}'', ''b'']]"
  by (simp_all add: bindingRules_def bindingRule_def clusterBindingRules_def clusterBindingRule_def exampleBinding_def
      exampleClusterBinding_def exampleMeta_def formatSubject_def resourceHierarchyToPath_def trimSlashes_def
      serializeAuthzConditions_def emptyContextJSON_def CRDTypeClusterAuthzRole_def Let_def)

lemma example_reachable:
  "syncReachable memoryEnforcer J
     (fmupd (objKey (ObjBinding exampleBinding)) (ObjBinding exampleBinding) fmempty,
      OnAdd memoryEnforcer J (objType (ObjBinding exampleBinding)) (ObjBinding exampleBinding) \<lparr>groupings = [], policies = []\<rparr>)"
proof (rule syncReachable.step[OF syncReachable.start syncStep.created])
  show "wfObject J (ObjBinding exampleBinding)"
    by (simp add: wfObject_def policyRules_def example_rules wfPolicies_def)
      (simp add: exampleBinding_def exampleMeta_def)
qed simp_all

theorem sync_equals_rebuild_witness:
  "set (policies (OnAdd memoryEnforcer exampleCodec CRDTypeAuthzRoleBinding (ObjBinding exampleBinding)
       \<lparr>groupings = [], policies = []\<rparr>)) =
     {[''groups:dev'', ''ns/a'', ''r'', ''*'', ''allow'', ''{}'', ''b'']}"
  using sync_equals_rebuild[OF mem.casbin_store_axioms example_reachable[of exampleCodec]]
  by (simp add: declared_fmupd policyRules_def example_rules objType_def)

subsection \<open>Enforcement and resources\<close>

text \<open>
  What the live resources say, without a store: a role offers an action when one of its patterns covers it, and
  a binding gives its effect to a subject on a resource when one of its mappings has the resource in its scope,
  names a live role that offers the action, and has conditions that match.
\<close>

definition roleOffers :: "(objectKey, authzObject) fmap \<Rightarrow> string \<Rightarrow> string \<Rightarrow> string \<Rightarrow> string \<Rightarrow> bool" where
  "roleOffers live kind name ns act \<longleftrightarrow>
     (if kind = CRDTypeClusterAuthzRole
      then \<exists>k role. fmlookup live k = Some (ObjClusterRole role) \<and> omName (crMeta role) = name \<and>
             (\<exists>pattern \<in> set (rsActions (crSpec role)). actionMatch act pattern)
      else \<exists>k role. fmlookup live k = Some (ObjRole role) \<and> omName (roleMeta role) = name \<and> omNamespace (roleMeta role) = ns \<and>
             (\<exists>pattern \<in> set (rsActions (roleSpec role)). actionMatch act pattern))"

definition bindingGives ::
    "codec \<Rightarrow> celCompiler \<Rightarrow> (objectKey, authzObject) fmap \<Rightarrow> AuthzRoleBinding \<Rightarrow> string \<Rightarrow> string \<Rightarrow> string \<Rightarrow> string \<Rightarrow> bool" where
  "bindingGives J C live b sub resource act ctx \<longleftrightarrow>
     formatSubject (bClaim b) (bValue b) = Inr sub \<and>
     (\<exists>m \<in> set (bRoleMappings b).
        resourceMatch resource (resourceHierarchyToPath
          \<lparr>hNamespace = omNamespace (bMeta b), hProject = scProject (rmScope m),
           hComponent = scComponent (rmScope m), hResource = scResource (rmScope m)\<rparr>) \<and>
        roleOffers live (rrKind (rmRoleRef m)) (rrName (rmRoleRef m)) (omNamespace (bMeta b)) act \<and>
        ConditionMatcher J C ctx act (serializeAuthzConditions J (rmConditions m)) (bEffect b))"

definition clusterBindingGives ::
    "codec \<Rightarrow> celCompiler \<Rightarrow> (objectKey, authzObject) fmap \<Rightarrow> ClusterAuthzRoleBinding \<Rightarrow> string \<Rightarrow> string \<Rightarrow> string \<Rightarrow> string \<Rightarrow> bool" where
  "clusterBindingGives J C live b sub resource act ctx \<longleftrightarrow>
     formatSubject (cbClaim b) (cbValue b) = Inr sub \<and>
     (\<exists>m \<in> set (cbRoleMappings b).
        resourceMatch resource (resourceHierarchyToPath
          \<lparr>hNamespace = tsNamespace (cmScope m), hProject = tsProject (cmScope m),
           hComponent = tsComponent (cmScope m), hResource = tsResource (cmScope m)\<rparr>) \<and>
        roleOffers live CRDTypeClusterAuthzRole (rrName (cmRoleRef m)) [] act \<and>
        ConditionMatcher J C ctx act (serializeAuthzConditions J (cmConditions m)) (cbEffect b))"

definition resourcesGive ::
    "codec \<Rightarrow> celCompiler \<Rightarrow> (objectKey, authzObject) fmap \<Rightarrow> string \<Rightarrow> string \<Rightarrow> string \<Rightarrow> string \<Rightarrow> string \<Rightarrow> bool" where
  "resourcesGive J C live eft sub resource act ctx \<longleftrightarrow>
     (\<exists>k b. fmlookup live k = Some (ObjBinding b) \<and> bEffect b = eft \<and> bindingGives J C live b sub resource act ctx) \<or>
     (\<exists>k b. fmlookup live k = Some (ObjClusterBinding b) \<and> cbEffect b = eft \<and> clusterBindingGives J C live b sub resource act ctx)"

lemma rule_of_three: "length rule = 3 \<and> rule ! 0 = a \<and> rule ! 2 = c \<longleftrightarrow> (\<exists>b. rule = [a, b, c])"
  by (auto simp: length_Suc_conv numeral_3_eq_3 numeral_2_eq_2)

lemma roleLink_rules: "roleLink gs name act ns \<longleftrightarrow> (\<exists>pattern. [name, pattern, ns] \<in> set gs \<and> actionMatch act pattern)"
proof -
  have "roleLink gs name act ns \<longleftrightarrow>
      (\<exists>rule \<in> set gs. (length rule = 3 \<and> rule ! 0 = name \<and> rule ! 2 = ns) \<and> actionMatch act (rule ! 1))"
    by (auto simp: roleLink_def roleActionMatchWrapper_eq)
  then show ?thesis unfolding rule_of_three by auto
qed

lemma groupRules_mem:
  assumes "wfObject J obj"
  shows "[name, pattern, ''*''] \<in> set (groupRules obj) \<longleftrightarrow>
      (\<exists>r. obj = ObjClusterRole r \<and> omName (crMeta r) = name \<and> pattern \<in> set (rsActions (crSpec r)))"
    and "ns \<noteq> ''*'' \<Longrightarrow> [name, pattern, ns] \<in> set (groupRules obj) \<longleftrightarrow>
      (\<exists>r. obj = ObjRole r \<and> omName (roleMeta r) = name \<and> omNamespace (roleMeta r) = ns \<and> pattern \<in> set (rsActions (roleSpec r)))"
  using assms by (cases obj; auto simp: groupRules_def wfObject_def)+

lemma declared_roleLink:
  assumes groups: "set gs = declared groupRules live" and live: "wfLive J live" and kind: "kind = CRDTypeClusterAuthzRole \<or> ns \<noteq> ''*''"
  shows "roleLink gs name act (if kind = CRDTypeClusterAuthzRole then ''*'' else ns) \<longleftrightarrow> roleOffers live kind name ns act"
proof -
  have link: "roleLink gs name act n \<longleftrightarrow>
      (\<exists>pattern k obj. fmlookup live k = Some obj \<and> [name, pattern, n] \<in> set (groupRules obj) \<and> actionMatch act pattern)" for n
    unfolding roleLink_rules groups declared_def mem_Collect_eq by blast
  have wf: "wfObject J obj" if "fmlookup live k = Some obj" for k obj
    using wfLiveD[OF live that] by blast
  show ?thesis
  proof (cases "kind = CRDTypeClusterAuthzRole")
    case True
    have "roleLink gs name act ''*'' \<longleftrightarrow> (\<exists>pattern k obj. fmlookup live k = Some obj \<and>
        (\<exists>r. obj = ObjClusterRole r \<and> omName (crMeta r) = name \<and> pattern \<in> set (rsActions (crSpec r))) \<and> actionMatch act pattern)"
      unfolding link by (intro ex_cong1 conj_cong refl groupRules_mem(1)[OF wf])
    also have "\<dots> \<longleftrightarrow> roleOffers live kind name ns act" unfolding roleOffers_def if_P[OF True] by blast
    finally show ?thesis using True by simp
  next
    case False
    then have ns: "ns \<noteq> ''*''" using kind by simp
    have "roleLink gs name act ns \<longleftrightarrow> (\<exists>pattern k obj. fmlookup live k = Some obj \<and>
        (\<exists>r. obj = ObjRole r \<and> omName (roleMeta r) = name \<and> omNamespace (roleMeta r) = ns \<and> pattern \<in> set (rsActions (roleSpec r))) \<and>
        actionMatch act pattern)"
      unfolding link by (intro ex_cong1 conj_cong refl groupRules_mem(2)[OF wf ns])
    also have "\<dots> \<longleftrightarrow> roleOffers live kind name ns act" unfolding roleOffers_def if_not_P[OF False] by blast
    finally show ?thesis using False by simp
  qed
qed

lemma policyRules_binding:
  "bEffect b \<noteq> [] \<Longrightarrow> set (policyRules J (ObjBinding b)) =
     (case formatSubject (bClaim b) (bValue b) of Inl _ \<Rightarrow> {} | Inr subject \<Rightarrow> bindingRule J b subject ` set (bRoleMappings b))"
  "cbEffect cb \<noteq> [] \<Longrightarrow> set (policyRules J (ObjClusterBinding cb)) =
     (case formatSubject (cbClaim cb) (cbValue cb) of Inl _ \<Rightarrow> {} | Inr subject \<Rightarrow> clusterBindingRule J cb subject ` set (cbRoleMappings cb))"
  by (auto simp: policyRules_def bindingRules_def clusterBindingRules_def split: sum.splits)

lemma policyRules_effect:
  "p \<in> set (policyRules J obj) \<Longrightarrow> (\<exists>b. obj = ObjBinding b \<and> p ! 4 = bEffect b \<and> bEffect b \<noteq> []) \<or>
     (\<exists>b. obj = ObjClusterBinding b \<and> p ! 4 = cbEffect b \<and> cbEffect b \<noteq> [])"
  by (cases obj) (auto simp: policyRules_def bindingRules_def bindingRule_def clusterBindingRules_def clusterBindingRule_def
      split: sum.splits if_splits)

lemma binding_matches:
  assumes "set gs = declared groupRules live" and "wfLive J live" and "fmlookup live k = Some (ObjBinding b)" and "bEffect b \<noteq> []"
  shows "(\<exists>p \<in> set (policyRules J (ObjBinding b)). policyMatches J C gs sub resource act ctx p) \<longleftrightarrow>
    bindingGives J C live b sub resource act ctx"
proof -
  have "omNamespace (bMeta b) \<noteq> ''*''" using wfLiveD[OF assms(2,3)] by (simp add: wfObject_def)
  note link = declared_roleLink[OF assms(1,2) disjI2[OF this]]
  show ?thesis
    unfolding policyRules_binding(1)[OF assms(4)] bindingGives_def
    by (cases "formatSubject (bClaim b) (bValue b)") (auto simp: policyMatches_def bindingRule_def link)
qed

lemma clusterBinding_matches:
  assumes "set gs = declared groupRules live" and "wfLive J live" and "cbEffect b \<noteq> []"
  shows "(\<exists>p \<in> set (policyRules J (ObjClusterBinding b)). policyMatches J C gs sub resource act ctx p) \<longleftrightarrow>
    clusterBindingGives J C live b sub resource act ctx"
proof -
  have link: "roleLink gs name act ''*'' \<longleftrightarrow> roleOffers live CRDTypeClusterAuthzRole name [] act" for name
    using declared_roleLink[OF assms(1,2), of CRDTypeClusterAuthzRole "[]"] by simp
  show ?thesis
    unfolding policyRules_binding(2)[OF assms(3)] clusterBindingGives_def
    by (cases "formatSubject (cbClaim b) (cbValue b)") (auto simp: policyMatches_def clusterBindingRule_def link)
qed

lemma object_gives:
  assumes groups: "set gs = declared groupRules live" and live: "wfLive J live" and obj: "fmlookup live k = Some obj" and eft: "eft \<noteq> []"
  shows "(\<exists>p \<in> set (policyRules J obj). policyMatches J C gs sub resource act ctx p \<and> p ! 4 = eft) \<longleftrightarrow>
    (\<exists>b. obj = ObjBinding b \<and> bEffect b = eft \<and> bindingGives J C live b sub resource act ctx) \<or>
    (\<exists>b. obj = ObjClusterBinding b \<and> cbEffect b = eft \<and> clusterBindingGives J C live b sub resource act ctx)"
proof (cases obj)
  case (ObjBinding b)
  have "p ! 4 = bEffect b" if "p \<in> set (policyRules J obj)" for p
    using policyRules_effect[OF that] ObjBinding by simp
  then have "(\<exists>p \<in> set (policyRules J obj). policyMatches J C gs sub resource act ctx p \<and> p ! 4 = eft) \<longleftrightarrow>
      bEffect b = eft \<and> (\<exists>p \<in> set (policyRules J obj). policyMatches J C gs sub resource act ctx p)" by auto
  moreover have "bEffect b = eft \<Longrightarrow> ?thesis"
    using calculation binding_matches[OF groups live obj[unfolded ObjBinding], of C sub resource act ctx] eft ObjBinding by simp
  ultimately show ?thesis using ObjBinding by (cases "bEffect b = eft") simp_all
next
  case (ObjClusterBinding b)
  have "p ! 4 = cbEffect b" if "p \<in> set (policyRules J obj)" for p
    using policyRules_effect[OF that] ObjClusterBinding by simp
  then have "(\<exists>p \<in> set (policyRules J obj). policyMatches J C gs sub resource act ctx p \<and> p ! 4 = eft) \<longleftrightarrow>
      cbEffect b = eft \<and> (\<exists>p \<in> set (policyRules J obj). policyMatches J C gs sub resource act ctx p)" by auto
  moreover have "cbEffect b = eft \<Longrightarrow> ?thesis"
    using calculation clusterBinding_matches[OF groups live, of b C sub resource act ctx] eft ObjClusterBinding by simp
  ultimately show ?thesis using ObjClusterBinding by (cases "cbEffect b = eft") simp_all
qed (simp_all add: policyRules_def)

lemma synced_gives:
  assumes groups: "set gs = declared groupRules live" and ps: "set ps = declared (policyRules J) live" and live: "wfLive J live"
    and eft: "eft \<noteq> []"
  shows "(\<exists>p \<in> set ps. policyMatches J C gs sub resource act ctx p \<and> p ! 4 = eft) \<longleftrightarrow>
    resourcesGive J C live eft sub resource act ctx"
proof -
  have "(\<exists>p \<in> set ps. policyMatches J C gs sub resource act ctx p \<and> p ! 4 = eft) \<longleftrightarrow>
      (\<exists>k obj. fmlookup live k = Some obj \<and> (\<exists>p \<in> set (policyRules J obj). policyMatches J C gs sub resource act ctx p \<and> p ! 4 = eft))"
    unfolding ps declared_def by blast
  also have "\<dots> \<longleftrightarrow> (\<exists>k obj. fmlookup live k = Some obj \<and>
      ((\<exists>b. obj = ObjBinding b \<and> bEffect b = eft \<and> bindingGives J C live b sub resource act ctx) \<or>
       (\<exists>b. obj = ObjClusterBinding b \<and> cbEffect b = eft \<and> clusterBindingGives J C live b sub resource act ctx)))"
    by (intro ex_cong1 conj_cong refl object_gives[OF groups live _ eft])
  also have "\<dots> \<longleftrightarrow> resourcesGive J C live eft sub resource act ctx"
    unfolding resourcesGive_def by blast
  finally show ?thesis .
qed

text \<open>C3: Enforcement follows the resources. In every state synchronisation reaches over these runs, the decision of the model over the
  stored tuples is what the live roles and bindings say: some live binding whose effect is allow gives the subject
  the action on the resource, and no live binding whose effect is deny does. A binding gives it when one
  of its mappings has the resource in its scope, refers to a live role, of the cluster or of the binding's
  namespace, that offers the action, and has conditions that match.\<close>

theorem enforcement_follows_resources:
  assumes "casbin_store E" and "syncReachable E J (live, st)"
  shows "permEnforce J C (groupings st) (policies st) sub resource act ctx \<longleftrightarrow>
    resourcesGive J C live ''allow'' sub resource act ctx \<and> \<not> resourcesGive J C live ''deny'' sub resource act ctx"
proof -
  have "wfLive J live" "set (groupings st) = declared groupRules live" "set (policies st) = declared (policyRules J) live"
    using casbin_store.reachable_synced[OF assms] by (simp_all add: synced_def)
  from synced_gives[OF this(2,3,1)] show ?thesis
    by (simp add: permEnforce_def PolicyEffectAllow_def PolicyEffectDeny_def)
qed

lemma resourcesGive_one:
  assumes "\<And>b'. (\<exists>k. fmlookup live k = Some (ObjBinding b')) \<longleftrightarrow> b' = b" and "\<And>k cb. fmlookup live k \<noteq> Some (ObjClusterBinding cb)"
  shows "resourcesGive J C live eft sub resource act ctx \<longleftrightarrow> bEffect b = eft \<and> bindingGives J C live b sub resource act ctx"
proof -
  have "resourcesGive J C live eft sub resource act ctx \<longleftrightarrow>
      (\<exists>b'. (\<exists>k. fmlookup live k = Some (ObjBinding b')) \<and> bEffect b' = eft \<and> bindingGives J C live b' sub resource act ctx)"
    unfolding resourcesGive_def using assms(2) by blast
  then show ?thesis unfolding assms(1) by simp
qed

definition exampleClusterRole :: authzObject where
  "exampleClusterRole = ObjClusterRole \<lparr>crMeta = exampleMeta [] ''r'', crSpec = \<lparr>rsActions = [''component:*''], rsDescription = []\<rparr>\<rparr>"

definition exampleRoleStore :: casbinStore where
  "exampleRoleStore = OnAdd memoryEnforcer exampleCodec CRDTypeAuthzRoleBinding (ObjBinding exampleBinding)
     (OnAdd memoryEnforcer exampleCodec CRDTypeClusterAuthzRole exampleClusterRole \<lparr>groupings = [], policies = []\<rparr>)"

lemma example_role_reachable:
  "syncReachable memoryEnforcer exampleCodec
     (fmupd (CRDTypeAuthzRoleBinding, ''a'', ''b'') (ObjBinding exampleBinding)
       (fmupd (CRDTypeClusterAuthzRole, [], ''r'') exampleClusterRole fmempty), exampleRoleStore)"
proof -
  have keys: "objKey exampleClusterRole = (CRDTypeClusterAuthzRole, [], ''r'')" "objType exampleClusterRole = CRDTypeClusterAuthzRole"
    "objKey (ObjBinding exampleBinding) = (CRDTypeAuthzRoleBinding, ''a'', ''b'')" "objType (ObjBinding exampleBinding) = CRDTypeAuthzRoleBinding"
    by (simp_all add: objKey_def objType_def objMeta_def exampleClusterRole_def exampleBinding_def exampleMeta_def)
  have wf: "wfObject exampleCodec exampleClusterRole"
    by (simp add: wfObject_def policyRules_def exampleClusterRole_def exampleMeta_def wfPolicies_def)
  have wfb: "wfObject exampleCodec (ObjBinding exampleBinding)"
    by (simp add: wfObject_def policyRules_def example_rules wfPolicies_def) (simp add: exampleBinding_def exampleMeta_def)
  have first: "syncReachable memoryEnforcer exampleCodec (fmupd (CRDTypeClusterAuthzRole, [], ''r'') exampleClusterRole fmempty,
      OnAdd memoryEnforcer exampleCodec CRDTypeClusterAuthzRole exampleClusterRole \<lparr>groupings = [], policies = []\<rparr>)"
    using syncReachable.step[OF syncReachable.start syncStep.created, of exampleClusterRole exampleCodec memoryEnforcer] wf keys by simp
  have clash: "\<not> nameClash (ObjBinding exampleBinding) other"
    if "fmlookup (fmupd (CRDTypeClusterAuthzRole, [], ''r'') exampleClusterRole fmempty) k = Some other" for k other
    using that by (auto simp: nameClash_def exampleClusterRole_def split: if_splits)
  have "fmlookup (fmupd (CRDTypeClusterAuthzRole, [], ''r'') exampleClusterRole fmempty) (objKey (ObjBinding exampleBinding)) = None"
    using keys by simp
  from syncReachable.step[OF first syncStep.created[OF this wfb clash]] show ?thesis
    unfolding keys exampleRoleStore_def .
qed

theorem enforcement_follows_resources_witness:
  "permEnforce exampleCodec (\<lambda>_. None) (groupings exampleRoleStore) (policies exampleRoleStore)
     ''groups:dev'' ''ns/a/project/p'' ''component:view'' ''{}'' \<and>
   \<not> permEnforce exampleCodec (\<lambda>_. None) (groupings exampleRoleStore) (policies exampleRoleStore)
     ''groups:ops'' ''ns/a/project/p'' ''component:view'' ''{}''"
proof -
  let ?live = "fmupd (CRDTypeAuthzRoleBinding, ''a'', ''b'') (ObjBinding exampleBinding)
       (fmupd (CRDTypeClusterAuthzRole, [], ''r'') exampleClusterRole fmempty)"
  have bindings: "(\<exists>k. fmlookup ?live k = Some (ObjBinding b)) \<longleftrightarrow> b = exampleBinding"
    "\<not> (\<exists>k. fmlookup ?live k = Some (ObjClusterBinding cb))" for b cb
    by (auto simp: exampleClusterRole_def split: if_splits)
  have gives: "resourcesGive exampleCodec C ?live eft sub resource act ctx \<longleftrightarrow>
      bEffect exampleBinding = eft \<and> bindingGives exampleCodec C ?live exampleBinding sub resource act ctx" for C eft sub resource act ctx
    by (rule resourcesGive_one) (use bindings in blast)+
  have offers: "roleOffers ?live CRDTypeClusterAuthzRole ''r'' ''a'' ''component:view''"
    unfolding roleOffers_def if_P[OF refl]
    by (rule exI[of _ "(CRDTypeClusterAuthzRole, [], ''r'')"])
      (simp add: exampleClusterRole_def exampleMeta_def actionMatch_def suffix_def)
  have "bindingGives exampleCodec (\<lambda>_. None) ?live exampleBinding ''groups:dev'' ''ns/a/project/p'' ''component:view'' ''{}''"
    "\<not> bindingGives exampleCodec (\<lambda>_. None) ?live exampleBinding ''groups:ops'' ''ns/a/project/p'' ''component:view'' ''{}''"
    unfolding bindingGives_def using offers
    by (simp_all add: exampleBinding_def exampleMeta_def formatSubject_def resourceHierarchyToPath_def trimSlashes_def resourceMatch_def
        ConditionMatcher_def isPolicyConditionEmpty_def serializeAuthzConditions_def emptyContextJSON_def CRDTypeClusterAuthzRole_def)
  moreover have "bEffect exampleBinding = ''allow''" by (simp add: exampleBinding_def)
  ultimately show ?thesis
    unfolding enforcement_follows_resources[OF mem.casbin_store_axioms example_role_reachable] gives by simp
qed

subsection \<open>Two bindings of one name\<close>

text \<open>
  A mapping of a namespaced binding and one of a cluster-wide binding give the same tuple when they grant
  the same cluster-wide role to the same subject in the same scope under the same conditions.
\<close>

definition sameGrant :: "AuthzRoleBinding \<Rightarrow> RoleMapping \<Rightarrow> ClusterAuthzRoleBinding \<Rightarrow> ClusterRoleMapping \<Rightarrow> bool" where
  "sameGrant b m cb cm \<longleftrightarrow>
     omName (bMeta b) = omName (cbMeta cb) \<and> bClaim b = cbClaim cb \<and> bValue b = cbValue cb \<and> bEffect b = cbEffect cb \<and>
     rmRoleRef m = cmRoleRef cm \<and> rrKind (rmRoleRef m) = CRDTypeClusterAuthzRole \<and>
     cmScope cm = \<lparr>tsNamespace = omNamespace (bMeta b), tsProject = scProject (rmScope m),
       tsComponent = scComponent (rmScope m), tsResource = scResource (rmScope m)\<rparr> \<and>
     rmConditions m = cmConditions cm"

lemma sameGrant_rules:
  assumes "sameGrant b m cb cm" and "m \<in> set (bRoleMappings b)" and "cm \<in> set (cbRoleMappings cb)"
    and "formatSubject (bClaim b) (bValue b) = Inr subject" and "bEffect b \<noteq> []"
  shows "bindingRule J b subject m \<in> set (policyRules J (ObjBinding b)) \<inter> set (policyRules J (ObjClusterBinding cb))"
proof -
  have "clusterBindingRule J cb subject cm = bindingRule J b subject m"
    using assms(1) by (auto simp: sameGrant_def clusterBindingRule_def bindingRule_def)
  then have "bindingRule J b subject m \<in> clusterBindingRule J cb subject ` set (cbRoleMappings cb)"
    using assms(3) by (metis imageI)
  then show ?thesis
    using assms by (simp add: sameGrant_def policyRules_def bindingRules_def clusterBindingRules_def)
qed

text \<open>C35: A cluster-wide and a namespaced binding of one name that grant the same role to the same subject in the
  same scope share a tuple. With both live the store holds it once; deleting either of them, seen or reported by
  a tombstone, takes it out of the store although the other one still declares it. This holds from every
  store, for every enforcer that keeps Casbin's laws.\<close>

theorem binding_name_clash_revokes:
  assumes "casbin_store E" and "wfObject J (ObjBinding b)" and "wfObject J (ObjClusterBinding cb)"
    and "sameGrant b m cb cm" and "m \<in> set (bRoleMappings b)" and "cm \<in> set (cbRoleMappings cb)"
    and "formatSubject (bClaim b) (bValue b) = Inr subject" and "bEffect b \<noteq> []"
    and "first = ObjBinding b \<and> second = ObjClusterBinding cb \<or> first = ObjClusterBinding cb \<and> second = ObjBinding b"
    and "delivered = second \<or> delivered = DeletedFinalStateUnknown second"
  shows "let shared = bindingRule J b subject m;
      both = OnAdd E J (objType second) second (OnAdd E J (objType first) first st);
      left = OnDelete E J (objType second) delivered both
    in shared \<in> set (policies both) \<and> shared \<in> set (policyRules J first) \<and> shared \<notin> set (policies left)"
proof -
  have wf: "wfObject J first" "wfObject J second" using assms(2,3,9) by auto
  have shared: "bindingRule J b subject m \<in> set (policyRules J first) \<inter> set (policyRules J second)"
    using sameGrant_rules[OF assms(4-8)] assms(9) by auto
  define both where "both = OnAdd E J (objType second) second (OnAdd E J (objType first) first st)"
  have both: "set (policies both) = set (policies st) \<union> set (policyRules J first) \<union> set (policyRules J second)"
    using casbin_store.onAdd[OF assms(1)] wf unfolding both_def by simp
  then have "set (policies (OnDelete E J (objType second) delivered both)) = set (policies both) - set (policyRules J second)"
    using casbin_store.onDelete[OF assms(1) wf(2) _ assms(10), of both] by simp
  with shared both show ?thesis by (simp add: both_def Let_def)
qed

theorem binding_name_clash_revokes_witness:
  "let shared = [''groups:dev'', ''ns/a'', ''r'', ''*'', ''allow'', ''{}'', ''b''];
     empty = \<lparr>groupings = [], policies = []\<rparr>; b = ObjBinding exampleBinding; cb = ObjClusterBinding exampleClusterBinding;
     both = OnAdd memoryEnforcer exampleCodec CRDTypeClusterAuthzRoleBinding cb
       (OnAdd memoryEnforcer exampleCodec CRDTypeAuthzRoleBinding b empty);
     left = OnDelete memoryEnforcer exampleCodec CRDTypeClusterAuthzRoleBinding (DeletedFinalStateUnknown cb) both
   in shared \<in> set (policies both) \<and> shared \<in> set (policyRules exampleCodec b) \<and> shared \<notin> set (policies left)"
proof -
  have wf: "wfObject exampleCodec (ObjBinding exampleBinding)" "wfObject exampleCodec (ObjClusterBinding exampleClusterBinding)"
    by (simp_all add: wfObject_def policyRules_def example_rules wfPolicies_def)
      (simp_all add: exampleBinding_def exampleClusterBinding_def exampleMeta_def)
  have grant: "sameGrant exampleBinding (hd (bRoleMappings exampleBinding)) exampleClusterBinding (hd (cbRoleMappings exampleClusterBinding))"
    "hd (bRoleMappings exampleBinding) \<in> set (bRoleMappings exampleBinding)"
    "hd (cbRoleMappings exampleClusterBinding) \<in> set (cbRoleMappings exampleClusterBinding)"
    "formatSubject (bClaim exampleBinding) (bValue exampleBinding) = Inr ''groups:dev''" "bEffect exampleBinding \<noteq> []"
    by (simp_all add: sameGrant_def exampleBinding_def exampleClusterBinding_def exampleMeta_def formatSubject_def
        CRDTypeClusterAuthzRole_def)
  have "bindingRule exampleCodec exampleBinding ''groups:dev'' (hd (bRoleMappings exampleBinding)) =
      [''groups:dev'', ''ns/a'', ''r'', ''*'', ''allow'', ''{}'', ''b'']"
    using example_rules(1)[of exampleCodec] grant(4,5) by (simp add: bindingRules_def) (simp add: exampleBinding_def)
  with binding_name_clash_revokes[OF mem.casbin_store_axioms wf grant disjI1[OF conjI[OF refl refl]] disjI2[OF refl],
      of "\<lparr>groupings = [], policies = []\<rparr>"]
  show ?thesis by (simp add: objType_def Let_def)
qed

subsection \<open>Bindings that cannot be read\<close>

lemma drift_sets:
  assumes "casbin_store E" and "syncReachable E J (live, st)" and "fmlookup live (objKey new) = Some old" and "wfObject J new"
  shows "set (policyRules J old) \<subseteq> set (policies st)"
    and "rule \<in> set (policies st) \<Longrightarrow> rule \<notin> set (policyRules J old) \<Longrightarrow> rule \<notin> set (policyRules J new)"
proof -
  have live: "wfLive J live" and store: "set (policies st) = declared (policyRules J) live"
    using casbin_store.reachable_synced[OF assms(1,2)] by (simp_all add: synced_def)
  show "set (policyRules J old) \<subseteq> set (policies st)" using declared_member[OF assms(3)] store by simp
  have key: "objKey old = objKey new" using wfLiveD[OF live assms(3)] by simp
  assume rule: "rule \<in> set (policies st)" "rule \<notin> set (policyRules J old)"
  then obtain k other where other: "fmlookup live k = Some other" "rule \<in> set (policyRules J other)"
    unfolding store declared_def by blast
  moreover from this have "k \<noteq> objKey new" using rule(2) assms(3) by auto
  ultimately have other: "fmlookup live k = Some other" "rule \<in> set (policyRules J other)" "k \<noteq> objKey new" by simp_all
  from live_disjoint(2)[OF wfLive_replace[OF live assms(3) key assms(4)], of new k other] other
  show "rule \<notin> set (policyRules J new)" by auto
qed


text \<open>C37: A binding that stops being readable keeps its grants. When, after such a run, an update empties the claim, the value or the
  effect of a binding, the store keeps every tuple of the version before, which no live object declares any
  more, and deleting the binding afterwards does not remove them either.\<close>

theorem unreadable_update_keeps_grants:
  assumes "casbin_store E" and "syncReachable E J (live, st)" and "fmlookup live (objKey new) = Some old"
    and "wfObject J new" and "readable J old" and "\<not> readable J new"
    and "delivered = new \<or> delivered = DeletedFinalStateUnknown new"
  shows "let st1 = OnUpdate E J (objType new) old new st; st2 = OnDelete E J (objType new) delivered st1
    in set (policyRules J old) \<subseteq> set (policies st2) \<and> set (policies st2) = set (policies st) \<and>
       set (policyRules J old) \<inter> declared (policyRules J) (fmupd (objKey new) new live) = {}"
proof -
  have same: "OnUpdate E J (objType new) old new st = st"
    using casbin_store.onUpdate_unreadable[OF assms(1)] assms(6) by blast
  have none: "policyRules J new = []" using unreadable_rules[OF assms(6)] by simp
  then have deleted: "set (policies (OnDelete E J (objType new) delivered st)) = set (policies st)"
    using casbin_store.onDelete[OF assms(1,4) _ assms(7), of st] by simp
  have live: "wfLive J live" using casbin_store.reachable_synced[OF assms(1,2)] by (simp add: synced_def)
  have "set (policyRules J old) \<inter> set (policyRules J other) = {}" if "fmlookup live k = Some other" "k \<noteq> objKey new" for k other
    using live_disjoint(2)[OF live, of old k other] wfLiveD[OF live assms(3)] assms(3) that by simp
  then have "set (policyRules J old) \<inter> declared (policyRules J) (fmupd (objKey new) new live) = {}"
    using none by (fastforce simp: declared_def split: if_splits)
  then show ?thesis
    using same deleted drift_sets(1)[OF assms(1-4)] by (simp add: Let_def)
qed

text \<open>Versions of the example binding, with and without a value.\<close>

definition exampleVersion :: "int \<Rightarrow> string \<Rightarrow> authzObject" where
  "exampleVersion generation value =
     ObjBinding (exampleBinding\<lparr>bMeta := (exampleMeta ''a'' ''b'')\<lparr>omGeneration := generation\<rparr>, bValue := value\<rparr>)"

lemma example_versions:
  "policyRules J (exampleVersion g ''dev'') = [[''groups:dev'', ''ns/a'', ''r'', ''*'', ''allow'', ''{}'', ''b'']]"
  "readable J (exampleVersion g ''dev'')" "\<not> readable J (exampleVersion g [])" "policyRules J (exampleVersion g []) = []"
  by (simp_all add: policyRules_def readable_def bindingRules_def bindingRule_def exampleVersion_def exampleBinding_def
      exampleMeta_def formatSubject_def resourceHierarchyToPath_def trimSlashes_def serializeAuthzConditions_def
      emptyContextJSON_def CRDTypeClusterAuthzRole_def Let_def)

lemma example_version_object:
  "objKey (exampleVersion g v) = (CRDTypeAuthzRoleBinding, ''a'', ''b'')" "objType (exampleVersion g v) = CRDTypeAuthzRoleBinding"
  "wfObject J (exampleVersion g ''dev'')" "wfObject J (exampleVersion g [])"
proof -
  show "objKey (exampleVersion g v) = (CRDTypeAuthzRoleBinding, ''a'', ''b'')" "objType (exampleVersion g v) = CRDTypeAuthzRoleBinding"
    by (simp_all add: objKey_def objType_def objMeta_def exampleVersion_def exampleMeta_def)
  show "wfObject J (exampleVersion g ''dev'')" "wfObject J (exampleVersion g [])"
    unfolding wfObject_def example_versions by (simp_all add: wfPolicies_def exampleVersion_def exampleMeta_def)
qed

lemma example_version_reachable:
  assumes "v = ''dev'' \<or> v = []"
  shows "syncReachable memoryEnforcer J (fmupd (CRDTypeAuthzRoleBinding, ''a'', ''b'') (exampleVersion g v) fmempty,
    OnAdd memoryEnforcer J CRDTypeAuthzRoleBinding (exampleVersion g v) \<lparr>groupings = [], policies = []\<rparr>)"
  using syncReachable.step[OF syncReachable.start syncStep.created, of "exampleVersion g v" J memoryEnforcer] assms
  by (auto simp: example_version_object)


theorem unreadable_update_keeps_grants_witness:
  "let crdType = CRDTypeAuthzRoleBinding; old = exampleVersion 1 ''dev''; new = exampleVersion 2 [];
     st = OnAdd memoryEnforcer exampleCodec crdType old \<lparr>groupings = [], policies = []\<rparr>;
     st1 = OnUpdate memoryEnforcer exampleCodec crdType old new st
   in [''groups:dev'', ''ns/a'', ''r'', ''*'', ''allow'', ''{}'', ''b''] \<in>
      set (policies (OnDelete memoryEnforcer exampleCodec crdType new st1))"
  using unreadable_update_keeps_grants[OF mem.casbin_store_axioms example_version_reachable[of "''dev''" exampleCodec 1],
      of "exampleVersion 2 []" "exampleVersion 1 ''dev''" "exampleVersion 2 []"]
  by (auto simp: example_version_object example_versions Let_def)

end
