(* ===== verification/Authz_Pap.thy ===== *)
theory Authz_Pap
  imports Authz_Sync
begin

text \<open>
  The policy administration point: \<^verbatim>\<open>src/internal/authz/casbin/pap.go\<close>.

  Roles and bindings are resources of the cluster; the Kubernetes client is a parameter with the cluster
  state passed explicitly. The twenty operations are four families over the four resource types that
  differ in the sentinel errors, the messages and the key; each is one definition over the family's
  operation. A missing argument (a nil pointer) is \<open>None\<close>.
\<close>

subsection \<open>The Kubernetes client\<close>

datatype k8sError = AlreadyExists | NotFound | OtherK8sError string

datatype listOption = InNamespace string | Limit int | Continue string

record ('c, 'o) k8sClient =
  k8sCreate :: "'c \<Rightarrow> 'o \<Rightarrow> 'c \<times> (k8sError, 'o) result"
  k8sGet :: "'c \<Rightarrow> string \<Rightarrow> string \<Rightarrow> (k8sError, 'o) result"
  k8sUpdate :: "'c \<Rightarrow> 'o \<Rightarrow> 'c \<times> (k8sError, 'o) result"
  k8sDelete :: "'c \<Rightarrow> string \<Rightarrow> string \<Rightarrow> 'c \<times> k8sError option"
  k8sList :: "'c \<Rightarrow> listOption list \<Rightarrow> (k8sError, 'o list \<times> string) result"

datatype papError =
    PapInvalidRequest string
  | ErrRoleAlreadyExists
  | ErrRoleNotFound
  | ErrRoleMappingAlreadyExists
  | ErrRoleMappingNotFound
  | PapFailed string k8sError

record 'o PaginatedList =
  plItems :: "'o list"
  plNextCursor :: string

subsection \<open>The families\<close>

definition papCreate ::
    "papError \<Rightarrow> string \<Rightarrow> string \<Rightarrow> ('c, 'o) k8sClient \<Rightarrow> 'c \<Rightarrow> 'o option \<Rightarrow> 'c \<times> (papError, 'o) result" where
  "papCreate exists kind noun K c arg =
     (case arg of
        None \<Rightarrow> (c, Inl (PapInvalidRequest (noun @ '' cannot be nil'')))
      | Some obj \<Rightarrow>
          (case k8sCreate K c obj of
             (c', Inl err) \<Rightarrow> (c', Inl (if err = AlreadyExists then exists else PapFailed (''failed to create '' @ kind) err))
           | (c', Inr obj') \<Rightarrow> (c', Inr obj')))"

definition papGet ::
    "papError \<Rightarrow> string \<Rightarrow> ('c, 'o) k8sClient \<Rightarrow> 'c \<Rightarrow> string \<Rightarrow> string \<Rightarrow> (papError, 'o) result" where
  "papGet missing kind K c namespace name =
     (case k8sGet K c namespace name of
        Inl err \<Rightarrow> Inl (if err = NotFound then missing else PapFailed (''failed to get '' @ kind) err)
      | Inr obj \<Rightarrow> Inr obj)"

definition papList ::
    "string \<Rightarrow> ('c, 'o) k8sClient \<Rightarrow> 'c \<Rightarrow> listOption list \<Rightarrow> (papError, 'o PaginatedList) result" where
  "papList kinds K c opts =
     (case k8sList K c opts of
        Inl err \<Rightarrow> Inl (PapFailed (''failed to list '' @ kinds) err)
      | Inr (items, continueToken) \<Rightarrow> Inr \<lparr>plItems = items, plNextCursor = continueToken\<rparr>)"

text \<open>\<open>overwrite existing incoming\<close>: the labels, annotations and spec of the incoming object.\<close>

definition papUpdate ::
    "papError \<Rightarrow> string \<Rightarrow> string \<Rightarrow> ('o \<Rightarrow> string \<times> string) \<Rightarrow> ('o \<Rightarrow> 'o \<Rightarrow> 'o) \<Rightarrow>
     ('c, 'o) k8sClient \<Rightarrow> 'c \<Rightarrow> 'o option \<Rightarrow> 'c \<times> (papError, 'o) result" where
  "papUpdate missing kind noun keyOf overwrite K c arg =
     (case arg of
        None \<Rightarrow> (c, Inl (PapInvalidRequest (noun @ '' cannot be nil'')))
      | Some obj \<Rightarrow>
          (case papGet missing kind K c (fst (keyOf obj)) (snd (keyOf obj)) of
             Inl err \<Rightarrow> (c, Inl err)
           | Inr existing \<Rightarrow>
               (case k8sUpdate K c (overwrite existing obj) of
                  (c', Inl err) \<Rightarrow> (c', Inl (if err = NotFound then missing else PapFailed (''failed to update '' @ kind) err))
                | (c', Inr obj') \<Rightarrow> (c', Inr obj'))))"

definition papDelete ::
    "papError \<Rightarrow> string \<Rightarrow> ('c, 'o) k8sClient \<Rightarrow> 'c \<Rightarrow> string \<Rightarrow> string \<Rightarrow> 'c \<times> papError option" where
  "papDelete missing kind K c namespace name =
     (case k8sDelete K c namespace name of
        (c', Some err) \<Rightarrow> (c', Some (if err = NotFound then missing else PapFailed (''failed to delete '' @ kind) err))
      | (c', None) \<Rightarrow> (c', None))"

definition limitOption :: "int \<Rightarrow> listOption list" where
  "limitOption limit = (if limit > 0 then [Limit limit] else [])"

definition cursorOption :: "string \<Rightarrow> listOption list" where
  "cursorOption cursor = (if cursor \<noteq> [] then [Continue cursor] else [])"

definition metaKey :: "ObjectMeta \<Rightarrow> string \<times> string" where
  "metaKey m = (omNamespace m, omName m)"

definition overwriteMeta :: "ObjectMeta \<Rightarrow> ObjectMeta \<Rightarrow> ObjectMeta" where
  "overwriteMeta existing incoming =
     existing\<lparr>omLabels := omLabels incoming, omAnnotations := omAnnotations incoming\<rparr>"

subsection \<open>Actions\<close>

definition ListActions :: "(papError, Action list) result" where
  "ListActions = Inr PublicActions"

subsection \<open>Cluster roles\<close>

definition CreateClusterRole ::
    "('c, ClusterAuthzRole) k8sClient \<Rightarrow> 'c \<Rightarrow> ClusterAuthzRole option \<Rightarrow> 'c \<times> (papError, ClusterAuthzRole) result" where
  "CreateClusterRole = papCreate ErrRoleAlreadyExists ''ClusterAuthzRole'' ''cluster role''"

definition GetClusterRole ::
    "('c, ClusterAuthzRole) k8sClient \<Rightarrow> 'c \<Rightarrow> string \<Rightarrow> (papError, ClusterAuthzRole) result" where
  "GetClusterRole K c name = papGet ErrRoleNotFound ''ClusterAuthzRole'' K c [] name"

text \<open>Here the cursor only counts together with a limit.\<close>

definition ListClusterRoles ::
    "('c, ClusterAuthzRole) k8sClient \<Rightarrow> 'c \<Rightarrow> int \<Rightarrow> string \<Rightarrow> (papError, ClusterAuthzRole PaginatedList) result" where
  "ListClusterRoles K c limit cursor =
     papList ''ClusterAuthzRoles'' K c
       (limitOption limit @ (if cursor \<noteq> [] \<and> limit > 0 then [Continue cursor] else []))"

definition overwriteClusterRole :: "ClusterAuthzRole \<Rightarrow> ClusterAuthzRole \<Rightarrow> ClusterAuthzRole" where
  "overwriteClusterRole existing role =
     existing\<lparr>crMeta := overwriteMeta (crMeta existing) (crMeta role), crSpec := crSpec role\<rparr>"

definition UpdateClusterRole ::
    "('c, ClusterAuthzRole) k8sClient \<Rightarrow> 'c \<Rightarrow> ClusterAuthzRole option \<Rightarrow> 'c \<times> (papError, ClusterAuthzRole) result" where
  "UpdateClusterRole =
     papUpdate ErrRoleNotFound ''ClusterAuthzRole'' ''cluster role'' (\<lambda>r. ([], omName (crMeta r))) overwriteClusterRole"

definition DeleteClusterRole ::
    "('c, ClusterAuthzRole) k8sClient \<Rightarrow> 'c \<Rightarrow> string \<Rightarrow> 'c \<times> papError option" where
  "DeleteClusterRole K c name = papDelete ErrRoleNotFound ''ClusterAuthzRole'' K c [] name"

subsection \<open>Namespaced roles\<close>

definition CreateNamespacedRole ::
    "('c, AuthzRole) k8sClient \<Rightarrow> 'c \<Rightarrow> AuthzRole option \<Rightarrow> 'c \<times> (papError, AuthzRole) result" where
  "CreateNamespacedRole = papCreate ErrRoleAlreadyExists ''AuthzRole'' ''namespaced role''"

definition GetNamespacedRole ::
    "('c, AuthzRole) k8sClient \<Rightarrow> 'c \<Rightarrow> string \<Rightarrow> string \<Rightarrow> (papError, AuthzRole) result" where
  "GetNamespacedRole K c name namespace = papGet ErrRoleNotFound ''AuthzRole'' K c namespace name"

definition ListNamespacedRoles ::
    "('c, AuthzRole) k8sClient \<Rightarrow> 'c \<Rightarrow> string \<Rightarrow> int \<Rightarrow> string \<Rightarrow> (papError, AuthzRole PaginatedList) result" where
  "ListNamespacedRoles K c namespace limit cursor =
     papList ''AuthzRoles'' K c ([InNamespace namespace] @ limitOption limit @ cursorOption cursor)"

definition overwriteRole :: "AuthzRole \<Rightarrow> AuthzRole \<Rightarrow> AuthzRole" where
  "overwriteRole existing role =
     existing\<lparr>roleMeta := overwriteMeta (roleMeta existing) (roleMeta role), roleSpec := roleSpec role\<rparr>"

definition UpdateNamespacedRole ::
    "('c, AuthzRole) k8sClient \<Rightarrow> 'c \<Rightarrow> AuthzRole option \<Rightarrow> 'c \<times> (papError, AuthzRole) result" where
  "UpdateNamespacedRole =
     papUpdate ErrRoleNotFound ''AuthzRole'' ''namespaced role'' (\<lambda>r. metaKey (roleMeta r)) overwriteRole"

definition DeleteNamespacedRole ::
    "('c, AuthzRole) k8sClient \<Rightarrow> 'c \<Rightarrow> string \<Rightarrow> string \<Rightarrow> 'c \<times> papError option" where
  "DeleteNamespacedRole K c name namespace = papDelete ErrRoleNotFound ''AuthzRole'' K c namespace name"

subsection \<open>Cluster role bindings\<close>

definition CreateClusterRoleBinding ::
    "('c, ClusterAuthzRoleBinding) k8sClient \<Rightarrow> 'c \<Rightarrow> ClusterAuthzRoleBinding option \<Rightarrow>
     'c \<times> (papError, ClusterAuthzRoleBinding) result" where
  "CreateClusterRoleBinding = papCreate ErrRoleMappingAlreadyExists ''ClusterAuthzRoleBinding'' ''cluster role binding''"

definition GetClusterRoleBinding ::
    "('c, ClusterAuthzRoleBinding) k8sClient \<Rightarrow> 'c \<Rightarrow> string \<Rightarrow> (papError, ClusterAuthzRoleBinding) result" where
  "GetClusterRoleBinding K c name = papGet ErrRoleMappingNotFound ''ClusterAuthzRoleBinding'' K c [] name"

definition ListClusterRoleBindings ::
    "('c, ClusterAuthzRoleBinding) k8sClient \<Rightarrow> 'c \<Rightarrow> int \<Rightarrow> string \<Rightarrow>
     (papError, ClusterAuthzRoleBinding PaginatedList) result" where
  "ListClusterRoleBindings K c limit cursor =
     papList ''ClusterAuthzRoleBindings'' K c (limitOption limit @ cursorOption cursor)"

definition overwriteClusterBinding ::
    "ClusterAuthzRoleBinding \<Rightarrow> ClusterAuthzRoleBinding \<Rightarrow> ClusterAuthzRoleBinding" where
  "overwriteClusterBinding existing binding =
     existing\<lparr>cbMeta := overwriteMeta (cbMeta existing) (cbMeta binding), cbClaim := cbClaim binding,
       cbValue := cbValue binding, cbRoleMappings := cbRoleMappings binding, cbEffect := cbEffect binding\<rparr>"

definition UpdateClusterRoleBinding ::
    "('c, ClusterAuthzRoleBinding) k8sClient \<Rightarrow> 'c \<Rightarrow> ClusterAuthzRoleBinding option \<Rightarrow>
     'c \<times> (papError, ClusterAuthzRoleBinding) result" where
  "UpdateClusterRoleBinding =
     papUpdate ErrRoleMappingNotFound ''ClusterAuthzRoleBinding'' ''cluster role binding''
       (\<lambda>b. ([], omName (cbMeta b))) overwriteClusterBinding"

definition DeleteClusterRoleBinding ::
    "('c, ClusterAuthzRoleBinding) k8sClient \<Rightarrow> 'c \<Rightarrow> string \<Rightarrow> 'c \<times> papError option" where
  "DeleteClusterRoleBinding K c name = papDelete ErrRoleMappingNotFound ''ClusterAuthzRoleBinding'' K c [] name"

subsection \<open>Namespaced role bindings\<close>

definition CreateNamespacedRoleBinding ::
    "('c, AuthzRoleBinding) k8sClient \<Rightarrow> 'c \<Rightarrow> AuthzRoleBinding option \<Rightarrow> 'c \<times> (papError, AuthzRoleBinding) result" where
  "CreateNamespacedRoleBinding = papCreate ErrRoleMappingAlreadyExists ''AuthzRoleBinding'' ''namespaced role binding''"

definition GetNamespacedRoleBinding ::
    "('c, AuthzRoleBinding) k8sClient \<Rightarrow> 'c \<Rightarrow> string \<Rightarrow> string \<Rightarrow> (papError, AuthzRoleBinding) result" where
  "GetNamespacedRoleBinding K c name namespace = papGet ErrRoleMappingNotFound ''AuthzRoleBinding'' K c namespace name"

definition ListNamespacedRoleBindings ::
    "('c, AuthzRoleBinding) k8sClient \<Rightarrow> 'c \<Rightarrow> string \<Rightarrow> int \<Rightarrow> string \<Rightarrow>
     (papError, AuthzRoleBinding PaginatedList) result" where
  "ListNamespacedRoleBindings K c namespace limit cursor =
     papList ''AuthzRoleBindings'' K c ([InNamespace namespace] @ limitOption limit @ cursorOption cursor)"

definition overwriteBinding :: "AuthzRoleBinding \<Rightarrow> AuthzRoleBinding \<Rightarrow> AuthzRoleBinding" where
  "overwriteBinding existing binding =
     existing\<lparr>bMeta := overwriteMeta (bMeta existing) (bMeta binding), bClaim := bClaim binding,
       bValue := bValue binding, bRoleMappings := bRoleMappings binding, bEffect := bEffect binding\<rparr>"

definition UpdateNamespacedRoleBinding ::
    "('c, AuthzRoleBinding) k8sClient \<Rightarrow> 'c \<Rightarrow> AuthzRoleBinding option \<Rightarrow> 'c \<times> (papError, AuthzRoleBinding) result" where
  "UpdateNamespacedRoleBinding =
     papUpdate ErrRoleMappingNotFound ''AuthzRoleBinding'' ''namespaced role binding'' (\<lambda>b. metaKey (bMeta b)) overwriteBinding"

definition DeleteNamespacedRoleBinding ::
    "('c, AuthzRoleBinding) k8sClient \<Rightarrow> 'c \<Rightarrow> string \<Rightarrow> string \<Rightarrow> 'c \<times> papError option" where
  "DeleteNamespacedRoleBinding K c name namespace = papDelete ErrRoleMappingNotFound ''AuthzRoleBinding'' K c namespace name"

end
