(* ===== verification/Conn_Manager.thy ===== *)
theory Conn_Manager
  imports Go_Prelude
begin

text \<open>
  Connections of the cluster gateway: \<^verbatim>\<open>src/internal/cluster-gateway/connection_manager.go\<close>.

  The manager is a record with the connections per plane, the round-robin counters, whether a listener
  is set, and the trace of the calls it makes to the outside: closing a connection and the callbacks
  of the listener. Each method runs under the manager's lock and is one function on the record;
  \<open>RevalidateCR\<close>, which verifies between two critical sections, is given for an undisturbed run.
  Connections are pointers in the code; the manager holds each under one plane, so that an update of
  a connection is an update of the list that holds it. Time stamps and the identifiers \<open>uuid.New\<close>
  makes are arguments. Certificates are opaque; \<open>x509\<close> gives parsing of PEM data and verification.
\<close>

subsection \<open>Connections\<close>

record x509 =
  parsePool :: "string \<Rightarrow> string option"
  verifyCert :: "string \<Rightarrow> string option \<Rightarrow> string \<Rightarrow> string option"

record AgentConnection =
  acID :: string
  acPlaneType :: string
  acPlaneID :: string
  acPlaneIdentifier :: string
  acConnectedAt :: int
  acLastSeen :: int
  acValidCRs :: "string list"
  acClientCert :: string
  acIntermediates :: "string option"

definition IsValidForCR :: "AgentConnection \<Rightarrow> string \<Rightarrow> bool" where
  "IsValidForCR ac crKey \<longleftrightarrow> crKey \<in> set (acValidCRs ac)"

definition SetValidCRs :: "AgentConnection \<Rightarrow> string list \<Rightarrow> AgentConnection" where
  "SetValidCRs ac validCRs = ac\<lparr>acValidCRs := validCRs\<rparr>"

definition GetValidCRs :: "AgentConnection \<Rightarrow> string list" where
  "GetValidCRs ac = acValidCRs ac"

definition AddValidCR :: "AgentConnection \<Rightarrow> string \<Rightarrow> AgentConnection" where
  "AddValidCR ac crKey = (if crKey \<in> set (acValidCRs ac) then ac else ac\<lparr>acValidCRs := acValidCRs ac @ [crKey]\<rparr>)"

definition removeValidCRUnsafe :: "AgentConnection \<Rightarrow> string \<Rightarrow> AgentConnection" where
  "removeValidCRUnsafe ac crKey = ac\<lparr>acValidCRs := filter (\<lambda>validCR. validCR \<noteq> crKey) (acValidCRs ac)\<rparr>"

definition RemoveValidCR :: "AgentConnection \<Rightarrow> string \<Rightarrow> AgentConnection" where
  "RemoveValidCR ac crKey = ac\<lparr>acValidCRs := filter (\<lambda>validCR. validCR \<noteq> crKey) (acValidCRs ac)\<rparr>"

text \<open>The result is the connection, whether the authorisation was granted, whether it was revoked, and the
  error of the verification.\<close>

definition UpdateCRValidity ::
    "x509 \<Rightarrow> AgentConnection \<Rightarrow> string \<Rightarrow> string \<Rightarrow> AgentConnection \<times> bool \<times> bool \<times> string option" where
  "UpdateCRValidity X ac crKey certPool =
     (let wasValid = crKey \<in> set (acValidCRs ac);
          verifyErr = verifyCert X certPool (acIntermediates ac) (acClientCert ac);
          isValid = (verifyErr = None)
      in if isValid \<and> \<not> wasValid then (ac\<lparr>acValidCRs := acValidCRs ac @ [crKey]\<rparr>, True, False, None)
         else if \<not> isValid \<and> wasValid then (removeValidCRUnsafe ac crKey, False, True, verifyErr)
         else (ac, False, False, None))"

subsection \<open>The manager\<close>

datatype cmEvent =
    ConnClosed string
  | AgentRegistered string string "string list"
  | AgentUnregistered string string
  | AgentCRsChanged string string "string list"

record ConnectionManager =
  connections :: "(string, AgentConnection list) fmap"
  roundRobin :: "(string, nat) fmap"
  hasListener :: bool
  trace :: "cmEvent list"

datatype cmError = NoAgents string | NoAuthorizedAgents string | BadCA | SendFailed string

definition NewConnectionManager :: ConnectionManager where
  "NewConnectionManager = \<lparr>connections = fmempty, roundRobin = fmempty, hasListener = False, trace = []\<rparr>"

definition SetListener :: "ConnectionManager \<Rightarrow> ConnectionManager" where
  "SetListener cm = cm\<lparr>hasListener := True\<rparr>"

definition notify :: "cmEvent \<Rightarrow> ConnectionManager \<Rightarrow> ConnectionManager" where
  "notify e cm = (if hasListener cm then cm\<lparr>trace := trace cm @ [e]\<rparr> else cm)"

definition closeConn :: "AgentConnection \<Rightarrow> ConnectionManager \<Rightarrow> ConnectionManager" where
  "closeConn conn cm = cm\<lparr>trace := trace cm @ [ConnClosed (acID conn)]\<rparr>"

definition planeIdentifierOf :: "string \<Rightarrow> string \<Rightarrow> string" where
  "planeIdentifierOf planeType planeID = planeType @ ''/'' @ planeID"

definition connsOf :: "ConnectionManager \<Rightarrow> string \<Rightarrow> AgentConnection list" where
  "connsOf cm planeIdentifier = (case fmlookup (connections cm) planeIdentifier of None \<Rightarrow> [] | Some conns \<Rightarrow> conns)"

definition counterOf :: "ConnectionManager \<Rightarrow> string \<Rightarrow> nat" where
  "counterOf cm key = (case fmlookup (roundRobin cm) key of None \<Rightarrow> 0 | Some n \<Rightarrow> n)"

definition countAllConnections :: "ConnectionManager \<Rightarrow> nat" where
  "countAllConnections cm = sum_list (map (\<lambda>(_, conns). length conns) (sorted_list_of_fmap (connections cm)))"

definition Register ::
    "ConnectionManager \<Rightarrow> string \<Rightarrow> int \<Rightarrow> string \<Rightarrow> string \<Rightarrow> string list \<Rightarrow> string \<Rightarrow> string option \<Rightarrow> ConnectionManager \<times> string" where
  "Register cm connID now planeType planeID validCRs clientCert intermediates =
     (let planeIdentifier = planeIdentifierOf planeType planeID;
          newConn = \<lparr>acID = connID, acPlaneType = planeType, acPlaneID = planeID, acPlaneIdentifier = planeIdentifier,
            acConnectedAt = now, acLastSeen = now, acValidCRs = validCRs, acClientCert = clientCert,
            acIntermediates = intermediates\<rparr>;
          cm1 = cm\<lparr>connections := fmupd planeIdentifier (connsOf cm planeIdentifier @ [newConn]) (connections cm)\<rparr>
      in (notify (AgentRegistered planeIdentifier connID validCRs) cm1, connID))"

definition cleanupPerCRRoundRobinKeys :: "string \<Rightarrow> ConnectionManager \<Rightarrow> ConnectionManager" where
  "cleanupPerCRRoundRobinKeys planeIdentifier cm =
     (let pre = planeIdentifier @ ''/''
      in cm\<lparr>roundRobin := fmfilter (\<lambda>key. \<not> (length key > length pre \<and> take (length pre) key = pre)) (roundRobin cm)\<rparr>)"

definition hasAuthorizedConn :: "AgentConnection list \<Rightarrow> string \<Rightarrow> bool" where
  "hasAuthorizedConn conns crKey \<longleftrightarrow> (\<exists>conn \<in> set conns. IsValidForCR conn crKey)"

definition crCounterKey :: "string \<Rightarrow> string \<Rightarrow> string" where
  "crCounterKey planeIdentifier crKey = planeIdentifier @ ''/'' @ crKey"

definition cleanupOrphanedCRKeys :: "string \<Rightarrow> string list \<Rightarrow> ConnectionManager \<Rightarrow> ConnectionManager" where
  "cleanupOrphanedCRKeys planeIdentifier removedCRs cm =
     (let remainingConns = connsOf cm planeIdentifier
      in foldl (\<lambda>c crKey. if hasAuthorizedConn remainingConns crKey then c
                 else c\<lparr>roundRobin := fmdrop (crCounterKey planeIdentifier crKey) (roundRobin c)\<rparr>) cm removedCRs)"

definition dropPlane :: "string \<Rightarrow> ConnectionManager \<Rightarrow> ConnectionManager" where
  "dropPlane planeIdentifier cm =
     cleanupPerCRRoundRobinKeys planeIdentifier
       (cm\<lparr>connections := fmdrop planeIdentifier (connections cm), roundRobin := fmdrop planeIdentifier (roundRobin cm)\<rparr>)"

text \<open>Splits a list around the first element with the given identifier.\<close>

fun splitAtID :: "string \<Rightarrow> AgentConnection list \<Rightarrow> (AgentConnection list \<times> AgentConnection \<times> AgentConnection list) option" where
  "splitAtID connID [] = None"
| "splitAtID connID (conn # conns) =
     (if acID conn = connID then Some ([], conn, conns)
      else map_option (\<lambda>(before, c, after). (conn # before, c, after)) (splitAtID connID conns))"

definition Unregister :: "ConnectionManager \<Rightarrow> string \<Rightarrow> string \<Rightarrow> ConnectionManager" where
  "Unregister cm planeIdentifier connID =
     (case fmlookup (connections cm) planeIdentifier of
        None \<Rightarrow> cm
      | Some conns \<Rightarrow>
          (case splitAtID connID conns of
             None \<Rightarrow> cm
           | Some (before, conn, after) \<Rightarrow>
               let validCRs = GetValidCRs conn;
                   cm1 = closeConn conn cm;
                   cm2 = cm1\<lparr>connections := fmupd planeIdentifier (before @ after) (connections cm1)\<rparr>;
                   cm3 = (if before @ after = [] then dropPlane planeIdentifier cm2
                          else cleanupOrphanedCRKeys planeIdentifier validCRs cm2)
               in notify (AgentUnregistered planeIdentifier connID) cm3))"

definition Get :: "ConnectionManager \<Rightarrow> string \<Rightarrow> ConnectionManager \<times> (cmError, AgentConnection) result" where
  "Get cm planeIdentifier =
     (let conns = connsOf cm planeIdentifier in
      if conns = [] then (cm, Inl (NoAgents planeIdentifier))
      else let idx = counterOf cm planeIdentifier mod length conns
           in (cm\<lparr>roundRobin := fmupd planeIdentifier ((idx + 1) mod length conns) (roundRobin cm)\<rparr>, Inr (conns ! idx)))"

definition GetForCR :: "ConnectionManager \<Rightarrow> string \<Rightarrow> string \<Rightarrow> ConnectionManager \<times> (cmError, AgentConnection) result" where
  "GetForCR cm planeIdentifier crKey =
     (let conns = connsOf cm planeIdentifier in
      if conns = [] then (cm, Inl (NoAgents planeIdentifier))
      else let validConns = filter (\<lambda>conn. IsValidForCR conn crKey) conns
           in if validConns = [] then (cm, Inl (NoAuthorizedAgents crKey))
              else let rrKey = crCounterKey planeIdentifier crKey;
                       idx = counterOf cm rrKey mod length validConns
                   in (cm\<lparr>roundRobin := fmupd rrKey ((idx + 1) mod length validConns) (roundRobin cm)\<rparr>,
                       Inr (validConns ! idx)))"

definition GetAll :: "ConnectionManager \<Rightarrow> AgentConnection list" where
  "GetAll cm = concat (map snd (sorted_list_of_fmap (connections cm)))"

definition SendHTTPTunnelRequest ::
    "(AgentConnection \<Rightarrow> 'r \<Rightarrow> string option) \<Rightarrow> ConnectionManager \<Rightarrow> string \<Rightarrow> 'r \<Rightarrow> ConnectionManager \<times> cmError option" where
  "SendHTTPTunnelRequest send cm planeIdentifier req =
     (case Get cm planeIdentifier of
        (cm', Inl err) \<Rightarrow> (cm', Some err)
      | (cm', Inr conn) \<Rightarrow> (cm', map_option SendFailed (send conn req)))"

definition UpdateConnectionLastSeen :: "ConnectionManager \<Rightarrow> int \<Rightarrow> string \<Rightarrow> string \<Rightarrow> ConnectionManager" where
  "UpdateConnectionLastSeen cm now planeIdentifier connID =
     (case fmlookup (connections cm) planeIdentifier of
        None \<Rightarrow> cm
      | Some conns \<Rightarrow>
          (case splitAtID connID conns of
             None \<Rightarrow> cm
           | Some (before, conn, after) \<Rightarrow>
               cm\<lparr>connections := fmupd planeIdentifier (before @ [conn\<lparr>acLastSeen := now\<rparr>] @ after) (connections cm)\<rparr>))"

definition Count :: "ConnectionManager \<Rightarrow> nat" where
  "Count cm = countAllConnections cm"

definition DisconnectAllForPlane :: "ConnectionManager \<Rightarrow> string \<Rightarrow> string \<Rightarrow> ConnectionManager \<times> nat" where
  "DisconnectAllForPlane cm planeType planeID =
     (let planeIdentifier = planeIdentifierOf planeType planeID;
          conns = connsOf cm planeIdentifier
      in if conns = [] then (cm, 0)
         else let cm1 = foldl (\<lambda>c conn. notify (AgentUnregistered planeIdentifier (acID conn)) (closeConn conn c)) cm conns
              in (dropPlane planeIdentifier cm1, length conns))"

subsection \<open>Status\<close>

text \<open>Times count from Go's zero time.\<close>

definition zeroTime :: int where "zeroTime = 0"

record PlaneConnectionStatus =
  stPlaneType :: string
  stPlaneID :: string
  stConnected :: bool
  stConnectedAgents :: nat
  stLastSeen :: int

definition mostRecent :: "int \<Rightarrow> AgentConnection list \<Rightarrow> int" where
  "mostRecent start conns = foldl (\<lambda>t conn. if acLastSeen conn > t then acLastSeen conn else t) start conns"

definition planeStatus :: "string \<Rightarrow> string \<Rightarrow> AgentConnection list \<Rightarrow> PlaneConnectionStatus" where
  "planeStatus planeType planeID conns =
     \<lparr>stPlaneType = planeType, stPlaneID = planeID, stConnected = (conns \<noteq> []), stConnectedAgents = length conns,
      stLastSeen = (case conns of [] \<Rightarrow> zeroTime | c # cs \<Rightarrow> mostRecent (acLastSeen c) cs)\<rparr>"

definition GetPlaneStatus :: "ConnectionManager \<Rightarrow> string \<Rightarrow> string \<Rightarrow> PlaneConnectionStatus" where
  "GetPlaneStatus cm planeType planeID = planeStatus planeType planeID (connsOf cm (planeIdentifierOf planeType planeID))"

definition GetCRAuthorizationStatus ::
    "ConnectionManager \<Rightarrow> string \<Rightarrow> string \<Rightarrow> string \<Rightarrow> string \<Rightarrow> PlaneConnectionStatus" where
  "GetCRAuthorizationStatus cm planeType planeID namespace name =
     (let conns = connsOf cm (planeIdentifierOf planeType planeID);
          crIdentifier = namespace @ ''/'' @ name;
          authorized = filter (\<lambda>conn. crIdentifier \<in> set (acValidCRs conn)) conns
      in if authorized = []
         then \<lparr>stPlaneType = planeType, stPlaneID = planeID, stConnected = False, stConnectedAgents = 0, stLastSeen = zeroTime\<rparr>
         else \<lparr>stPlaneType = planeType, stPlaneID = planeID, stConnected = True, stConnectedAgents = length authorized,
               stLastSeen = mostRecent zeroTime authorized\<rparr>)"

fun splitPlaneIdentifier :: "string \<Rightarrow> string list" where
  "splitPlaneIdentifier [] = [[]]"
| "splitPlaneIdentifier (ch # rest) =
     (if ch = CHR ''/'' then [[], rest]
      else (case splitPlaneIdentifier rest of
              [] \<Rightarrow> [[ch]]
            | part # parts \<Rightarrow> (ch # part) # parts))"

definition GetAllPlaneStatuses :: "ConnectionManager \<Rightarrow> PlaneConnectionStatus list" where
  "GetAllPlaneStatuses cm =
     concat (map (\<lambda>(planeIdentifier, conns).
       (case splitPlaneIdentifier planeIdentifier of
          [planeType, planeID] \<Rightarrow> [planeStatus planeType planeID conns]
        | _ \<Rightarrow> [])) (sorted_list_of_fmap (connections cm)))"

subsection \<open>Re-validation\<close>

fun revalidateConns ::
    "x509 \<Rightarrow> string \<Rightarrow> string \<Rightarrow> string \<Rightarrow> AgentConnection list \<Rightarrow> AgentConnection list \<times> nat \<times> nat \<times> cmEvent list" where
  "revalidateConns X planeIdentifier crKey certPool [] = ([], 0, 0, [])"
| "revalidateConns X planeIdentifier crKey certPool (conn # conns) =
     (let (conn', granted, revoked, verifyErr) = UpdateCRValidity X conn crKey certPool;
          (conns', updated, removed, evs) = revalidateConns X planeIdentifier crKey certPool conns
      in (conn' # conns',
          updated + (if granted then 1 else 0),
          removed + (if \<not> granted \<and> revoked then 1 else 0),
          (if granted \<or> revoked then [AgentCRsChanged planeIdentifier (acID conn') (GetValidCRs conn')] else []) @ evs))"

definition RevalidateCR ::
    "x509 \<Rightarrow> ConnectionManager \<Rightarrow> string \<Rightarrow> string \<Rightarrow> string \<Rightarrow> string \<Rightarrow> string \<Rightarrow>
     ConnectionManager \<times> (cmError, nat \<times> nat) result" where
  "RevalidateCR X cm planeType planeID crNamespace crName newCAData =
     (let planeIdentifier = planeIdentifierOf planeType planeID;
          conns = connsOf cm planeIdentifier;
          crKey = crNamespace @ ''/'' @ crName
      in if conns = [] then (cm, Inr (0, 0))
         else (case parsePool X newCAData of
                 None \<Rightarrow> (cm, Inl BadCA)
               | Some certPool \<Rightarrow>
                   let (conns', updated, removed, evs) = revalidateConns X planeIdentifier crKey certPool conns;
                       cm1 = foldl (\<lambda>c e. notify e c) (cm\<lparr>connections := fmupd planeIdentifier conns' (connections cm)\<rparr>) evs;
                       cm2 = (if removed > 0 \<and> \<not> hasAuthorizedConn (connsOf cm1 planeIdentifier) crKey
                              then cm1\<lparr>roundRobin := fmdrop (crCounterKey planeIdentifier crKey) (roundRobin cm1)\<rparr>
                              else cm1)
                   in (cm2, Inr (updated, removed))))"

end
