(* ===== verification/Gateway_Auth.thy ===== *)
theory Gateway_Auth
  imports Conn_Manager
begin

text \<open>
  How the cluster gateway admits an agent: where its certificate comes from
  (\<^verbatim>\<open>src/internal/cluster-gateway/agent_auth.go\<close>), which authorities the plane CRs configure
  (\<^verbatim>\<open>plane_client_ca.go\<close>), and for which CRs the certificate is valid
  (\<open>verifyClientCertificatePerCR\<close> of \<^verbatim>\<open>server.go\<close>).

  The Kubernetes API is a parameter: listing the objects of a kind and reading a secret. So are
  decoding a PEM block and parsing and verifying certificates.
\<close>

subsection \<open>Forwarded certificates\<close>

datatype authError =
    NoClientCertificate
  | XFCCWithoutCert
  | NoCertificatesInPEM
  | ParseCertificateFailed string
  | InvalidAuthMode string

text \<open>The loop of \<open>splitUnquoted\<close>: the part read so far is kept in reverse.\<close>

fun splitUnquotedLoop :: "char \<Rightarrow> bool \<Rightarrow> string \<Rightarrow> string \<Rightarrow> string list" where
  "splitUnquotedLoop sep inQuotes part [] = [rev part]"
| "splitUnquotedLoop sep inQuotes part (c # s) =
     (if c = CHR 0x5C then
        (if inQuotes then (case s of [] \<Rightarrow> [rev (c # part)] | d # s' \<Rightarrow> splitUnquotedLoop sep inQuotes (d # c # part) s')
         else splitUnquotedLoop sep inQuotes (c # part) s)
      else if c = CHR 0x22 then splitUnquotedLoop sep (\<not> inQuotes) (c # part) s
      else if c = sep \<and> \<not> inQuotes then rev part # splitUnquotedLoop sep inQuotes [] s
      else splitUnquotedLoop sep inQuotes (c # part) s)"

definition splitUnquoted :: "string \<Rightarrow> char \<Rightarrow> string list" where
  "splitUnquoted s sep = splitUnquotedLoop sep False [] s"

text \<open>\<open>strings.Cut\<close> at the first equals sign.\<close>

definition cutEq :: "string \<Rightarrow> (string \<times> string) option" where
  "cutEq s = (case splitN2 (CHR ''='') s of [k, v] \<Rightarrow> Some (k, v) | _ \<Rightarrow> None)"

definition trimQuotes :: "string \<Rightarrow> string" where
  "trimQuotes s = rev (dropWhile (\<lambda>c. c = CHR 0x22) (rev (dropWhile (\<lambda>c. c = CHR 0x22) s)))"

text \<open>\<open>strings.ToLower\<close> also lowers the dotted capital i to an ASCII letter.\<close>

definition lowerKey :: "string \<Rightarrow> string" where
  "lowerKey s = toLower (replaceAll [CHR 0xC4, CHR 0xB0] ''i'' s)"

text \<open>\<open>url.PathUnescape\<close>: fails on a percent sign that two hexadecimal digits do not follow.\<close>

definition hexVal :: "char \<Rightarrow> nat option" where
  "hexVal c =
     (let n = of_char c in
      if 48 \<le> n \<and> n \<le> 57 then Some (n - 48)
      else if 97 \<le> n \<and> n \<le> 102 then Some (n - 87)
      else if 65 \<le> n \<and> n \<le> 70 then Some (n - 55)
      else None)"

fun PathUnescape :: "string \<Rightarrow> string option" where
  "PathUnescape [] = Some []"
| "PathUnescape (c # s) =
     (if c \<noteq> CHR ''%'' then map_option ((#) c) (PathUnescape s)
      else (case s of
              h # l # s' \<Rightarrow>
                (case (hexVal h, hexVal l) of
                   (Some a, Some b) \<Rightarrow> map_option ((#) (char_of (a * 16 + b))) (PathUnescape s')
                 | _ \<Rightarrow> None)
            | _ \<Rightarrow> None))"

text \<open>\<open>pem.Decode\<close> gives the type and the bytes of the next block, and the rest. The loop ends when there is no
  further block; a block it finds is cut from the data.\<close>

record pemBlock =
  pemType :: string
  pemBytes :: string

partial_function (option) parseCACertificatesLoop ::
    "(string \<Rightarrow> (pemBlock \<times> string) option) \<Rightarrow> (string \<Rightarrow> (string, string) result) \<Rightarrow> string list \<Rightarrow> string \<Rightarrow>
     (authError, string list) result option" where
  [code]: "parseCACertificatesLoop pemDecode parseCert certs pemData =
     (if pemData = [] then Some (Inr certs)
      else (case pemDecode pemData of
              None \<Rightarrow> Some (Inr certs)
            | Some (block, rest) \<Rightarrow>
                if pemType block = ''CERTIFICATE''
                then (case parseCert (pemBytes block) of
                        Inl err \<Rightarrow> Some (Inl (ParseCertificateFailed err))
                      | Inr cert \<Rightarrow> parseCACertificatesLoop pemDecode parseCert (certs @ [cert]) rest)
                else parseCACertificatesLoop pemDecode parseCert certs rest))"

definition parseCACertificates ::
    "(string \<Rightarrow> (pemBlock \<times> string) option) \<Rightarrow> (string \<Rightarrow> (string, string) result) \<Rightarrow> string \<Rightarrow> (authError, string list) result option" where
  "parseCACertificates pemDecode parseCert pemData =
     map_option (\<lambda>r. bindR r (\<lambda>certs. if certs = [] then Inl NoCertificatesInPEM else Inr certs))
       (parseCACertificatesLoop pemDecode parseCert [] pemData)"

definition decodeURLEncodedPEM ::
    "(string \<Rightarrow> (pemBlock \<times> string) option) \<Rightarrow> (string \<Rightarrow> (string, string) result) \<Rightarrow> string \<Rightarrow> (authError, string list) result option" where
  "decodeURLEncodedPEM pemDecode parseCert encoded =
     (let decoded = (case PathUnescape encoded of None \<Rightarrow> encoded | Some d \<Rightarrow> d)
      in parseCACertificates pemDecode parseCert decoded)"

definition xfccPair :: "string \<times> string \<Rightarrow> string \<Rightarrow> string \<times> string" where
  "xfccPair lc pair =
     (case cutEq pair of
        None \<Rightarrow> lc
      | Some (key, val) \<Rightarrow>
          let val' = trimQuotes (trimSpace val);
              k = lowerKey (trimSpace key)
          in if k = ''cert'' then (val', snd lc) else if k = ''chain'' then (fst lc, val') else lc)"

text \<open>The PEM data \<open>parseXFCCChain\<close> selects.\<close>

definition xfccSource :: "string \<Rightarrow> string" where
  "xfccSource raw =
     (let element = hd (splitUnquoted raw (CHR '',''));
          (leafPEM, chainPEM) = foldl xfccPair ([], []) (splitUnquoted element (CHR '';''))
      in if chainPEM = [] then leafPEM else chainPEM)"

definition parseXFCCChain ::
    "(string \<Rightarrow> (pemBlock \<times> string) option) \<Rightarrow> (string \<Rightarrow> (string, string) result) \<Rightarrow> string \<Rightarrow> (authError, string list) result option" where
  "parseXFCCChain pemDecode parseCert raw =
     (if xfccSource raw = [] then Some (Inl XFCCWithoutCert) else decodeURLEncodedPEM pemDecode parseCert (xfccSource raw))"

definition parseForwardedCertChain ::
    "(string \<Rightarrow> (pemBlock \<times> string) option) \<Rightarrow> (string \<Rightarrow> (string, string) result) \<Rightarrow> string \<Rightarrow> (authError, string list) result option" where
  "parseForwardedCertChain pemDecode parseCert raw =
     (if hasPrefix raw ''-----BEGIN'' then decodeURLEncodedPEM pemDecode parseCert raw
      else parseXFCCChain pemDecode parseCert raw)"

record agentCredentials =
  crClientCert :: string
  crIntermediates :: "string list"

text \<open>The request as the authenticators see it: the certificates of the handshake, none without TLS, and
  \<open>Header.Get\<close>.\<close>

record authRequest =
  rqPeerCertificates :: "string list"
  rqHeader :: "string \<Rightarrow> string"

datatype AgentAuthenticator = mtlsAuthenticator | forwardedHeaderAuthenticator string

definition credentialsOf :: "string list \<Rightarrow> (authError, agentCredentials) result" where
  "credentialsOf certs =
     (case certs of [] \<Rightarrow> Inl NoClientCertificate | c # cs \<Rightarrow> Inr \<lparr>crClientCert = c, crIntermediates = cs\<rparr>)"

definition Authenticate ::
    "(string \<Rightarrow> (pemBlock \<times> string) option) \<Rightarrow> (string \<Rightarrow> (string, string) result) \<Rightarrow> AgentAuthenticator \<Rightarrow> authRequest \<Rightarrow>
     (authError, agentCredentials) result option" where
  "Authenticate pemDecode parseCert a r =
     (case a of
        mtlsAuthenticator \<Rightarrow> Some (credentialsOf (rqPeerCertificates r))
      | forwardedHeaderAuthenticator header \<Rightarrow>
          let raw = trimSpace (rqHeader r header)
          in if raw = [] then Some (Inl NoClientCertificate)
             else map_option (\<lambda>res. bindR res credentialsOf) (parseForwardedCertChain pemDecode parseCert raw))"

definition AgentAuthModeMTLS :: string where "AgentAuthModeMTLS = ''mtls''"
definition AgentAuthModeForwardedHeader :: string where "AgentAuthModeForwardedHeader = ''forwarded-header''"
definition DefaultForwardedHeaderName :: string where "DefaultForwardedHeaderName = ''X-Forwarded-Client-Cert''"

definition buildAgentAuthenticator :: "string \<Rightarrow> string \<Rightarrow> (authError, AgentAuthenticator) result" where
  "buildAgentAuthenticator mode header =
     (if mode = [] \<or> mode = AgentAuthModeMTLS then Inr mtlsAuthenticator
      else if mode = AgentAuthModeForwardedHeader
      then Inr (forwardedHeaderAuthenticator (if header = [] then DefaultForwardedHeaderName else header))
      else Inl (InvalidAuthMode mode))"

subsection \<open>Authorities of the plane CRs\<close>

record SecretKeyReference =
  skName :: string
  skNamespace :: string
  skKey :: string

record ValueFrom =
  vfSecretKeyRef :: "SecretKeyReference option"
  vfValue :: string

record ClusterAgentConfig =
  agClientCA :: ValueFrom

datatype planeKind =
    DataPlane | WorkflowPlane | ObservabilityPlane
  | ClusterDataPlane | ClusterWorkflowPlane | ClusterObservabilityPlane

record planeCR =
  pcKind :: planeKind
  pcName :: string
  pcNamespace :: string
  pcPlaneID :: string
  pcClusterAgent :: ClusterAgentConfig

record k8sReader =
  listPlanes :: "planeKind \<Rightarrow> (string, planeCR list) result"
  getSecret :: "string \<Rightarrow> string \<Rightarrow> (string, (string, string) fmap) result"

record planeInfo =
  piName :: string
  piNamespace :: string
  piPlaneID :: string
  piAgent :: "ClusterAgentConfig option"

datatype caError =
    ListFailed string string
  | UnsupportedPlaneType string
  | SecretNameRequired
  | SecretKeyRequired
  | GetSecretFailed string string string
  | KeyNotInSecret string string string
  | EmptyCAData
  | NoCAData

definition namespacedInfo :: "planeKind \<Rightarrow> planeCR \<Rightarrow> planeInfo option" where
  "namespacedInfo kind obj =
     (if pcKind obj \<noteq> kind then None
      else Some \<lparr>piName = pcName obj, piNamespace = pcNamespace obj,
                 piPlaneID = (if pcPlaneID obj = [] then pcName obj else pcPlaneID obj), piAgent = Some (pcClusterAgent obj)\<rparr>)"

definition clusterInfo :: "planeKind \<Rightarrow> planeCR \<Rightarrow> planeInfo option" where
  "clusterInfo kind obj =
     (if pcKind obj \<noteq> kind then None
      else Some \<lparr>piName = pcName obj, piNamespace = [], piPlaneID = pcPlaneID obj, piAgent = Some (pcClusterAgent obj)\<rparr>)"

definition dataPlaneInfo :: "planeCR \<Rightarrow> planeInfo option" where "dataPlaneInfo = namespacedInfo DataPlane"
definition workflowPlaneInfo :: "planeCR \<Rightarrow> planeInfo option" where "workflowPlaneInfo = namespacedInfo WorkflowPlane"
definition obsPlaneInfo :: "planeCR \<Rightarrow> planeInfo option" where "obsPlaneInfo = namespacedInfo ObservabilityPlane"
definition clusterDataPlaneInfo :: "planeCR \<Rightarrow> planeInfo option" where "clusterDataPlaneInfo = clusterInfo ClusterDataPlane"
definition clusterWorkflowPlaneInfo :: "planeCR \<Rightarrow> planeInfo option" where "clusterWorkflowPlaneInfo = clusterInfo ClusterWorkflowPlane"
definition clusterObsPlaneInfo :: "planeCR \<Rightarrow> planeInfo option" where "clusterObsPlaneInfo = clusterInfo ClusterObservabilityPlane"

lemmas plane_infos = dataPlaneInfo_def workflowPlaneInfo_def obsPlaneInfo_def clusterDataPlaneInfo_def
  clusterWorkflowPlaneInfo_def clusterObsPlaneInfo_def

definition extractCAFromSecret :: "k8sReader \<Rightarrow> SecretKeyReference \<Rightarrow> string \<Rightarrow> (caError, string) result" where
  "extractCAFromSecret K secretRef planeNamespace =
     (if skName secretRef = [] then Inl SecretNameRequired
      else if skKey secretRef = [] then Inl SecretKeyRequired
      else
        let namespace = (if skNamespace secretRef = [] then planeNamespace else skNamespace secretRef) in
        (case getSecret K namespace (skName secretRef) of
           Inl err \<Rightarrow> Inl (GetSecretFailed namespace (skName secretRef) err)
         | Inr secretData \<Rightarrow>
             (case fmlookup secretData (skKey secretRef) of
                None \<Rightarrow> Inl (KeyNotInSecret (skKey secretRef) namespace (skName secretRef))
              | Some caData \<Rightarrow> if caData = [] then Inl EmptyCAData else Inr caData)))"

definition extractCADataWithNamespace :: "k8sReader \<Rightarrow> ValueFrom \<Rightarrow> string \<Rightarrow> (caError, string) result" where
  "extractCADataWithNamespace K valueFrom planeNamespace =
     (if vfValue valueFrom \<noteq> [] then Inr (vfValue valueFrom)
      else (case vfSecretKeyRef valueFrom of
              Some secretRef \<Rightarrow> extractCAFromSecret K secretRef planeNamespace
            | None \<Rightarrow> Inl NoCAData))"

definition extractCAFromPlane :: "k8sReader \<Rightarrow> ClusterAgentConfig option \<Rightarrow> string \<Rightarrow> (caError, string option) result" where
  "extractCAFromPlane K clusterAgent namespace =
     (case clusterAgent of
        None \<Rightarrow> Inr None
      | Some agent \<Rightarrow> bindR (extractCADataWithNamespace K (agClientCA agent) namespace) (\<lambda>ca. Inr (Some ca)))"

definition addPlaneCA ::
    "k8sReader \<Rightarrow> string \<Rightarrow> (planeCR \<Rightarrow> planeInfo option) \<Rightarrow> (string, string option) fmap \<Rightarrow> planeCR \<Rightarrow> (string, string option) fmap" where
  "addPlaneCA K planeID extractInfo res item =
     (case extractInfo item of
        None \<Rightarrow> res
      | Some info \<Rightarrow>
          if piPlaneID info \<noteq> planeID then res
          else (case extractCAFromPlane K (piAgent info) (piNamespace info) of
                  Inl _ \<Rightarrow> res
                | Inr caData \<Rightarrow> fmupd (piNamespace info @ ''/'' @ piName info) caData res))"

definition extractPlaneClientCAs ::
    "k8sReader \<Rightarrow> string \<Rightarrow> string \<Rightarrow> planeKind \<Rightarrow> (planeCR \<Rightarrow> planeInfo option) \<Rightarrow> (caError, (string, string option) fmap) result" where
  "extractPlaneClientCAs K planeType planeID kind extractInfo =
     (case listPlanes K kind of
        Inl err \<Rightarrow> Inl (ListFailed planeType err)
      | Inr items \<Rightarrow> Inr (foldl (addPlaneCA K planeID extractInfo) fmempty items))"

definition planeTypeDataPlane :: string where "planeTypeDataPlane = ''dataplane''"
definition planeTypeWorkflowPlane :: string where "planeTypeWorkflowPlane = ''workflowplane''"
definition planeTypeObservabilityPlane :: string where "planeTypeObservabilityPlane = ''observabilityplane''"

definition bothScopes ::
    "k8sReader \<Rightarrow> string \<Rightarrow> string \<Rightarrow> planeKind \<Rightarrow> (planeCR \<Rightarrow> planeInfo option) \<Rightarrow> planeKind \<Rightarrow> (planeCR \<Rightarrow> planeInfo option) \<Rightarrow>
     (caError, (string, string option) fmap) result" where
  "bothScopes K planeType planeID nsKind nsInfo clKind clInfo =
     bindR (extractPlaneClientCAs K planeType planeID nsKind nsInfo) (\<lambda>nsResult.
     bindR (extractPlaneClientCAs K planeType planeID clKind clInfo) (\<lambda>clusterResult.
       Inr (nsResult ++\<^sub>f clusterResult)))"

definition getAllPlaneClientCAs :: "k8sReader \<Rightarrow> string \<Rightarrow> string \<Rightarrow> (caError, (string, string option) fmap) result" where
  "getAllPlaneClientCAs K planeType planeID =
     (if planeType = planeTypeDataPlane
      then bothScopes K planeType planeID DataPlane dataPlaneInfo ClusterDataPlane clusterDataPlaneInfo
      else if planeType = planeTypeWorkflowPlane
      then bothScopes K planeType planeID WorkflowPlane workflowPlaneInfo ClusterWorkflowPlane clusterWorkflowPlaneInfo
      else if planeType = planeTypeObservabilityPlane
      then bothScopes K planeType planeID ObservabilityPlane obsPlaneInfo ClusterObservabilityPlane clusterObsPlaneInfo
      else Inl (UnsupportedPlaneType planeType))"

datatype fetchError = GetCRsFailed caError | CRNotFound string | CRWithoutCA string

definition fetchCRClientCA :: "k8sReader \<Rightarrow> string \<Rightarrow> string \<Rightarrow> string \<Rightarrow> string \<Rightarrow> (fetchError, string) result" where
  "fetchCRClientCA K planeType planeID namespace name =
     (case getAllPlaneClientCAs K planeType planeID of
        Inl err \<Rightarrow> Inl (GetCRsFailed err)
      | Inr allCRs \<Rightarrow>
          let crKey = namespace @ ''/'' @ name in
          (case fmlookup allCRs crKey of
             None \<Rightarrow> Inl (CRNotFound crKey)
           | Some None \<Rightarrow> Inl (CRWithoutCA crKey)
           | Some (Some caData) \<Rightarrow> Inr caData))"

subsection \<open>Verification per CR\<close>

datatype verifyError = GetCAsFailed caError | NoCRsFound string string | NotValidForAnyCR string

definition certValidFor :: "x509 \<Rightarrow> string \<Rightarrow> string option \<Rightarrow> string option \<Rightarrow> bool" where
  "certValidFor X clientCert intermediatePool caData =
     (case caData of
        None \<Rightarrow> False
      | Some pem \<Rightarrow>
          (case parsePool X pem of
             None \<Rightarrow> False
           | Some certPool \<Rightarrow> verifyCert X certPool intermediatePool clientCert = None))"

definition verifyClientCertificatePerCR ::
    "x509 \<Rightarrow> k8sReader \<Rightarrow> string \<Rightarrow> string option \<Rightarrow> string \<Rightarrow> string \<Rightarrow> (verifyError, string list) result" where
  "verifyClientCertificatePerCR X K clientCert intermediatePool planeType planeID =
     (case getAllPlaneClientCAs K planeType planeID of
        Inl err \<Rightarrow> Inl (GetCAsFailed err)
      | Inr crsClientCAData \<Rightarrow>
          if crsClientCAData = fmempty then Inl (NoCRsFound planeType planeID)
          else let validCRs = map fst (filter (\<lambda>(crKey, caData). certValidFor X clientCert intermediatePool caData)
                                 (sorted_list_of_fmap crsClientCAData))
               in if validCRs = [] then Inl (NotValidForAnyCR planeID) else Inr validCRs)"

definition buildIntermediatePool :: "(string list \<Rightarrow> string) \<Rightarrow> string list \<Rightarrow> string option" where
  "buildIntermediatePool poolOf intermediates = (if intermediates = [] then None else Some (poolOf intermediates))"

end
