(* ===== verification/Gateway_Auth_Facts.thy ===== *)
theory Gateway_Auth_Facts
  imports Gateway_Auth
begin

text \<open>
  Facts about forwarded certificates: the text a client controls cannot change which certificate a
  forwarded header carries, and reading a header always ends.
\<close>

subsection \<open>Quoted text\<close>

fun escapeQuoted :: "string \<Rightarrow> string" where
  "escapeQuoted [] = []"
| "escapeQuoted (c # s) = (if c = CHR 0x22 \<or> c = CHR 0x5C then [CHR 0x5C, c] else [c]) @ escapeQuoted s"

definition quotedText :: "string \<Rightarrow> string" where
  "quotedText s = CHR 0x22 # escapeQuoted s @ [CHR 0x22]"

lemma inside_quotes:
  assumes "sep \<noteq> CHR 0x22" and "sep \<noteq> CHR 0x5C"
  shows "splitUnquotedLoop sep True part (escapeQuoted v @ CHR 0x22 # rest) =
         splitUnquotedLoop sep False (CHR 0x22 # rev (escapeQuoted v) @ part) rest"
  using assms by (induction v arbitrary: part) auto

lemma skip_quoted:
  assumes "sep \<noteq> CHR 0x22" and "sep \<noteq> CHR 0x5C"
  shows "splitUnquotedLoop sep False part (quotedText v @ rest) = splitUnquotedLoop sep False (rev (quotedText v) @ part) rest"
  using inside_quotes[OF assms, of "CHR 0x22 # part" v rest] by (simp add: quotedText_def)

lemma skip_plain:
  assumes "sep \<notin> set v" and "CHR 0x22 \<notin> set v" and "CHR 0x5C \<notin> set v"
  shows "splitUnquotedLoop sep False part (v @ rest) = splitUnquotedLoop sep False (rev v @ part) rest"
  using assms by (induction v arbitrary: part) auto

lemma escapeQuoted_plain: "CHR 0x22 \<notin> set v \<Longrightarrow> CHR 0x5C \<notin> set v \<Longrightarrow> escapeQuoted v = v"
  by (induction v) auto

lemma trimQuotes_quoted:
  assumes "v \<noteq> []" and "CHR 0x22 \<notin> set v" and "CHR 0x5C \<notin> set v"
  shows "trimQuotes (quotedText v) = v"
proof -
  have "dropWhile (\<lambda>c. c = CHR 0x22) v = v"
    using assms by (cases v) auto
  moreover have "dropWhile (\<lambda>c. c = CHR 0x22) (rev v) = rev v"
    using assms by (cases v rule: rev_cases) auto
  ultimately show ?thesis
    using assms by (cases v) (auto simp: trimQuotes_def quotedText_def escapeQuoted_plain)
qed

lemma stripSeqs_start:
  assumes "\<And>q. q \<in> set qs \<Longrightarrow> q \<noteq> [] \<Longrightarrow> hd q \<noteq> c"
  shows "stripSeqs qs (c # s) = c # s"
proof -
  have "find (\<lambda>q. q \<noteq> [] \<and> prefix q (c # s)) qs = None"
    using assms by (force simp: find_None_iff prefix_Cons)
  then show ?thesis by (subst stripSeqs.simps) simp
qed

lemma spaceSeqs_ends: "q \<in> set spaceSeqs \<Longrightarrow> hd q \<noteq> CHR 0x22 \<and> last q \<noteq> CHR 0x22 \<and> hd q \<notin> set ''SC''"
  by (auto simp: spaceSeqs_def)

lemma trimSpace_quoted: "trimSpace (quotedText v) = quotedText v"
proof -
  have "stripSeqs spaceSeqs (quotedText v) = quotedText v"
    unfolding quotedText_def by (rule stripSeqs_start) (use spaceSeqs_ends in blast)
  moreover have "stripSeqs (map rev spaceSeqs) (rev (quotedText v)) = rev (quotedText v)"
    unfolding quotedText_def using spaceSeqs_ends by (auto intro!: stripSeqs_start simp: hd_rev)
  ultimately show ?thesis by (simp add: trimSpace_def)
qed

subsection \<open>The fields of a forwarded header\<close>

text \<open>A proxy writes a field as its key and its value, quoted when the client chooses the value.\<close>

definition plainText :: "string \<Rightarrow> bool" where
  "plainText s \<longleftrightarrow> (\<forall>c \<in> set s. c \<notin> {CHR '','', CHR '';'', CHR ''='', CHR 0x22, CHR 0x5C})"

definition fieldText :: "string \<times> bool \<times> string \<Rightarrow> string" where
  "fieldText f = (case f of (k, q, v) \<Rightarrow> k @ ''='' @ (if q then quotedText v else v))"

definition plainField :: "string \<times> bool \<times> string \<Rightarrow> bool" where
  "plainField f = (case f of (k, q, v) \<Rightarrow> plainText k \<and> (q \<or> plainText v))"

definition otherField :: "string \<times> bool \<times> string \<Rightarrow> bool" where
  "otherField f = (plainField f \<and> lowerKey (trimSpace (fst f)) \<notin> {''cert'', ''chain''})"

definition xfccElement :: "(string \<times> bool \<times> string) list \<Rightarrow> string" where
  "xfccElement fs = joinWith '';'' (map fieldText fs)"

lemma skip_field:
  assumes "plainField f" and "sep \<in> {CHR '','', CHR '';''}"
  shows "splitUnquotedLoop sep False part (fieldText f @ rest) = splitUnquotedLoop sep False (rev (fieldText f) @ part) rest"
proof -
  obtain k q v where f: "f = (k, q, v)" by (cases f)
  have sep: "sep \<noteq> CHR 0x22" "sep \<noteq> CHR 0x5C" "sep \<noteq> CHR ''=''" using assms(2) by auto
  have k: "sep \<notin> set (k @ ''='')" "CHR 0x22 \<notin> set (k @ ''='')" "CHR 0x5C \<notin> set (k @ ''='')"
    using assms sep by (auto simp: f plainField_def plainText_def)
  have v: "\<not> q \<Longrightarrow> sep \<notin> set v \<and> CHR 0x22 \<notin> set v \<and> CHR 0x5C \<notin> set v"
    using assms by (auto simp: f plainField_def plainText_def)
  show ?thesis
    using skip_plain[OF k, of part "(if q then quotedText v else v) @ rest"] v
    by (simp add: f fieldText_def skip_quoted[OF sep(1,2)] skip_plain)
qed

lemma element_head:
  assumes "\<forall>f \<in> set fs. plainField f" and "hops = [] \<or> hd hops = CHR '',''"
  shows "hd (splitUnquotedLoop (CHR '','') False part (joinWith '';'' (map fieldText fs) @ hops)) =
         rev part @ joinWith '';'' (map fieldText fs)"
  using assms
proof (induction "'';''" "map fieldText fs" arbitrary: part fs rule: joinWith.induct)
  case 1
  then show ?case by (cases hops) auto
next
  case (2 s)
  then obtain f where "fs = [f]" by auto
  with 2 show ?case
    using skip_field[of f "CHR '',''" part hops] by (cases hops) auto
next
  case (3 s t ts)
  then obtain f g gs where fs: "fs = f # g # gs" by (metis map_eq_Cons_conv)
  with 3 show ?case
    using "3.hyps"(1)[of "g # gs" "CHR '';'' # rev (fieldText f) @ part"] by (auto simp: skip_field)
qed

lemma element_fields:
  assumes "\<forall>f \<in> set fs. plainField f" and "fs \<noteq> []"
  shows "splitUnquotedLoop (CHR '';'') False [] (joinWith '';'' (map fieldText fs)) = map fieldText fs"
  using assms
proof (induction fs)
  case (Cons f fs)
  have f: "plainField f" and sep: "CHR '';'' \<in> {CHR '','', CHR '';''}" using Cons.prems by simp_all
  show ?case
  proof (cases "fs = []")
    case True
    then show ?thesis using skip_field[OF f sep, of "[]" "[]"] by simp
  next
    case False
    then have IH: "splitUnquotedLoop (CHR '';'') False [] (joinWith '';'' (map fieldText fs)) = map fieldText fs"
      using Cons.IH Cons.prems by auto
    have "joinWith '';'' (map fieldText (f # fs)) = fieldText f @ CHR '';'' # joinWith '';'' (map fieldText fs)"
      using False by (cases fs) simp_all
    then show ?thesis by (simp only: skip_field[OF f sep]) (simp add: IH)
  qed
qed simp

lemma cutEq_field: "plainField (k, q, v) \<Longrightarrow> cutEq (fieldText (k, q, v)) = Some (k, if q then quotedText v else v)"
proof -
  assume "plainField (k, q, v)"
  then have "CHR ''='' \<notin> set k" by (auto simp: plainField_def plainText_def)
  from splitN2_Some[OF this] show ?thesis by (simp add: cutEq_def fieldText_def)
qed

lemma other_fields_ignored: "\<forall>f \<in> set fs. otherField f \<Longrightarrow> foldl xfccPair lc (map fieldText fs) = lc"
proof (induction fs)
  case (Cons f fs)
  then have "xfccPair lc (fieldText f) = lc"
    by (cases f) (auto simp: xfccPair_def otherField_def cutEq_field Let_def)
  with Cons show ?case by simp
qed simp

lemma cert_field:
  assumes "pem \<noteq> []" and "CHR 0x22 \<notin> set pem" and "CHR 0x5C \<notin> set pem"
  shows "xfccPair lc (fieldText (''Cert'', True, pem)) = (pem, snd lc)"
    and "xfccPair lc (fieldText (''Chain'', True, pem)) = (fst lc, pem)"
proof -
  have key: "lowerKey (trimSpace ''Cert'') = ''cert''" "lowerKey (trimSpace ''Chain'') = ''chain''"
    by code_simp+
  have cut: "cutEq (fieldText (''Cert'', True, pem)) = Some (''Cert'', quotedText pem)"
    "cutEq (fieldText (''Chain'', True, pem)) = Some (''Chain'', quotedText pem)"
    by (auto simp: cutEq_field plainField_def plainText_def)
  show "xfccPair lc (fieldText (''Cert'', True, pem)) = (pem, snd lc)"
    "xfccPair lc (fieldText (''Chain'', True, pem)) = (fst lc, pem)"
    unfolding xfccPair_def cut by (simp_all add: Let_def key trimSpace_quoted trimQuotes_quoted[OF assms])
qed

lemma xfccSource_fields:
  assumes "\<forall>f \<in> set fs. plainField f" and "fs \<noteq> []" and "hops = [] \<or> hd hops = CHR '',''"
  shows "xfccSource (xfccElement fs @ hops) =
         (case foldl xfccPair ([], []) (map fieldText fs) of (leaf, chain) \<Rightarrow> if chain = [] then leaf else chain)"
  using element_head[OF assms(1,3), of "[]"] element_fields[OF assms(1,2)]
  by (simp add: xfccSource_def xfccElement_def splitUnquoted_def)

lemma quoted_field_plain: "plainText k \<Longrightarrow> plainField (k, True, v)"
  by (simp add: plainField_def)

lemma cert_keys_plain: "plainText ''Cert''" "plainText ''Chain''"
  by (simp_all add: plainText_def)

text \<open>C15: The certificate of a forwarded header cannot be chosen by the client. However a proxy orders its
  fields, and whatever text the client puts in the quoted ones (its subject, say, with delimiters, quotes and
  field names of its own), the gateway decodes the \<open>Cert\<close> value the proxy wrote for the first hop, or its \<open>Chain\<close>
  value when there is one, and ignores every later hop.\<close>

theorem forwarded_certificate_not_injected:
  assumes "\<forall>f \<in> set (pre @ mid @ post). otherField f"
    and "cert \<noteq> [] \<and> CHR 0x22 \<notin> set cert \<and> CHR 0x5C \<notin> set cert"
    and "chain \<noteq> [] \<and> CHR 0x22 \<notin> set chain \<and> CHR 0x5C \<notin> set chain"
    and "hops = [] \<or> hd hops = CHR '',''"
  shows "parseXFCCChain pemDecode parseCert (xfccElement (pre @ (''Cert'', True, cert) # post) @ hops) =
           decodeURLEncodedPEM pemDecode parseCert cert \<and>
         parseXFCCChain pemDecode parseCert
             (xfccElement (pre @ (''Cert'', True, cert) # mid @ (''Chain'', True, chain) # post) @ hops) =
           decodeURLEncodedPEM pemDecode parseCert chain \<and>
         parseXFCCChain pemDecode parseCert
             (xfccElement (pre @ (''Chain'', True, chain) # mid @ (''Cert'', True, cert) # post) @ hops) =
           decodeURLEncodedPEM pemDecode parseCert chain"
proof -
  let ?one = "pre @ (''Cert'', True, cert) # post"
  let ?two = "pre @ (''Cert'', True, cert) # mid @ (''Chain'', True, chain) # post"
  let ?swapped = "pre @ (''Chain'', True, chain) # mid @ (''Cert'', True, cert) # post"
  have plain: "\<forall>f \<in> set ?two. plainField f" "\<forall>f \<in> set ?one. plainField f" "\<forall>f \<in> set ?swapped. plainField f"
    using assms(1) by (auto simp: otherField_def quoted_field_plain cert_keys_plain)
  have other: "\<forall>f \<in> set pre. otherField f" "\<forall>f \<in> set mid. otherField f" "\<forall>f \<in> set post. otherField f"
    using assms(1) by auto
  note cf = cert_field(1)[of cert] cert_field(2)[of chain]
  have "xfccSource (xfccElement ?one @ hops) = cert"
    using assms(2) by (subst xfccSource_fields[OF plain(2) _ assms(4)]) (simp_all add: other_fields_ignored other cf)
  moreover have "xfccSource (xfccElement ?two @ hops) = chain"
    using assms(2,3) by (subst xfccSource_fields[OF plain(1) _ assms(4)]) (simp_all add: other_fields_ignored other cf)
  moreover have "xfccSource (xfccElement ?swapped @ hops) = chain"
    using assms(2,3) by (subst xfccSource_fields[OF plain(3) _ assms(4)]) (simp_all add: other_fields_ignored other cf)
  ultimately show ?thesis
    using assms(2,3) by (simp add: parseXFCCChain_def)
qed

definition craftedSubject :: string where
  "craftedSubject = ''CN=a'' @ [CHR 0x22] @ '';Cert='' @ [CHR 0x22] @ ''evil'' @ [CHR 0x22] @ '',Chain=evil''"

theorem forwarded_certificate_not_injected_witness:
  "otherField (''Subject'', True, craftedSubject) \<and>
   xfccSource (xfccElement [(''Subject'', True, craftedSubject), (''Cert'', True, ''pem'')] @ '',Cert=proxy'') = ''pem'' \<and>
   parseXFCCChain (\<lambda>_. None) Inr
     (xfccElement [(''Subject'', True, craftedSubject), (''Cert'', True, ''pem'')] @ '',Cert=proxy'') =
     decodeURLEncodedPEM (\<lambda>_. None) Inr ''pem''"
proof -
  have o: "otherField (''Subject'', True, craftedSubject)" by code_simp
  moreover have "xfccSource (xfccElement [(''Subject'', True, craftedSubject), (''Cert'', True, ''pem'')] @ '',Cert=proxy'') = ''pem''"
    by code_simp
  ultimately show ?thesis
    using forwarded_certificate_not_injected[of "[(''Subject'', True, craftedSubject)]" "[]" "[]" "''pem''" "''pem''"
        "'',Cert=proxy''" "\<lambda>_. None" Inr]
    by simp
qed

subsection \<open>Reading certificates ends\<close>

lemma parseCACertificatesLoop_returns:
  assumes "\<forall>d b rest. pemDecode d = Some (b, rest) \<longrightarrow> length rest < length d"
  shows "\<exists>res. parseCACertificatesLoop pemDecode parseCert certs pemData = Some res"
proof (induction "length pemData" arbitrary: certs pemData rule: less_induct)
  case less
  show ?case
  proof (cases "pemDecode pemData")
    case (Some p)
    then have "length (snd p) < length pemData" using assms by (cases p) auto
    with less Some show ?thesis
      by (subst parseCACertificatesLoop.simps) (auto split: prod.split sum.split)
  qed (subst parseCACertificatesLoop.simps, simp)
qed

lemma decodeURLEncodedPEM_returns:
  assumes "\<forall>d b rest. pemDecode d = Some (b, rest) \<longrightarrow> length rest < length d"
  shows "\<exists>res. decodeURLEncodedPEM pemDecode parseCert raw = Some res \<and> res \<noteq> Inr []"
proof -
  obtain res where "parseCACertificatesLoop pemDecode parseCert [] (case PathUnescape raw of None \<Rightarrow> raw | Some d \<Rightarrow> d) = Some res"
    using parseCACertificatesLoop_returns[OF assms] by blast
  then show ?thesis
    by (cases res) (auto simp: decodeURLEncodedPEM_def parseCACertificates_def)
qed

text \<open>C28: Authenticating an agent always ends, whatever the peer or the forwarded header sends, given that decoding a
  PEM block consumes some of the data. A chain that parses is never empty, which is what indexing its first
  certificate relies on, so a non-empty header is never reported as no certificate.\<close>

theorem authentication_returns:
  assumes "\<forall>d b rest. pemDecode d = Some (b, rest) \<longrightarrow> length rest < length d"
  shows "(\<exists>res. Authenticate pemDecode parseCert a r = Some res) \<and>
         (\<exists>res. parseForwardedCertChain pemDecode parseCert raw = Some res \<and> res \<noteq> Inr [])"
proof -
  have chain: "\<exists>res. parseForwardedCertChain pemDecode parseCert raw = Some res \<and> res \<noteq> Inr []" for raw
    using decodeURLEncodedPEM_returns[OF assms]
    by (simp add: parseForwardedCertChain_def parseXFCCChain_def)
  moreover have "\<exists>res. Authenticate pemDecode parseCert a r = Some res"
  proof (cases a)
    case (forwardedHeaderAuthenticator h)
    then show ?thesis
      using chain[of "trimSpace (rqHeader r h)"] by (auto simp: Authenticate_def Let_def)
  qed (simp add: Authenticate_def)
  ultimately show ?thesis by blast
qed

text \<open>A decoder that takes one byte as a block, used to instantiate the decoder.\<close>

definition byteDecode :: "string \<Rightarrow> (pemBlock \<times> string) option" where
  "byteDecode d = (case d of [] \<Rightarrow> None | c # s \<Rightarrow> Some (\<lparr>pemType = ''CERTIFICATE'', pemBytes = [c]\<rparr>, s))"

theorem authentication_returns_witness:
  "(\<exists>res. Authenticate byteDecode Inr (forwardedHeaderAuthenticator ''X'')
      \<lparr>rqPeerCertificates = [], rqHeader = (\<lambda>_. ''Cert=ab'')\<rparr> = Some res) \<and>
   parseForwardedCertChain byteDecode Inr ''Cert=ab'' = Some (Inr [''a'', ''b''])"
proof -
  have dec: "\<forall>d b rest. byteDecode d = Some (b, rest) \<longrightarrow> length rest < length d"
    by (auto simp: byteDecode_def split: list.splits)
  have "parseForwardedCertChain byteDecode Inr ''Cert=ab'' = Some (Inr [''a'', ''b''])" by code_simp
  with authentication_returns[OF dec, of Inr "forwardedHeaderAuthenticator ''X''"
      "\<lparr>rqPeerCertificates = [], rqHeader = (\<lambda>_. ''Cert=ab'')\<rparr>" "''Cert=ab''"]
  show ?thesis by blast
qed

end
