(* ===== verification/Fabric.thy ===== *)
theory Fabric
  imports Json_Value "HOL-Library.Product_Lexorder" "HOL-Library.Word"
begin

text \<open>
  The mesh between the replicas of the cluster gateway: the messages of
  \<^verbatim>\<open>src/internal/cluster-gateway/fabric/fabric.go\<close>, the replicated registry of
  \<^verbatim>\<open>fabric/registry.go\<close>, and the state machine of \<^verbatim>\<open>fabric/mesh.go\<close>.

  Sequence numbers are 64-bit words. A method that holds one of the mesh's locks is a function on the
  record; what it writes to a socket or hands to a goroutine is part of its result. The reply channels
  of forwarded requests are kept in a store, because a waiting request holds on to its channel after
  its entry left the table of pending requests. Dialling, TLS and the websocket itself are left out.
\<close>

subsection \<open>Messages\<close>

record ErrorDetails =
  edCode :: int
  edMessage :: string
  edDetails :: jobj

record HTTPTunnelRequest =
  trRequestID :: string
  trGatewayRequestID :: string
  trTarget :: string
  trMethod :: string
  trPath :: string
  trQuery :: string
  trHeaders :: "(string, string list) fmap"
  trBody :: string

record HTTPTunnelResponse =
  rsRequestID :: string
  rsStatusCode :: int
  rsHeaders :: "(string, string list) fmap"
  rsBody :: string
  rsError :: "ErrorDetails option"

record Peer =
  peerID :: string
  peerAddr :: string

record AgentEntry =
  aePlaneIdentifier :: string
  aeConnID :: string
  aeValidCRs :: "string list"

record Delta =
  dOp :: string
  dOwner :: string
  dSeq :: "64 word"
  dEntry :: AgentEntry

definition DeltaOpAdd :: string where "DeltaOpAdd = ''add''"
definition DeltaOpRemove :: string where "DeltaOpRemove = ''remove''"

record Snapshot =
  sOwner :: string
  sSeq :: "64 word"
  sEntries :: "AgentEntry list"

record PlaneEvent =
  evPlaneType :: string
  evPlaneID :: string
  evEvent :: string
  evNamespace :: string
  evName :: string

record ForwardRequest =
  fqCorrID :: string
  fqPlaneIdentifier :: string
  fqCRKey :: string
  fqTimeoutMillis :: int
  fqRequest :: HTTPTunnelRequest

record ForwardResponse =
  fpCorrID :: string
  fpResponse :: "HTTPTunnelResponse option"
  fpNoAgent :: bool
  fpError :: string

record RemoteAgent =
  raOwner :: string
  raEntry :: AgentEntry

subsection \<open>Registry\<close>

record ownerState =
  osSeq :: "64 word"
  osDraining :: bool
  osEntries :: "(string, AgentEntry) fmap"

record Registry =
  owners :: "(string, ownerState) fmap"
  cursor :: "(string, nat) fmap"

definition NewRegistry :: Registry where
  "NewRegistry = \<lparr>owners = fmempty, cursor = fmempty\<rparr>"

definition emptyOwner :: ownerState where
  "emptyOwner = \<lparr>osSeq = 0, osDraining = False, osEntries = fmempty\<rparr>"

definition applyOp :: "Delta \<Rightarrow> (string, AgentEntry) fmap \<Rightarrow> (string, AgentEntry) fmap" where
  "applyOp d entries =
     (if dOp d = DeltaOpAdd then fmupd (aeConnID (dEntry d)) (dEntry d) entries
      else if dOp d = DeltaOpRemove then fmdrop (aeConnID (dEntry d)) entries
      else entries)"

definition ApplyDelta :: "Registry \<Rightarrow> Delta \<Rightarrow> Registry \<times> bool" where
  "ApplyDelta r d =
     (let accept = (\<lambda>st. (r\<lparr>owners := fmupd (dOwner d) (st\<lparr>osSeq := dSeq d, osEntries := applyOp d (osEntries st)\<rparr>) (owners r)\<rparr>, True))
      in case fmlookup (owners r) (dOwner d) of
           None \<Rightarrow> if dSeq d \<noteq> 1 then (r, False) else accept emptyOwner
         | Some st \<Rightarrow> if dSeq d \<noteq> osSeq st + 1 then (r, False) else accept st)"

definition entriesMap :: "AgentEntry list \<Rightarrow> (string, AgentEntry) fmap" where
  "entriesMap es = foldl (\<lambda>m e. fmupd (aeConnID e) e m) fmempty es"

definition ApplySnapshot :: "Registry \<Rightarrow> Snapshot \<Rightarrow> Registry" where
  "ApplySnapshot r s =
     (let draining = (case fmlookup (owners r) (sOwner s) of None \<Rightarrow> False | Some st \<Rightarrow> osDraining st)
      in r\<lparr>owners := fmupd (sOwner s) \<lparr>osSeq = sSeq s, osDraining = draining, osEntries = entriesMap (sEntries s)\<rparr> (owners r)\<rparr>)"

definition ownerList :: "Registry \<Rightarrow> (string \<times> ownerState) list" where
  "ownerList r = sorted_list_of_fmap (owners r)"

definition entryList :: "ownerState \<Rightarrow> AgentEntry list" where
  "entryList st = map snd (sorted_list_of_fmap (osEntries st))"

definition qualifies :: "string \<Rightarrow> string \<Rightarrow> AgentEntry \<Rightarrow> bool" where
  "qualifies planeIdentifier crKey e \<longleftrightarrow>
     aePlaneIdentifier e = planeIdentifier \<and> (crKey \<noteq> '''' \<longrightarrow> crKey \<in> set (aeValidCRs e))"

definition lookupResults :: "Registry \<Rightarrow> string \<Rightarrow> string \<Rightarrow> RemoteAgent list" where
  "lookupResults r planeIdentifier crKey =
     sort_key (\<lambda>a. (raOwner a, aeConnID (raEntry a)))
       (concat (map (\<lambda>(owner, st).
          if osDraining st then []
          else map (\<lambda>e. \<lparr>raOwner = owner, raEntry = e\<rparr>) (filter (qualifies planeIdentifier crKey) (entryList st)))
        (ownerList r)))"

definition cursorOf :: "Registry \<Rightarrow> string \<Rightarrow> nat" where
  "cursorOf r key = (case fmlookup (cursor r) key of None \<Rightarrow> 0 | Some n \<Rightarrow> n)"

definition Lookup :: "Registry \<Rightarrow> string \<Rightarrow> string \<Rightarrow> Registry \<times> RemoteAgent list" where
  "Lookup r planeIdentifier crKey =
     (let results = lookupResults r planeIdentifier crKey in
      if results = [] then (r, [])
      else let key = planeIdentifier @ ''/'' @ crKey;
               offset = cursorOf r key mod length results
           in (r\<lparr>cursor := fmupd key ((offset + 1) mod length results) (cursor r)\<rparr>,
               drop offset results @ take offset results))"

definition PurgeOwner :: "Registry \<Rightarrow> string \<Rightarrow> Registry" where
  "PurgeOwner r owner = r\<lparr>owners := fmdrop owner (owners r)\<rparr>"

definition SetDraining :: "Registry \<Rightarrow> string \<Rightarrow> Registry" where
  "SetDraining r owner =
     (let st = (case fmlookup (owners r) owner of None \<Rightarrow> emptyOwner | Some st \<Rightarrow> st)
      in r\<lparr>owners := fmupd owner (st\<lparr>osDraining := True\<rparr>) (owners r)\<rparr>)"

definition allEntries :: "Registry \<Rightarrow> AgentEntry list" where
  "allEntries r = concat (map (\<lambda>(_, st). entryList st) (ownerList r))"

definition CountForPlane :: "Registry \<Rightarrow> string \<Rightarrow> nat" where
  "CountForPlane r planeIdentifier = length (filter (\<lambda>e. aePlaneIdentifier e = planeIdentifier) (allEntries r))"

definition CountForCR :: "Registry \<Rightarrow> string \<Rightarrow> string \<Rightarrow> nat" where
  "CountForCR r planeIdentifier crKey =
     length (filter (\<lambda>e. aePlaneIdentifier e = planeIdentifier \<and> crKey \<in> set (aeValidCRs e)) (allEntries r))"

definition AllPlaneCounts :: "Registry \<Rightarrow> (string, nat) fmap" where
  "AllPlaneCounts r =
     foldl (\<lambda>counts e. fmupd (aePlaneIdentifier e)
              ((case fmlookup counts (aePlaneIdentifier e) of None \<Rightarrow> 0 | Some n \<Rightarrow> n) + 1) counts) fmempty (allEntries r)"

definition CountByOwner :: "Registry \<Rightarrow> (string, nat) fmap" where
  "CountByOwner r = fmmap (\<lambda>st. length (entryList st)) (fmfilter (\<lambda>owner. case fmlookup (owners r) owner of
       None \<Rightarrow> False | Some st \<Rightarrow> \<not> osDraining st) (owners r))"

subsection \<open>Mesh state\<close>

definition frameHello :: string where "frameHello = ''hello''"
definition frameDelta :: string where "frameDelta = ''delta''"
definition frameSnapshotReq :: string where "frameSnapshotReq = ''snapshot_req''"
definition frameSnapshotRsp :: string where "frameSnapshotRsp = ''snapshot_rsp''"
definition frameForwardReq :: string where "frameForwardReq = ''forward_req''"
definition frameForwardRsp :: string where "frameForwardRsp = ''forward_rsp''"
definition frameDraining :: string where "frameDraining = ''draining''"
definition framePlaneEvent :: string where "framePlaneEvent = ''plane_event''"

lemmas frame_types = frameHello_def frameDelta_def frameSnapshotReq_def frameSnapshotRsp_def
  frameForwardReq_def frameForwardRsp_def frameDraining_def framePlaneEvent_def

record meshFrame =
  fType :: string
  fPodID :: string
  fDelta :: "Delta option"
  fSnapshot :: "Snapshot option"
  fForwardReq :: "ForwardRequest option"
  fForwardRsp :: "ForwardResponse option"
  fPlaneEvent :: "PlaneEvent option"

definition bareFrame :: "string \<Rightarrow> meshFrame" where
  "bareFrame typ = \<lparr>fType = typ, fPodID = '''', fDelta = None, fSnapshot = None, fForwardReq = None,
     fForwardRsp = None, fPlaneEvent = None\<rparr>"

definition meshOutboxSize :: nat where "meshOutboxSize = 1024"
definition meshConvergeGrace :: int where "meshConvergeGrace = 20 * 10 ^ 9"

datatype meshError = ErrNoLink string | ErrForwardNotSent string string | ErrForwardMayHaveExecuted string

record pendingForward =
  pfCh :: nat
  pfOwner :: string

record peerLink =
  plPeer :: Peer
  plUp :: bool

record Mesh =
  mSelf :: Peer
  mRegistry :: Registry
  mLocalSeq :: "64 word"
  mLocalEntries :: "(string, AgentEntry) fmap"
  mLinks :: "(string, peerLink) fmap"
  mPending :: "(string, pendingForward) fmap"
  mChans :: "(nat, ForwardResponse option list) fmap"
  mNextCh :: nat
  mPeersSeen :: bool
  mKnownPeers :: "string list"
  mSnapshotsFrom :: "string list"
  mStartedAt :: int
  mOutbox :: "meshFrame list"

definition NewMesh :: "Peer \<Rightarrow> Registry \<Rightarrow> Mesh" where
  "NewMesh self registry =
     \<lparr>mSelf = self, mRegistry = registry, mLocalSeq = 0, mLocalEntries = fmempty, mLinks = fmempty, mPending = fmempty,
      mChans = fmempty, mNextCh = 0, mPeersSeen = False, mKnownPeers = [], mSnapshotsFrom = [], mStartedAt = 0, mOutbox = []\<rparr>"

definition SelfID :: "Mesh \<Rightarrow> string" where
  "SelfID m = peerID (mSelf m)"

definition Converged :: "Mesh \<Rightarrow> int \<Rightarrow> bool" where
  "Converged m now =
     (if \<not> mPeersSeen m then mStartedAt m \<noteq> 0 \<and> now - mStartedAt m > meshConvergeGrace
      else if \<exists>p \<in> set (mKnownPeers m). p \<notin> set (mSnapshotsFrom m) then now - mStartedAt m > meshConvergeGrace
      else True)"

subsection \<open>The replica as owner\<close>

definition enqueueLocked :: "Mesh \<Rightarrow> meshFrame \<Rightarrow> Mesh" where
  "enqueueLocked m f = (if length (mOutbox m) < meshOutboxSize then m\<lparr>mOutbox := mOutbox m @ [f]\<rparr> else m)"

definition deltaFrame :: "Delta \<Rightarrow> meshFrame" where
  "deltaFrame d = (bareFrame frameDelta)\<lparr>fDelta := Some d\<rparr>"

definition LocalUpsert :: "Mesh \<Rightarrow> AgentEntry \<Rightarrow> Mesh" where
  "LocalUpsert m e =
     (let m1 = m\<lparr>mLocalSeq := mLocalSeq m + 1, mLocalEntries := fmupd (aeConnID e) e (mLocalEntries m)\<rparr>
      in enqueueLocked m1 (deltaFrame \<lparr>dOp = DeltaOpAdd, dOwner = SelfID m, dSeq = mLocalSeq m1, dEntry = e\<rparr>))"

definition LocalRemove :: "Mesh \<Rightarrow> string \<Rightarrow> string \<Rightarrow> Mesh" where
  "LocalRemove m planeIdentifier connID =
     (if fmlookup (mLocalEntries m) connID = None then m
      else let m1 = m\<lparr>mLocalSeq := mLocalSeq m + 1, mLocalEntries := fmdrop connID (mLocalEntries m)\<rparr>
           in enqueueLocked m1 (deltaFrame \<lparr>dOp = DeltaOpRemove, dOwner = SelfID m, dSeq = mLocalSeq m1,
                dEntry = \<lparr>aePlaneIdentifier = planeIdentifier, aeConnID = connID, aeValidCRs = []\<rparr>\<rparr>))"

definition localSnapshot :: "Mesh \<Rightarrow> Snapshot" where
  "localSnapshot m = \<lparr>sOwner = SelfID m, sSeq = mLocalSeq m, sEntries = map snd (sorted_list_of_fmap (mLocalEntries m))\<rparr>"

definition snapshotFrame :: "Snapshot \<Rightarrow> meshFrame" where
  "snapshotFrame s = (bareFrame frameSnapshotRsp)\<lparr>fSnapshot := Some s\<rparr>"

definition Drain :: "Mesh \<Rightarrow> Mesh" where
  "Drain m = enqueueLocked m ((bareFrame frameDraining)\<lparr>fPodID := SelfID m\<rparr>)"

definition BroadcastPlaneEvent :: "Mesh \<Rightarrow> PlaneEvent \<Rightarrow> Mesh" where
  "BroadcastPlaneEvent m ev = enqueueLocked m ((bareFrame framePlaneEvent)\<lparr>fPlaneEvent := Some ev\<rparr>)"

definition snapshotLinks :: "Mesh \<Rightarrow> peerLink list" where
  "snapshotLinks m = map snd (sorted_list_of_fmap (mLinks m))"

text \<open>One turn of the broadcaster: the first frame of the outbox, and the peers it is written to.\<close>

definition runBroadcaster :: "Mesh \<Rightarrow> (Mesh \<times> meshFrame \<times> string list) option" where
  "runBroadcaster m =
     (case mOutbox m of
        [] \<Rightarrow> None
      | f # rest \<Rightarrow> Some (m\<lparr>mOutbox := rest\<rparr>, f, map (\<lambda>l. peerID (plPeer l)) (filter plUp (snapshotLinks m))))"

subsection \<open>Links\<close>

definition wantedPeers :: "Peer list \<Rightarrow> (string, Peer) fmap" where
  "wantedPeers peers = foldl (\<lambda>want p. fmupd (peerID p) p want) fmempty peers"

definition reconcilePeers :: "Mesh \<Rightarrow> Peer list \<Rightarrow> Mesh" where
  "reconcilePeers m peers =
     (let want = wantedPeers peers;
          keep = fmfilter (\<lambda>pid. case (fmlookup want pid, fmlookup (mLinks m) pid) of
                   (Some p, Some link) \<Rightarrow> peerAddr p = peerAddr (plPeer link) | _ \<Rightarrow> False) (mLinks m);
          purged = filter (\<lambda>pid. fmlookup want pid = None) (map fst (sorted_list_of_fmap (mLinks m)));
          links = fmmap (\<lambda>p. \<lparr>plPeer = p, plUp = False\<rparr>) want ++\<^sub>f keep
      in m\<lparr>mPeersSeen := True, mKnownPeers := map fst (sorted_list_of_fmap want), mLinks := links,
           mRegistry := foldl PurgeOwner (mRegistry m) purged\<rparr>)"

definition setLinkUp :: "bool \<Rightarrow> Mesh \<Rightarrow> string \<Rightarrow> Mesh" where
  "setLinkUp up m pid =
     (case fmlookup (mLinks m) pid of None \<Rightarrow> m | Some link \<Rightarrow> m\<lparr>mLinks := fmupd pid (link\<lparr>plUp := up\<rparr>) (mLinks m)\<rparr>)"

text \<open>The frames a fresh link starts with, in the order they are written.\<close>

definition linkBootstrap :: "Mesh \<Rightarrow> meshFrame list" where
  "linkBootstrap m = [(bareFrame frameHello)\<lparr>fPodID := SelfID m\<rparr>, snapshotFrame (localSnapshot m), bareFrame frameSnapshotReq]"

text \<open>A send on a channel of capacity one that gives up if the channel is full.\<close>

definition trySend :: "ForwardResponse option \<Rightarrow> nat \<Rightarrow> Mesh \<Rightarrow> Mesh" where
  "trySend v ch m =
     (case fmlookup (mChans m) ch of
        Some [] \<Rightarrow> m\<lparr>mChans := fmupd ch [v] (mChans m)\<rparr>
      | _ \<Rightarrow> m)"

definition failPendingForPeer :: "Mesh \<Rightarrow> string \<Rightarrow> Mesh" where
  "failPendingForPeer m pid =
     (let orphaned = filter (\<lambda>pf. pfOwner pf = pid) (map snd (sorted_list_of_fmap (mPending m)));
          m1 = m\<lparr>mPending := fmfilter (\<lambda>corrID. map_option pfOwner (fmlookup (mPending m) corrID) \<noteq> Some pid) (mPending m)\<rparr>
      in foldl (\<lambda>acc pf. trySend None (pfCh pf) acc) m1 orphaned)"

definition linkLost :: "Mesh \<Rightarrow> string \<Rightarrow> Mesh" where
  "linkLost m pid = failPendingForPeer (setLinkUp False m pid) pid"

subsection \<open>Frames\<close>

text \<open>What the dispatch of a frame causes besides the change of state: a frame written to the same socket, and
  work given to a goroutine. Writing a response to a channel blocks when the channel is full.\<close>

datatype meshEffect =
    SendFrame meshFrame
  | GoServeForward ForwardRequest
  | GoApplyPlaneEvent PlaneEvent
  | BlockOnChannel nat

definition acceptHello :: "meshFrame \<Rightarrow> string option" where
  "acceptHello f = (if fType f \<noteq> frameHello \<or> fPodID f = '''' then None else Some (fPodID f))"

definition handleForwardRsp :: "Mesh \<Rightarrow> ForwardResponse \<Rightarrow> Mesh \<times> meshEffect list" where
  "handleForwardRsp m rsp =
     (case fmlookup (mPending m) (fpCorrID rsp) of
        None \<Rightarrow> (m, [])
      | Some pf \<Rightarrow>
          let m1 = m\<lparr>mPending := fmdrop (fpCorrID rsp) (mPending m)\<rparr>
          in (case fmlookup (mChans m1) (pfCh pf) of
                Some [] \<Rightarrow> (m1\<lparr>mChans := fmupd (pfCh pf) [Some rsp] (mChans m1)\<rparr>, [])
              | _ \<Rightarrow> (m1, [BlockOnChannel (pfCh pf)])))"

definition handleFrame :: "Mesh \<Rightarrow> string \<Rightarrow> meshFrame \<Rightarrow> Mesh \<times> meshEffect list" where
  "handleFrame m pid f =
     (if fType f = frameDelta then
        (case fDelta f of
           None \<Rightarrow> (m, [])
         | Some d \<Rightarrow>
             if dOwner d \<noteq> pid then (m, [])
             else (case ApplyDelta (mRegistry m) d of
                     (r, True) \<Rightarrow> (m\<lparr>mRegistry := r\<rparr>, [])
                   | (r, False) \<Rightarrow> (m\<lparr>mRegistry := r\<rparr>, [SendFrame (bareFrame frameSnapshotReq)])))
      else if fType f = frameSnapshotReq then (m, [SendFrame (snapshotFrame (localSnapshot m))])
      else if fType f = frameSnapshotRsp then
        (case fSnapshot f of
           None \<Rightarrow> (m, [])
         | Some s \<Rightarrow>
             if sOwner s \<noteq> pid then (m, [])
             else (m\<lparr>mRegistry := ApplySnapshot (mRegistry m) s, mSnapshotsFrom := List.insert pid (mSnapshotsFrom m)\<rparr>, []))
      else if fType f = frameForwardReq then
        (case fForwardReq f of None \<Rightarrow> (m, []) | Some req \<Rightarrow> (m, [GoServeForward req]))
      else if fType f = frameForwardRsp then
        (case fForwardRsp f of None \<Rightarrow> (m, []) | Some rsp \<Rightarrow> handleForwardRsp m rsp)
      else if fType f = frameDraining then
        (if fPodID f \<noteq> pid then (m, []) else (m\<lparr>mRegistry := SetDraining (mRegistry m) pid\<rparr>, []))
      else if fType f = framePlaneEvent then
        (case fPlaneEvent f of None \<Rightarrow> (m, []) | Some ev \<Rightarrow> (m, [GoApplyPlaneEvent ev]))
      else (m, []))"

subsection \<open>Forwarding\<close>

text \<open>\<open>Forward\<close> up to the point where it waits: \<open>fresh\<close> is the identifier \<open>uuid.New\<close> gives, \<open>sendErr\<close> the
  outcome of writing the frame. The result is the channel, the identifier and the frame on the wire.\<close>

definition Forward ::
    "Mesh \<Rightarrow> string \<Rightarrow> string \<Rightarrow> string option \<Rightarrow> ForwardRequest \<Rightarrow> Mesh \<times> (meshError, nat \<times> string \<times> meshFrame) result" where
  "Forward m fresh owner sendErr req =
     (case fmlookup (mLinks m) owner of
        None \<Rightarrow> (m, Inl (ErrNoLink owner))
      | Some link \<Rightarrow>
          if \<not> plUp link then (m, Inl (ErrNoLink owner))
          else
            let req' = (if fqCorrID req = '''' then req\<lparr>fqCorrID := fresh\<rparr> else req);
                ch = mNextCh m;
                m1 = m\<lparr>mNextCh := ch + 1, mChans := fmupd ch [] (mChans m),
                       mPending := fmupd (fqCorrID req') \<lparr>pfCh = ch, pfOwner = owner\<rparr> (mPending m)\<rparr>
            in (case sendErr of
                  Some err \<Rightarrow> (m1\<lparr>mPending := fmdrop (fqCorrID req') (mPending m1)\<rparr>, Inl (ErrForwardNotSent owner err))
                | None \<Rightarrow> (m1, Inr (ch, fqCorrID req', (bareFrame frameForwardReq)\<lparr>fForwardReq := Some req'\<rparr>))))"

text \<open>The wait: a value in the channel, or the end of the context.\<close>

definition forwardReceive :: "Mesh \<Rightarrow> string \<Rightarrow> nat \<Rightarrow> (Mesh \<times> (meshError, ForwardResponse) result) option" where
  "forwardReceive m owner ch =
     (case fmlookup (mChans m) ch of
        Some (v # vs) \<Rightarrow>
          Some (m\<lparr>mChans := fmupd ch vs (mChans m)\<rparr>,
                (case v of None \<Rightarrow> Inl (ErrForwardMayHaveExecuted owner) | Some rsp \<Rightarrow> Inr rsp))
      | _ \<Rightarrow> None)"

definition forwardCancelled :: "Mesh \<Rightarrow> string \<Rightarrow> string \<Rightarrow> Mesh \<times> (meshError, ForwardResponse) result" where
  "forwardCancelled m owner corrID = (m\<lparr>mPending := fmdrop corrID (mPending m)\<rparr>, Inl (ErrForwardMayHaveExecuted owner))"

end
