(* ===== verification/Gateway.thy ===== *)
theory Gateway
  imports Gateway_Auth Fabric
begin

text \<open>
  The server of the cluster gateway (\<^verbatim>\<open>src/internal/cluster-gateway/server.go\<close>), its request
  validation (\<^verbatim>\<open>validator.go\<close>) and the API for plane notifications (\<^verbatim>\<open>plane_api.go\<close>).

  The server owns a connection manager and, if the mesh is enabled, a mesh; it is the manager's
  listener and the mesh's delegate. Here the pieces are put together: the events of the manager
  become changes of the mesh's own entries, requests go to a local agent or one hop over the mesh.

  A request that waits for an answer is interrupted by what happens meanwhile. \<open>agentFate\<close> says what
  happens to a request handed to an agent, \<open>forwardFate\<close> what happens to one forwarded to a peer.
\<close>

subsection \<open>Server state and listener\<close>

record pendingRequest =
  prCh :: nat
  prConnID :: string

record Server =
  svConnMgr :: ConnectionManager
  svMesh :: "Mesh option"
  svPending :: "(string, pendingRequest) fmap"
  svChans :: "(nat, HTTPTunnelResponse option list) fmap"
  svNextCh :: nat
  svDraining :: bool

definition New :: Server where
  "New = \<lparr>svConnMgr = NewConnectionManager, svMesh = None, svPending = fmempty, svChans = fmempty, svNextCh = 0, svDraining = False\<rparr>"

definition SetFabric :: "Server \<Rightarrow> Mesh \<Rightarrow> Server" where
  "SetFabric s mesh = s\<lparr>svMesh := Some mesh, svConnMgr := SetListener (svConnMgr s)\<rparr>"

definition OnAgentRegistered :: "Mesh \<Rightarrow> string \<Rightarrow> string \<Rightarrow> string list \<Rightarrow> Mesh" where
  "OnAgentRegistered m planeIdentifier connID validCRs =
     LocalUpsert m \<lparr>aePlaneIdentifier = planeIdentifier, aeConnID = connID, aeValidCRs = validCRs\<rparr>"

definition OnAgentUnregistered :: "Mesh \<Rightarrow> string \<Rightarrow> string \<Rightarrow> Mesh" where
  "OnAgentUnregistered m planeIdentifier connID = LocalRemove m planeIdentifier connID"

definition OnAgentCRsChanged :: "Mesh \<Rightarrow> string \<Rightarrow> string \<Rightarrow> string list \<Rightarrow> Mesh" where
  "OnAgentCRsChanged m planeIdentifier connID validCRs =
     LocalUpsert m \<lparr>aePlaneIdentifier = planeIdentifier, aeConnID = connID, aeValidCRs = validCRs\<rparr>"

fun dispatchEvent :: "Mesh \<Rightarrow> cmEvent \<Rightarrow> Mesh" where
  "dispatchEvent m (ConnClosed connID) = m"
| "dispatchEvent m (AgentRegistered planeIdentifier connID validCRs) = OnAgentRegistered m planeIdentifier connID validCRs"
| "dispatchEvent m (AgentUnregistered planeIdentifier connID) = OnAgentUnregistered m planeIdentifier connID"
| "dispatchEvent m (AgentCRsChanged planeIdentifier connID validCRs) = OnAgentCRsChanged m planeIdentifier connID validCRs"

text \<open>The manager after a call, with the callbacks the call made to the server.\<close>

definition withManager :: "Server \<Rightarrow> ConnectionManager \<Rightarrow> Server" where
  "withManager s cm =
     s\<lparr>svConnMgr := cm,
       svMesh := map_option (\<lambda>m. foldl dispatchEvent m (drop (length (trace (svConnMgr s))) (trace cm))) (svMesh s)\<rparr>"

subsection \<open>Agents\<close>

datatype wsOutcome = HttpError nat | UpgradeFailed | Connected string

definition handleWebSocket ::
    "x509 \<Rightarrow> k8sReader \<Rightarrow> (string list \<Rightarrow> string) \<Rightarrow> Server \<Rightarrow> string \<Rightarrow> string \<Rightarrow> (authError, agentCredentials) result \<Rightarrow> bool \<Rightarrow>
     string \<Rightarrow> int \<Rightarrow> Server \<times> wsOutcome" where
  "handleWebSocket X K poolOf s planeType planeID auth upgraded connID now =
     (if planeType = [] \<or> planeID = [] then (s, HttpError 400)
      else if planeType \<noteq> planeTypeDataPlane \<and> planeType \<noteq> planeTypeWorkflowPlane \<and> planeType \<noteq> planeTypeObservabilityPlane
      then (s, HttpError 400)
      else (case auth of
              Inl _ \<Rightarrow> (s, HttpError 401)
            | Inr creds \<Rightarrow>
                let pool = buildIntermediatePool poolOf (crIntermediates creds) in
                (case verifyClientCertificatePerCR X K (crClientCert creds) pool planeType planeID of
                   Inl _ \<Rightarrow> (s, HttpError 401)
                 | Inr validCRs \<Rightarrow>
                     if \<not> upgraded then (s, UpgradeFailed)
                     else let (cm, regID) = Register (svConnMgr s) connID now planeType planeID validCRs (crClientCert creds) pool
                          in (withManager s cm, Connected regID))))"

definition failPendingForConnection :: "Server \<Rightarrow> string \<Rightarrow> Server" where
  "failPendingForConnection s connID =
     (let orphaned = filter (\<lambda>p. prConnID p = connID) (map snd (sorted_list_of_fmap (svPending s)));
          s1 = s\<lparr>svPending := fmfilter (\<lambda>rid. map_option prConnID (fmlookup (svPending s) rid) \<noteq> Some connID) (svPending s)\<rparr>
      in foldl (\<lambda>acc p. case fmlookup (svChans acc) (prCh p) of
                          Some [] \<Rightarrow> acc\<lparr>svChans := fmupd (prCh p) [None] (svChans acc)\<rparr>
                        | _ \<Rightarrow> acc) s1 orphaned)"

text \<open>The deferred calls at the end of \<open>handleConnection\<close>, in the order they run.\<close>

definition connectionEnded :: "Server \<Rightarrow> string \<Rightarrow> string \<Rightarrow> Server" where
  "connectionEnded s planeName connID =
     (let s1 = failPendingForConnection s connID
      in withManager s1 (Unregister (svConnMgr s1) planeName connID))"

definition handleHTTPTunnelResponse :: "Server \<Rightarrow> string \<Rightarrow> HTTPTunnelResponse \<Rightarrow> Server" where
  "handleHTTPTunnelResponse s connID resp =
     (case fmlookup (svPending s) (rsRequestID resp) of
        None \<Rightarrow> s
      | Some p \<Rightarrow>
          if prConnID p \<noteq> connID then s
          else let s1 = s\<lparr>svPending := fmdrop (rsRequestID resp) (svPending s)\<rparr>
               in (case fmlookup (svChans s1) (prCh p) of
                     Some [] \<Rightarrow> s1\<lparr>svChans := fmupd (prCh p) [Some resp] (svChans s1)\<rparr>
                   | _ \<Rightarrow> s1))"

subsection \<open>Requests to agents\<close>

datatype agentFate =
    SendError string
  | Arrives string HTTPTunnelResponse
  | ConnectionCloses
  | NothingArrives

datatype tunnelError = SendFailedErr string | ConnectionClosedErr | TimeoutErr | RoutingErr cmError

fun cmErrorText :: "cmError \<Rightarrow> string" where
  "cmErrorText (NoAgents planeIdentifier) = ''no agents found for plane '' @ planeIdentifier"
| "cmErrorText (NoAuthorizedAgents crKey) = ''no agents authorized for CR '' @ crKey"
| "cmErrorText BadCA = ''failed to parse new CA certificate''"
| "cmErrorText (SendFailed err) = err"

fun tunnelErrorText :: "tunnelError \<Rightarrow> string" where
  "tunnelErrorText (SendFailedErr err) = ''failed to send HTTP tunnel request: '' @ err"
| "tunnelErrorText ConnectionClosedErr = ''agent connection closed before responding''"
| "tunnelErrorText TimeoutErr = ''HTTP tunnel request timeout''"
| "tunnelErrorText (RoutingErr err) = cmErrorText err"

definition beginDispatch :: "Server \<Rightarrow> string \<Rightarrow> AgentConnection \<Rightarrow> Server \<times> nat" where
  "beginDispatch s requestID conn =
     (s\<lparr>svNextCh := svNextCh s + 1, svChans := fmupd (svNextCh s) [] (svChans s),
        svPending := fmupd requestID \<lparr>prCh = svNextCh s, prConnID = acID conn\<rparr> (svPending s)\<rparr>, svNextCh s)"

definition cleanupRequest :: "Server \<Rightarrow> string \<Rightarrow> Server" where
  "cleanupRequest s requestID = s\<lparr>svPending := fmdrop requestID (svPending s)\<rparr>"

definition awaitReply :: "Server \<Rightarrow> string \<Rightarrow> nat \<Rightarrow> Server \<times> (tunnelError, HTTPTunnelResponse) result" where
  "awaitReply s requestID ch =
     (case fmlookup (svChans s) ch of
        Some (Some response # rest) \<Rightarrow> (s\<lparr>svChans := fmupd ch rest (svChans s)\<rparr>, Inr response)
      | Some (None # rest) \<Rightarrow> (s\<lparr>svChans := fmupd ch rest (svChans s)\<rparr>, Inl ConnectionClosedErr)
      | _ \<Rightarrow> (cleanupRequest s requestID, Inl TimeoutErr))"

definition dispatchTunnelRequest ::
    "Server \<Rightarrow> string \<Rightarrow> agentFate \<Rightarrow> AgentConnection \<Rightarrow> HTTPTunnelRequest \<Rightarrow> Server \<times> (tunnelError, HTTPTunnelResponse) result" where
  "dispatchTunnelRequest s freshID fate conn req =
     (let req' = req\<lparr>trRequestID := freshID\<rparr>;
          (s1, ch) = beginDispatch s (trRequestID req') conn
      in (case fate of
            SendError err \<Rightarrow> (cleanupRequest s1 (trRequestID req'), Inl (SendFailedErr err))
          | Arrives connID resp \<Rightarrow> awaitReply (handleHTTPTunnelResponse s1 connID resp) (trRequestID req') ch
          | ConnectionCloses \<Rightarrow> awaitReply (failPendingForConnection s1 (acID conn)) (trRequestID req') ch
          | NothingArrives \<Rightarrow> awaitReply s1 (trRequestID req') ch))"

text \<open>\<open>ServeForward\<close> also reports the connection the request was handed to, if any.\<close>

definition pickConn :: "ConnectionManager \<Rightarrow> string \<Rightarrow> string \<Rightarrow> ConnectionManager \<times> (cmError, AgentConnection) result" where
  "pickConn cm planeIdentifier crKey = (if crKey \<noteq> [] then GetForCR cm planeIdentifier crKey else Get cm planeIdentifier)"

definition ServeForward ::
    "Server \<Rightarrow> string \<Rightarrow> agentFate \<Rightarrow> ForwardRequest \<Rightarrow> Server \<times> ForwardResponse \<times> AgentConnection option" where
  "ServeForward s freshID fate freq =
     (case pickConn (svConnMgr s) (fqPlaneIdentifier freq) (fqCRKey freq) of
        (cm, Inl err) \<Rightarrow>
          (s\<lparr>svConnMgr := cm\<rparr>, \<lparr>fpCorrID = fqCorrID freq, fpResponse = None, fpNoAgent = True, fpError = cmErrorText err\<rparr>, None)
      | (cm, Inr conn) \<Rightarrow>
          (case dispatchTunnelRequest (s\<lparr>svConnMgr := cm\<rparr>) freshID fate conn (fqRequest freq) of
             (s1, Inl err) \<Rightarrow>
               (s1, \<lparr>fpCorrID = fqCorrID freq, fpResponse = None, fpNoAgent = False, fpError = tunnelErrorText err\<rparr>, Some conn)
           | (s1, Inr response) \<Rightarrow>
               (s1, \<lparr>fpCorrID = fqCorrID freq, fpResponse = Some response, fpNoAgent = False, fpError = []\<rparr>, Some conn)))"

subsection \<open>Forwarding over the mesh\<close>

text \<open>
  What happens to one forwarded request: the frame is not written, is lost, or reaches the owner, whose
  answer arrives or not. While the sender waits, only the events that concern this request are shown.
\<close>

datatype forwardFate =
    WriteFails string
  | FrameLost
  | Reaches string agentFate bool

datatype forwardError =
    MeshError meshError
  | OwnerFailed string
  | MeshDisabled
  | NoRemoteAgents string

text \<open>One call of \<open>Forward\<close> by the sender, and the owner's part of it. The last component is the connection of the
  owner the request was handed to.\<close>

definition forwardOnce ::
    "(string \<Rightarrow> Server) \<Rightarrow> Mesh \<Rightarrow> string \<Rightarrow> forwardFate \<Rightarrow> string \<Rightarrow> ForwardRequest \<Rightarrow>
     (string \<Rightarrow> Server) \<times> Mesh \<times> (meshError, ForwardResponse) result \<times> AgentConnection option" where
  "forwardOnce fleet m freshID fate owner freq =
     (case Forward m freshID owner (case fate of WriteFails err \<Rightarrow> Some err | _ \<Rightarrow> None) freq of
        (m1, Inl err) \<Rightarrow> (fleet, m1, Inl err, None)
      | (m1, Inr (ch, corrID, frame)) \<Rightarrow>
          (case (fate, fForwardReq frame) of
             (Reaches rid afate answered, Some freq') \<Rightarrow>
               (case ServeForward (fleet owner) rid afate freq' of
                  (s', rsp, used) \<Rightarrow>
                    let fleet' = fleet(owner := s') in
                    if \<not> answered then (case forwardCancelled m1 owner corrID of (m2, res) \<Rightarrow> (fleet', m2, res, used))
                    else (case handleForwardRsp m1 (rsp\<lparr>fpCorrID := fqCorrID freq'\<rparr>) of
                            (m2, _) \<Rightarrow>
                              (case forwardReceive m2 owner ch of
                                 Some (m3, res) \<Rightarrow> (fleet', m3, res, used)
                               | None \<Rightarrow> (case forwardCancelled m2 owner corrID of (m3, res) \<Rightarrow> (fleet', m3, res, used)))))
           | _ \<Rightarrow> (case forwardCancelled m1 owner corrID of (m2, res) \<Rightarrow> (fleet, m2, res, None))))"

definition upperKey :: "string \<Rightarrow> string" where
  "upperKey s = map (\<lambda>c. if 97 \<le> (of_char c :: nat) \<and> (of_char c :: nat) \<le> 122 then char_of ((of_char c :: nat) - 32) else c)
     (replaceAll [CHR 0xC5, CHR 0xBF] ''S'' (replaceAll [CHR 0xC4, CHR 0xB1] ''I'' s))"

definition isSafeHTTPMethod :: "string \<Rightarrow> bool" where
  "isSafeHTTPMethod method \<longleftrightarrow> upperKey method \<in> {''GET'', ''HEAD'', ''OPTIONS''}"

definition forwardIsSafeToRetry :: "meshError \<Rightarrow> HTTPTunnelRequest \<Rightarrow> bool" where
  "forwardIsSafeToRetry err req =
     (case err of
        ErrNoLink _ \<Rightarrow> True
      | ErrForwardNotSent _ _ \<Rightarrow> True
      | ErrForwardMayHaveExecuted _ \<Rightarrow> isSafeHTTPMethod (trMethod req))"

definition forwardAttempts :: "RemoteAgent list \<Rightarrow> RemoteAgent list" where
  "forwardAttempts candidates =
     (case candidates of
        [] \<Rightarrow> []
      | c # cs \<Rightarrow>
          (case find (\<lambda>d. raOwner d \<noteq> raOwner c) cs of
             Some d \<Rightarrow> [c, d]
           | None \<Rightarrow> (case cs of [] \<Rightarrow> [c] | d # _ \<Rightarrow> [c, d])))"

text \<open>The loop over the attempts. Each attempt has a fate and a fresh identifier; the log lists the connections
  the request was handed to, with their owners.\<close>

fun forwardLoop ::
    "string \<Rightarrow> string \<Rightarrow> HTTPTunnelRequest \<Rightarrow> int \<Rightarrow> (RemoteAgent \<times> string \<times> forwardFate) list \<Rightarrow> forwardError \<Rightarrow>
     (string \<Rightarrow> Server) \<Rightarrow> Mesh \<Rightarrow>
     (string \<Rightarrow> Server) \<times> Mesh \<times> (forwardError, HTTPTunnelResponse \<times> string) result \<times> (string \<times> AgentConnection) list" where
  "forwardLoop planeIdentifier crKey req timeout [] lastErr fleet m = (fleet, m, Inl lastErr, [])"
| "forwardLoop planeIdentifier crKey req timeout ((cand, freshID, fate) # attempts) lastErr fleet m =
     (let freq = \<lparr>fqCorrID = [], fqPlaneIdentifier = planeIdentifier, fqCRKey = crKey, fqTimeoutMillis = timeout, fqRequest = req\<rparr>;
          (fleet1, m1, res, used) = forwardOnce fleet m freshID fate (raOwner cand) freq;
          log = (case used of None \<Rightarrow> [] | Some conn \<Rightarrow> [(raOwner cand, conn)])
      in (case res of
            Inl err \<Rightarrow>
              if \<not> forwardIsSafeToRetry err req then (fleet1, m1, Inl (MeshError err), log)
              else (case forwardLoop planeIdentifier crKey req timeout attempts (MeshError err) fleet1 m1 of
                      (fleet2, m2, res2, log2) \<Rightarrow> (fleet2, m2, res2, log @ log2))
          | Inr rsp \<Rightarrow>
              (case fpResponse rsp of
                 None \<Rightarrow>
                   if \<not> fpNoAgent rsp \<and> \<not> isSafeHTTPMethod (trMethod req) then (fleet1, m1, Inl (OwnerFailed (raOwner cand)), log)
                   else (case forwardLoop planeIdentifier crKey req timeout attempts (OwnerFailed (raOwner cand)) fleet1 m1 of
                           (fleet2, m2, res2, log2) \<Rightarrow> (fleet2, m2, res2, log @ log2))
               | Some response \<Rightarrow> (fleet1, m1, Inr (response, raOwner cand), log))))"

text \<open>\<open>fates\<close> gives the fresh identifier and the fate of the attempts, of which there are at most two.\<close>

definition forwardViaMesh ::
    "(string \<Rightarrow> Server) \<Rightarrow> Server \<Rightarrow> string \<Rightarrow> string \<Rightarrow> HTTPTunnelRequest \<Rightarrow> int \<Rightarrow> (nat \<Rightarrow> string \<times> forwardFate) \<Rightarrow>
     (string \<Rightarrow> Server) \<times> Server \<times> (forwardError, HTTPTunnelResponse \<times> string) result \<times> (string \<times> AgentConnection) list" where
  "forwardViaMesh fleet s planeIdentifier crKey req timeout fates =
     (case svMesh s of
        None \<Rightarrow> (fleet, s, Inl MeshDisabled, [])
      | Some m \<Rightarrow>
          (case Lookup (mRegistry m) planeIdentifier crKey of
             (r, candidates) \<Rightarrow>
               let m1 = m\<lparr>mRegistry := r\<rparr> in
               if candidates = [] then (fleet, s\<lparr>svMesh := Some m1\<rparr>, Inl (NoRemoteAgents planeIdentifier), [])
               else (case forwardLoop planeIdentifier crKey req timeout (zip (forwardAttempts candidates) [fates 0, fates 1])
                            (NoRemoteAgents planeIdentifier) fleet m1 of
                       (fleet', m2, res, log) \<Rightarrow> (fleet', s\<lparr>svMesh := Some m2\<rparr>, res, log))))"

definition selfID :: "Server \<Rightarrow> string \<Rightarrow> string" where
  "selfID s hostname = (case svMesh s of Some m \<Rightarrow> SelfID m | None \<Rightarrow> hostname)"

definition SendHTTPTunnelRequestForCR ::
    "(string \<Rightarrow> Server) \<Rightarrow> Server \<Rightarrow> string \<Rightarrow> string \<Rightarrow> string \<Rightarrow> HTTPTunnelRequest \<Rightarrow> int \<Rightarrow> string \<Rightarrow> agentFate \<Rightarrow> (nat \<Rightarrow> string \<times> forwardFate) \<Rightarrow>
     (string \<Rightarrow> Server) \<times> Server \<times> (tunnelError, HTTPTunnelResponse \<times> string) result \<times> (string \<times> AgentConnection) list" where
  "SendHTTPTunnelRequestForCR fleet s hostname planeName crKey req timeout freshID fate fates =
     (case GetForCR (svConnMgr s) planeName crKey of
        (cm, Inl err) \<Rightarrow>
          (case forwardViaMesh fleet (s\<lparr>svConnMgr := cm\<rparr>) planeName crKey req timeout fates of
             (fleet', s', Inr (response, servedBy), log) \<Rightarrow> (fleet', s', Inr (response, servedBy), log)
           | (fleet', s', Inl _, log) \<Rightarrow> (fleet', s', Inl (RoutingErr err), log))
      | (cm, Inr conn) \<Rightarrow>
          (case dispatchTunnelRequest (s\<lparr>svConnMgr := cm\<rparr>) freshID fate conn req of
             (s', res) \<Rightarrow> (fleet, s', bindR res (\<lambda>response. Inr (response, selfID s' hostname)), [(selfID s hostname, conn)])))"

end
