(* ===== verification/Gateway_Api.thy ===== *)
theory Gateway_Api
  imports Gateway
begin

text \<open>
  The HTTP side of the cluster gateway: the proxy for requests to a plane and its checks
  (\<^verbatim>\<open>server.go\<close>, \<^verbatim>\<open>validator.go\<close>), plane events and their propagation
  (\<^verbatim>\<open>plane_api.go\<close>), the fleet-wide status, and the rebalancing of connections.

  An HTTP reply is its status code, or the response of the agent. Parsing of JSON and of query strings is
  left to the caller.
\<close>

subsection \<open>Request validation\<close>

fun containsStr :: "string \<Rightarrow> string \<Rightarrow> bool" where
  "containsStr [] sub = (sub = [])"
| "containsStr (c # s) sub = (prefix sub (c # s) \<or> containsStr s sub)"

record RequestValidator =
  rvMaxRequestBodySize :: int
  rvAllowedMethods :: "string list"
  rvBlockedPaths :: "string list"
  rvAllowedTargets :: "string list"

definition NewRequestValidator :: RequestValidator where
  "NewRequestValidator =
     \<lparr>rvMaxRequestBodySize = 10 * 1024 * 1024,
      rvAllowedMethods = [''GET'', ''POST'', ''PUT'', ''PATCH'', ''DELETE'', ''HEAD'', ''OPTIONS''],
      rvBlockedPaths = [''/api/v1/namespaces/kube-system/secrets'', ''/apis/v1/serviceaccounts''],
      rvAllowedTargets = [''k8s'', ''monitoring'', ''logs'']\<rparr>"

text \<open>\<open>hrHeader\<close> is \<open>Header.Get\<close>; \<open>hrBody\<close> is what reading the body gives, nothing on a failure.\<close>

record httpRequest =
  hrMethod :: string
  hrPath :: string
  hrRawQuery :: string
  hrHeader :: "string \<Rightarrow> string"
  hrHeaders :: "(string, string list) fmap"
  hrContentLength :: int
  hrBody :: "string option"

datatype ValidationError =
    MethodNotAllowed string
  | TargetNotAllowed string
  | PathBlocked string
  | BodyTooLarge int int
  | DirectoryTraversal
  | NullBytes

fun validationCode :: "ValidationError \<Rightarrow> nat" where
  "validationCode (MethodNotAllowed _) = 405"
| "validationCode (TargetNotAllowed _) = 403"
| "validationCode (PathBlocked _) = 403"
| "validationCode (BodyTooLarge _ _) = 413"
| "validationCode DirectoryTraversal = 400"
| "validationCode NullBytes = 400"

definition ValidateRequest :: "RequestValidator \<Rightarrow> httpRequest \<Rightarrow> string \<Rightarrow> string \<Rightarrow> ValidationError option" where
  "ValidateRequest v r target path =
     (if hrMethod r \<notin> set (rvAllowedMethods v) then Some (MethodNotAllowed (hrMethod r))
      else if target \<notin> set (rvAllowedTargets v) then Some (TargetNotAllowed target)
      else if list_ex (containsStr path) (rvBlockedPaths v) then Some (PathBlocked path)
      else if hrContentLength r > rvMaxRequestBodySize v then Some (BodyTooLarge (hrContentLength r) (rvMaxRequestBodySize v))
      else if containsStr path ''..'' then Some DirectoryTraversal
      else if containsStr path [CHR 0x00] then Some NullBytes
      else None)"

definition AllowTarget :: "RequestValidator \<Rightarrow> string \<Rightarrow> RequestValidator" where
  "AllowTarget v target = v\<lparr>rvAllowedTargets := List.insert target (rvAllowedTargets v)\<rparr>"

definition BlockPath :: "RequestValidator \<Rightarrow> string \<Rightarrow> RequestValidator" where
  "BlockPath v path = v\<lparr>rvBlockedPaths := rvBlockedPaths v @ [path]\<rparr>"

definition SetMaxRequestBodySize :: "RequestValidator \<Rightarrow> int \<Rightarrow> RequestValidator" where
  "SetMaxRequestBodySize v n = v\<lparr>rvMaxRequestBodySize := n\<rparr>"

subsection \<open>The proxy\<close>

datatype httpOutcome =
    HttpStatus nat
  | Proxied HTTPTunnelResponse string string

definition isStreamingRequest :: "httpRequest \<Rightarrow> string \<Rightarrow> bool" where
  "isStreamingRequest r path \<longleftrightarrow>
     containsStr (hrRawQuery r) ''watch=true'' \<or>
     (containsStr path ''/log'' \<and> containsStr (hrRawQuery r) ''follow=true'') \<or>
     hrHeader r ''Connection'' = ''Upgrade'' \<or> hrHeader r ''Upgrade'' \<noteq> []"

definition crNamespaceClusterPlaceholder :: string where "crNamespaceClusterPlaceholder = ''_cluster''"

record proxyTarget =
  ptPlaneType :: string
  ptPlaneID :: string
  ptNamespace :: string
  ptName :: string
  ptTarget :: string
  ptPath :: string

definition parseProxyPath :: "string \<Rightarrow> proxyTarget option" where
  "parseProxyPath urlPath =
     (case splitOn (CHR ''/'') (trimPrefix urlPath ''/api/proxy/'') of
        planeType # planeID # crNamespace # crName # target # p # rest \<Rightarrow>
          Some \<lparr>ptPlaneType = planeType, ptPlaneID = planeID, ptNamespace = crNamespace, ptName = crName,
                ptTarget = target, ptPath = ''/'' @ joinWith ''/'' (p # rest)\<rparr>
      | _ \<Rightarrow> None)"

definition proxyTimeout :: int where "proxyTimeout = 30 * 1000"

definition handleHTTPProxy ::
    "(string \<Rightarrow> Server) \<Rightarrow> Server \<Rightarrow> string \<Rightarrow> RequestValidator \<Rightarrow> string \<Rightarrow> httpRequest \<Rightarrow>
     string \<Rightarrow> agentFate \<Rightarrow> (nat \<Rightarrow> string \<times> forwardFate) \<Rightarrow>
     (string \<Rightarrow> Server) \<times> Server \<times> httpOutcome \<times> (string \<times> AgentConnection) list" where
  "handleHTTPProxy fleet s hostname v requestID r freshID fate fates =
     (case parseProxyPath (hrPath r) of
        None \<Rightarrow> (fleet, s, HttpStatus 400, [])
      | Some t \<Rightarrow>
          (case ValidateRequest v r (ptTarget t) (ptPath t) of
             Some err \<Rightarrow> (fleet, s, HttpStatus (validationCode err), [])
           | None \<Rightarrow>
               let planeIdentifier = planeIdentifierOf (ptPlaneType t) (ptPlaneID t);
                   crNamespace = (if ptNamespace t = crNamespaceClusterPlaceholder then [] else ptNamespace t);
                   crKey = crNamespace @ ''/'' @ ptName t
               in if isStreamingRequest r (ptPath t) then (fleet, s, HttpStatus 501, [])
                  else (case hrBody r of
                          None \<Rightarrow> (fleet, s, HttpStatus 400, [])
                        | Some body \<Rightarrow>
                            let tunnelReq = \<lparr>trRequestID = [], trGatewayRequestID = requestID, trTarget = ptTarget t,
                                  trMethod = hrMethod r, trPath = ptPath t, trQuery = hrRawQuery r, trHeaders = hrHeaders r, trBody = body\<rparr>
                            in (case SendHTTPTunnelRequestForCR fleet s hostname planeIdentifier crKey tunnelReq proxyTimeout freshID fate fates of
                                  (fleet', s', Inl err, log) \<Rightarrow>
                                    (fleet', s', HttpStatus (if containsStr (tunnelErrorText err) ''no agents authorized for CR'' then 403 else 502), log)
                                | (fleet', s', Inr (response, servedBy), log) \<Rightarrow>
                                    (fleet', s', Proxied response (selfID s' hostname) servedBy, log)))))"

text \<open>\<open>SendHTTPTunnelRequest\<close> of the server, for any agent of the plane.\<close>

definition sendPlaneTunnelRequest ::
    "(string \<Rightarrow> Server) \<Rightarrow> Server \<Rightarrow> string \<Rightarrow> HTTPTunnelRequest \<Rightarrow> int \<Rightarrow> string \<Rightarrow> agentFate \<Rightarrow> (nat \<Rightarrow> string \<times> forwardFate) \<Rightarrow>
     (string \<Rightarrow> Server) \<times> Server \<times> (tunnelError, HTTPTunnelResponse) result" where
  "sendPlaneTunnelRequest fleet s planeName req timeout freshID fate fates =
     (case Get (svConnMgr s) planeName of
        (cm, Inl err) \<Rightarrow>
          (case forwardViaMesh fleet (s\<lparr>svConnMgr := cm\<rparr>) planeName [] req timeout fates of
             (fleet', s', Inr (response, _), _) \<Rightarrow> (fleet', s', Inr response)
           | (fleet', s', Inl _, _) \<Rightarrow> (fleet', s', Inl (RoutingErr err)))
      | (cm, Inr conn) \<Rightarrow>
          (case dispatchTunnelRequest (s\<lparr>svConnMgr := cm\<rparr>) freshID fate conn req of (s', res) \<Rightarrow> (fleet, s', res)))"

text \<open>The status code of the readiness probe, at a time after the mesh started.\<close>

definition handleReady :: "Server \<Rightarrow> int \<Rightarrow> nat" where
  "handleReady s now =
     (if svDraining s then 503
      else (case svMesh s of
              None \<Rightarrow> 200
            | Some m \<Rightarrow> if Converged m now then 200 else 503))"

subsection \<open>Plane events\<close>

definition ApplyPlaneEvent :: "x509 \<Rightarrow> k8sReader \<Rightarrow> Server \<Rightarrow> PlaneEvent \<Rightarrow> Server" where
  "ApplyPlaneEvent X K s ev =
     (if evEvent ev = ''created'' \<or> evEvent ev = ''updated'' then
        (case fetchCRClientCA K (evPlaneType ev) (evPlaneID ev) (evNamespace ev) (evName ev) of
           Inl _ \<Rightarrow> s
         | Inr caData \<Rightarrow>
             withManager s (fst (RevalidateCR X (svConnMgr s) (evPlaneType ev) (evPlaneID ev) (evNamespace ev) (evName ev) caData)))
      else if evEvent ev = ''deleted'' \<or> evEvent ev = ''reconnect'' then
        withManager s (fst (DisconnectAllForPlane (svConnMgr s) (evPlaneType ev) (evPlaneID ev)))
      else s)"

definition propagatePlaneEvent :: "Server \<Rightarrow> PlaneEvent \<Rightarrow> Server" where
  "propagatePlaneEvent s ev = s\<lparr>svMesh := map_option (\<lambda>m. BroadcastPlaneEvent m ev) (svMesh s)\<rparr>"

datatype notifyOutcome = NotifyError nat | Revalidated nat nat | Disconnected nat

definition handlePlaneNotification :: "x509 \<Rightarrow> k8sReader \<Rightarrow> Server \<Rightarrow> PlaneEvent \<Rightarrow> Server \<times> notifyOutcome" where
  "handlePlaneNotification X K s n =
     (if evPlaneType n = [] \<or> evPlaneID n = [] \<or> evEvent n = [] then (s, NotifyError 400)
      else if evEvent n = ''created'' \<or> evEvent n = ''updated'' then
        (case fetchCRClientCA K (evPlaneType n) (evPlaneID n) (evNamespace n) (evName n) of
           Inl _ \<Rightarrow> (s, NotifyError 503)
         | Inr caData \<Rightarrow>
             (case RevalidateCR X (svConnMgr s) (evPlaneType n) (evPlaneID n) (evNamespace n) (evName n) caData of
                (cm, Inl _) \<Rightarrow> (withManager s cm, NotifyError 500)
              | (cm, Inr (updated, removed)) \<Rightarrow> (propagatePlaneEvent (withManager s cm) n, Revalidated updated removed)))
      else if evEvent n = ''deleted'' then
        (case DisconnectAllForPlane (svConnMgr s) (evPlaneType n) (evPlaneID n) of
           (cm, count) \<Rightarrow> (propagatePlaneEvent (withManager s cm) n, Disconnected count))
      else (s, NotifyError 400))"

definition handleReconnect :: "Server \<Rightarrow> string \<Rightarrow> string \<Rightarrow> Server \<times> notifyOutcome" where
  "handleReconnect s planeType planeID =
     (if planeType = [] \<or> planeID = [] then (s, NotifyError 400)
      else (case DisconnectAllForPlane (svConnMgr s) planeType planeID of
              (cm, count) \<Rightarrow>
                (propagatePlaneEvent (withManager s cm)
                   \<lparr>evPlaneType = planeType, evPlaneID = planeID, evEvent = ''reconnect'', evNamespace = [], evName = []\<rparr>,
                 Disconnected count)))"

text \<open>\<open>RevalidateCR\<close> verifies the connections of its copy one by one without the manager's lock. One turn of
  this loop, for a connection of the copy that another call may have removed from the manager meanwhile.\<close>

definition revalidateTurn :: "x509 \<Rightarrow> Server \<Rightarrow> string \<Rightarrow> string \<Rightarrow> string \<Rightarrow> AgentConnection \<Rightarrow> Server" where
  "revalidateTurn X s planeIdentifier crKey certPool conn =
     (let (conn', granted, revoked, verifyErr) = UpdateCRValidity X conn crKey certPool;
          cm = svConnMgr s;
          cm1 = cm\<lparr>connections := fmmap (map (\<lambda>c. if acID c = acID conn then conn' else c)) (connections cm)\<rparr>;
          cm2 = (if granted \<or> revoked then notify (AgentCRsChanged planeIdentifier (acID conn') (GetValidCRs conn')) cm1 else cm1)
      in withManager s cm2)"

text \<open>What the call does at the end when it revoked an authorisation, under the lock again.\<close>

definition revalidateCleanup :: "Server \<Rightarrow> string \<Rightarrow> string \<Rightarrow> Server" where
  "revalidateCleanup s planeIdentifier crKey =
     (let cm = svConnMgr s
      in if hasAuthorizedConn (connsOf cm planeIdentifier) crKey then s
         else withManager s (cm\<lparr>roundRobin := fmdrop (crCounterKey planeIdentifier crKey) (roundRobin cm)\<rparr>))"

subsection \<open>Status\<close>

definition addRemote :: "nat \<Rightarrow> PlaneConnectionStatus \<Rightarrow> PlaneConnectionStatus" where
  "addRemote remote status =
     (if remote > 0 then status\<lparr>stConnectedAgents := stConnectedAgents status + remote, stConnected := True\<rparr> else status)"

definition remoteRegistry :: "Server \<Rightarrow> Registry" where
  "remoteRegistry s = (case svMesh s of None \<Rightarrow> NewRegistry | Some m \<Rightarrow> mRegistry m)"

definition PlaneStatus :: "Server \<Rightarrow> string \<Rightarrow> string \<Rightarrow> PlaneConnectionStatus" where
  "PlaneStatus s planeType planeID =
     addRemote (CountForPlane (remoteRegistry s) (planeType @ ''/'' @ planeID)) (GetPlaneStatus (svConnMgr s) planeType planeID)"

definition CRAuthorizationStatus :: "Server \<Rightarrow> string \<Rightarrow> string \<Rightarrow> string \<Rightarrow> string \<Rightarrow> PlaneConnectionStatus" where
  "CRAuthorizationStatus s planeType planeID namespace name =
     addRemote (CountForCR (remoteRegistry s) (planeType @ ''/'' @ planeID) (namespace @ ''/'' @ name))
       (GetCRAuthorizationStatus (svConnMgr s) planeType planeID namespace name)"

definition handleGetPlaneStatus :: "Server \<Rightarrow> string \<Rightarrow> string \<Rightarrow> string \<Rightarrow> string \<Rightarrow> PlaneConnectionStatus option" where
  "handleGetPlaneStatus s planeType planeID namespace name =
     (if planeType = [] \<or> planeID = [] then None
      else if name \<noteq> [] then Some (CRAuthorizationStatus s planeType planeID namespace name)
      else Some (PlaneStatus s planeType planeID))"

text \<open>The loop over the local statuses, which uses up the remote counts it meets.\<close>

fun mergeRemote :: "PlaneConnectionStatus list \<Rightarrow> (string, nat) fmap \<Rightarrow> PlaneConnectionStatus list \<times> (string, nat) fmap" where
  "mergeRemote [] remote = ([], remote)"
| "mergeRemote (status # statuses) remote =
     (let key = stPlaneType status @ ''/'' @ stPlaneID status in
      (case fmlookup remote key of
         None \<Rightarrow> (case mergeRemote statuses remote of (merged, rest) \<Rightarrow> (status # merged, rest))
       | Some count \<Rightarrow>
           (case mergeRemote statuses (fmdrop key remote) of
              (merged, rest) \<Rightarrow>
                (status\<lparr>stConnectedAgents := stConnectedAgents status + count, stConnected := True\<rparr> # merged, rest))))"

definition remoteStatus :: "string \<times> nat \<Rightarrow> PlaneConnectionStatus list" where
  "remoteStatus kc =
     (case splitPlaneIdentifier (fst kc) of
        [planeType, planeID] \<Rightarrow>
          [\<lparr>stPlaneType = planeType, stPlaneID = planeID, stConnected = True, stConnectedAgents = snd kc, stLastSeen = zeroTime\<rparr>]
      | _ \<Rightarrow> [])"

definition AllPlaneStatuses :: "Server \<Rightarrow> PlaneConnectionStatus list" where
  "AllPlaneStatuses s =
     (case svMesh s of
        None \<Rightarrow> GetAllPlaneStatuses (svConnMgr s)
      | Some m \<Rightarrow>
          (case mergeRemote (GetAllPlaneStatuses (svConnMgr s)) (AllPlaneCounts (mRegistry m)) of
             (merged, rest) \<Rightarrow> merged @ concat (map remoteStatus (sorted_list_of_fmap rest))))"

subsection \<open>Draining and rebalancing\<close>

definition rebalanceMaxShedPerCycle :: nat where "rebalanceMaxShedPerCycle = 3"
definition rebalanceSlack :: nat where "rebalanceSlack = 1"

text \<open>How many connections to shed, for the number of local connections and the numbers of the peers.\<close>

definition shedCount :: "nat \<Rightarrow> nat list \<Rightarrow> nat" where
  "shedCount local peers =
     (let pods = length peers + 1; total = local + sum_list peers in
      if pods < 2 \<or> total = 0 then 0
      else let fairShare = (total + pods - 1) div pods in
           if local \<le> fairShare + rebalanceSlack then 0
           else let excess = local - (fairShare + rebalanceSlack)
                in min (max 1 ((excess + 1) div 2)) rebalanceMaxShedPerCycle)"

text \<open>The connections that are sent a GOAWAY.\<close>

definition rebalanceOnce :: "Server \<Rightarrow> AgentConnection list" where
  "rebalanceOnce s =
     (case svMesh s of
        None \<Rightarrow> []
      | Some m \<Rightarrow>
          if svDraining s then []
          else let local = GetAll (svConnMgr s);
                   peerCounts = fmdrop (SelfID m) (CountByOwner (mRegistry m))
               in take (shedCount (length local) (map snd (sorted_list_of_fmap peerCounts))) local)"

end
