(* ===== verification/Conn_Manager_Facts.thy ===== *)
theory Conn_Manager_Facts
  imports Conn_Manager Authz_Match_Facts
begin

text \<open>
  Correctness of the connection manager: requests for a CR only reach connections whose certificate was
  accepted for it, successive requests rotate over all of them, re-validation enforces the new
  authority on every connection of the plane, and the counters do not outlive what they count.
\<close>

subsection \<open>Round robin\<close>

fun runPicks :: "('s \<Rightarrow> 's \<times> 'r) \<Rightarrow> nat \<Rightarrow> 's \<Rightarrow> 's \<times> 'r list" where
  "runPicks pick 0 s = (s, [])"
| "runPicks pick (Suc n) s =
     (let (s1, r) = pick s; (s2, rs) = runPicks pick n s1 in (s2, r # rs))"

lemma snd_runPicks_Suc: "snd (runPicks pick (Suc n) s) = snd (pick s) # snd (runPicks pick n (fst (pick s)))"
  by (simp split: prod.splits)

text \<open>A selection that walks through a pool by a counter.\<close>

locale round_robin =
  fixes pick :: "'s \<Rightarrow> 's \<times> ('e, 'a) result" and pool :: "'s \<Rightarrow> 'a list" and pos :: "'s \<Rightarrow> nat"
  assumes pick_result: "pool s \<noteq> [] \<Longrightarrow> snd (pick s) = Inr (pool s ! (pos s mod length (pool s)))"
    and pick_pool: "pool (fst (pick s)) = pool s"
    and pick_pos: "pool s \<noteq> [] \<Longrightarrow> pos (fst (pick s)) mod length (pool s) = (pos s + 1) mod length (pool s)"
begin

lemma picks_length: "length (snd (runPicks pick n s)) = n"
  by (induction n arbitrary: s) (simp_all add: snd_runPicks_Suc del: runPicks.simps(2))

lemma picks_nth:
  "pool s \<noteq> [] \<Longrightarrow> k < n \<Longrightarrow>
   snd (runPicks pick n s) ! k = Inr (pool s ! ((pos s + k) mod length (pool s)))"
proof (induction n arbitrary: s k)
  case 0
  then show ?case by simp
next
  case (Suc n)
  let ?s1 = "fst (pick s)"
  show ?case
  proof (cases k)
    case 0
    with Suc.prems show ?thesis
      using pick_result[of s] by (simp add: snd_runPicks_Suc del: runPicks.simps(2))
  next
    case (Suc j)
    have "(pos ?s1 + j) mod length (pool s) = (pos s + k) mod length (pool s)"
      using pick_pos[of s] Suc.prems(1) Suc by (metis add_Suc_shift mod_add_left_eq Suc_eq_plus1)
    moreover have "snd (runPicks pick n ?s1) ! j = Inr (pool ?s1 ! ((pos ?s1 + j) mod length (pool ?s1)))"
      using Suc.IH[of ?s1 j] Suc.prems pick_pool[of s] Suc by simp
    ultimately show ?thesis
      using pick_pool[of s] Suc by (simp add: snd_runPicks_Suc del: runPicks.simps(2))
  qed
qed

lemma full_round:
  assumes "pool s \<noteq> []"
  shows "snd (runPicks pick (length (pool s)) s) = map Inr (rotate (pos s) (pool s))"
proof (rule nth_equalityI)
  fix k assume "k < length (snd (runPicks pick (length (pool s)) s))"
  with assms picks_length picks_nth[of s k "length (pool s)"] show
    "snd (runPicks pick (length (pool s)) s) ! k = map Inr (rotate (pos s) (pool s)) ! k"
    by (simp add: nth_rotate add.commute)
qed (simp add: picks_length)

end

definition authorizedConns :: "string \<Rightarrow> string \<Rightarrow> ConnectionManager \<Rightarrow> AgentConnection list" where
  "authorizedConns planeIdentifier crKey cm = filter (\<lambda>conn. IsValidForCR conn crKey) (connsOf cm planeIdentifier)"

lemma connsOf_counter [simp]: "connsOf (cm\<lparr>roundRobin := m\<rparr>) p = connsOf cm p"
  by (simp add: connsOf_def)

lemma counterOf_fmupd [simp]: "counterOf (cm\<lparr>roundRobin := fmupd k n m\<rparr>) k = n"
  by (simp add: counterOf_def)

interpretation plane_rr: round_robin "\<lambda>cm. Get cm p" "\<lambda>cm. connsOf cm p" "\<lambda>cm. counterOf cm p" for p
  by unfold_locales (auto simp: Get_def Let_def mod_simps)

interpretation cr_rr: round_robin "\<lambda>cm. GetForCR cm p cr" "authorizedConns p cr" "\<lambda>cm. counterOf cm (crCounterKey p cr)" for p cr
  by unfold_locales (auto simp: GetForCR_def authorizedConns_def Let_def mod_simps)

subsection \<open>Re-validation\<close>

lemma revalidateConns_map:
  "fst (revalidateConns X p cr pool conns) = map (\<lambda>c. fst (UpdateCRValidity X c cr pool)) conns"
  by (induction conns) (auto simp: Let_def split: prod.splits)

lemma revalidateConns_counts:
  "fst (snd (revalidateConns X p cr pool conns)) =
     length (filter (\<lambda>c. \<not> IsValidForCR c cr \<and> verifyCert X pool (acIntermediates c) (acClientCert c) = None) conns)"
  "fst (snd (snd (revalidateConns X p cr pool conns))) =
     length (filter (\<lambda>c. IsValidForCR c cr \<and> verifyCert X pool (acIntermediates c) (acClientCert c) \<noteq> None) conns)"
  by (induction conns) (auto simp: UpdateCRValidity_def IsValidForCR_def Let_def split: prod.splits)

lemma UpdateCRValidity_valid:
  "IsValidForCR (fst (UpdateCRValidity X c cr pool)) k \<longleftrightarrow>
     (if k = cr then verifyCert X pool (acIntermediates c) (acClientCert c) = None else IsValidForCR c k)"
  by (auto simp: UpdateCRValidity_def IsValidForCR_def removeValidCRUnsafe_def Let_def)

lemma UpdateCRValidity_frame [simp]:
  "acID (fst (UpdateCRValidity X c cr pool)) = acID c"
  "acPlaneIdentifier (fst (UpdateCRValidity X c cr pool)) = acPlaneIdentifier c"
  "acPlaneType (fst (UpdateCRValidity X c cr pool)) = acPlaneType c"
  "acPlaneID (fst (UpdateCRValidity X c cr pool)) = acPlaneID c"
  "acClientCert (fst (UpdateCRValidity X c cr pool)) = acClientCert c"
  "acIntermediates (fst (UpdateCRValidity X c cr pool)) = acIntermediates c"
  by (auto simp: UpdateCRValidity_def removeValidCRUnsafe_def Let_def)

lemma notify_frame [simp]:
  "connections (notify e cm) = connections cm" "roundRobin (notify e cm) = roundRobin cm"
  "connections (closeConn c cm) = connections cm" "roundRobin (closeConn c cm) = roundRobin cm"
  by (simp_all add: notify_def closeConn_def)

lemma foldl_notify [simp]:
  "connections (foldl (\<lambda>c e. notify e c) cm evs) = connections cm"
  "roundRobin (foldl (\<lambda>c e. notify e c) cm evs) = roundRobin cm"
  by (induction evs arbitrary: cm) simp_all

lemma connsOf_cong: "connections cm = connections cm' \<Longrightarrow> connsOf cm p = connsOf cm' p"
  by (simp add: connsOf_def)

lemma connsOf_fmupd [simp]:
  "connsOf (cm\<lparr>connections := fmupd p cs (connections cm)\<rparr>) q = (if p = q then cs else connsOf cm q)"
  by (simp add: connsOf_def)

lemma RevalidateCR_conns:
  assumes "RevalidateCR X cm planeType planeID ns name ca = (cm', Inr counts)"
    and "parsePool X ca = Some pool"
  shows "connsOf cm' q =
    (if q = planeIdentifierOf planeType planeID
     then map (\<lambda>c. fst (UpdateCRValidity X c (ns @ ''/'' @ name) pool)) (connsOf cm q) else connsOf cm q)"
proof (cases "connsOf cm (planeIdentifierOf planeType planeID) = []")
  case True
  with assms show ?thesis by (auto simp: RevalidateCR_def Let_def)
next
  case False
  let ?p = "planeIdentifierOf planeType planeID" and ?cr = "ns @ ''/'' @ name"
  obtain conns' updated removed evs where
    rev: "revalidateConns X ?p ?cr pool (connsOf cm ?p) = (conns', updated, removed, evs)"
    using prod_cases4 by blast
  have "connections cm' = fmupd ?p conns' (connections cm)"
    using assms False rev by (auto simp: RevalidateCR_def Let_def split: if_splits)
  moreover have "conns' = map (\<lambda>c. fst (UpdateCRValidity X c ?cr pool)) (connsOf cm ?p)"
    using revalidateConns_map[of X ?p ?cr pool "connsOf cm ?p"] rev by simp
  ultimately show ?thesis
    by (simp add: connsOf_def)
qed

lemma RevalidateCR_total:
  assumes "parsePool X ca = Some pool"
  shows "\<exists>cm' counts. RevalidateCR X cm planeType planeID ns name ca = (cm', Inr counts)"
  using assms by (auto simp: RevalidateCR_def Let_def split: prod.splits)

subsection \<open>Keys\<close>

text \<open>Plane types and plane identifiers are names without a slash.\<close>

definition wfPlane :: "string \<Rightarrow> bool" where
  "wfPlane p \<longleftrightarrow> (\<exists>t i. p = planeIdentifierOf t i \<and> CHR ''/'' \<notin> set t \<and> CHR ''/'' \<notin> set i)"

lemma crCounterKey_inj:
  assumes "wfPlane p" "wfPlane q" "crCounterKey p c = crCounterKey q d"
  shows "p = q \<and> c = d"
proof -
  from assms obtain t i t' i' where names: "p = t @ CHR ''/'' # i" "q = t' @ CHR ''/'' # i'"
    "CHR ''/'' \<notin> set t" "CHR ''/'' \<notin> set i" "CHR ''/'' \<notin> set t'" "CHR ''/'' \<notin> set i'"
    by (auto simp: wfPlane_def planeIdentifierOf_def)
  with assms(3) have "t @ CHR ''/'' # i @ CHR ''/'' # c = t' @ CHR ''/'' # i' @ CHR ''/'' # d"
    by (simp add: crCounterKey_def)
  with names show ?thesis by (simp add: first_occurrence_unique)
qed

lemma crCounterKey_not_plane:
  assumes "wfPlane p" "wfPlane q"
  shows "crCounterKey p c \<noteq> q"
proof
  assume eq: "crCounterKey p c = q"
  from assms obtain t i t' i' where "p = t @ CHR ''/'' # i" "q = t' @ CHR ''/'' # i'"
    "CHR ''/'' \<notin> set t" "CHR ''/'' \<notin> set t'" "CHR ''/'' \<notin> set i'"
    by (auto simp: wfPlane_def planeIdentifierOf_def)
  with eq have "i @ CHR ''/'' # c = i'" by (simp add: crCounterKey_def first_occurrence_unique)
  with \<open>CHR ''/'' \<notin> set i'\<close> show False by auto
qed

lemma longer_with_prefix:
  "length k > length pre \<and> take (length pre) k = pre \<longleftrightarrow> (\<exists>r. r \<noteq> [] \<and> k = pre @ r)"
proof
  assume k: "length k > length pre \<and> take (length pre) k = pre"
  then have "k = pre @ drop (length pre) k" by (metis append_take_drop_id)
  moreover have "drop (length pre) k \<noteq> []" using k by simp
  ultimately show "\<exists>r. r \<noteq> [] \<and> k = pre @ r" by blast
qed auto

lemma cleanup_keeps:
  "fmlookup (roundRobin (cleanupPerCRRoundRobinKeys p cm)) k =
     (if \<exists>r. r \<noteq> [] \<and> k = crCounterKey p r then None else fmlookup (roundRobin cm) k)"
proof -
  have "(\<exists>r. r \<noteq> [] \<and> k = crCounterKey p r) \<longleftrightarrow> length k > length (p @ ''/'') \<and> take (length (p @ ''/'')) k = p @ ''/''"
    unfolding longer_with_prefix by (simp add: crCounterKey_def)
  then show ?thesis
    by (simp add: cleanupPerCRRoundRobinKeys_def Let_def)
qed

lemma cleanup_connections [simp]: "connections (cleanupPerCRRoundRobinKeys p cm) = connections cm"
  by (simp add: cleanupPerCRRoundRobinKeys_def Let_def)

lemma cleanupOrphaned:
  "connections (cleanupOrphanedCRKeys p crs cm) = connections cm"
  "fmlookup (roundRobin (cleanupOrphanedCRKeys p crs cm)) k =
     (if \<exists>cr \<in> set crs. \<not> hasAuthorizedConn (connsOf cm p) cr \<and> k = crCounterKey p cr then None
      else fmlookup (roundRobin cm) k)"
proof -
  let ?step = "\<lambda>conns c crKey. if hasAuthorizedConn conns crKey then c
      else c\<lparr>roundRobin := fmdrop (crCounterKey p crKey) (roundRobin c)\<rparr>"
  have "connections (foldl (?step conns) c crs) = connections c \<and>
      fmlookup (roundRobin (foldl (?step conns) c crs)) k =
        (if \<exists>cr \<in> set crs. \<not> hasAuthorizedConn conns cr \<and> k = crCounterKey p cr then None
         else fmlookup (roundRobin c) k)" for conns and c :: ConnectionManager
    by (induction crs arbitrary: c) auto
  then show "connections (cleanupOrphanedCRKeys p crs cm) = connections cm"
    "fmlookup (roundRobin (cleanupOrphanedCRKeys p crs cm)) k =
     (if \<exists>cr \<in> set crs. \<not> hasAuthorizedConn (connsOf cm p) cr \<and> k = crCounterKey p cr then None
      else fmlookup (roundRobin cm) k)"
    by (simp_all add: cleanupOrphanedCRKeys_def Let_def)
qed

subsection \<open>Invariant\<close>

definition connOk :: "string \<Rightarrow> AgentConnection \<Rightarrow> bool" where
  "connOk p c \<longleftrightarrow> acPlaneIdentifier c = p \<and> p = planeIdentifierOf (acPlaneType c) (acPlaneID c) \<and> [] \<notin> set (acValidCRs c)"

definition planesOk :: "ConnectionManager \<Rightarrow> bool" where
  "planesOk cm \<longleftrightarrow>
     (\<forall>p conns. fmlookup (connections cm) p = Some conns \<longrightarrow>
        wfPlane p \<and> conns \<noteq> [] \<and> (\<forall>c \<in> set conns. connOk p c))"

definition idsOk :: "ConnectionManager \<Rightarrow> bool" where
  "idsOk cm \<longleftrightarrow>
     (\<forall>p. distinct (map acID (connsOf cm p))) \<and>
     (\<forall>p q. p \<noteq> q \<longrightarrow> acID ` set (connsOf cm p) \<inter> acID ` set (connsOf cm q) = {})"

text \<open>Every counter belongs to a plane with connections, or to a CR one of its connections may serve.\<close>

definition counterLive :: "ConnectionManager \<Rightarrow> string \<Rightarrow> bool" where
  "counterLive cm key \<longleftrightarrow>
     (\<exists>p. connsOf cm p \<noteq> [] \<and> (key = p \<or> (\<exists>cr. key = crCounterKey p cr \<and> hasAuthorizedConn (connsOf cm p) cr)))"

definition countersOk :: "ConnectionManager \<Rightarrow> bool" where
  "countersOk cm \<longleftrightarrow> (\<forall>key. fmlookup (roundRobin cm) key \<noteq> None \<longrightarrow> counterLive cm key)"

definition cmOk :: "ConnectionManager \<Rightarrow> bool" where
  "cmOk cm \<longleftrightarrow> planesOk cm \<and> idsOk cm \<and> countersOk cm"

lemma planesOk_conn: "planesOk cm \<Longrightarrow> c \<in> set (connsOf cm p) \<Longrightarrow> wfPlane p \<and> connOk p c"
  by (cases "fmlookup (connections cm) p") (auto simp: planesOk_def connsOf_def)

lemma planesOk_wf: "planesOk cm \<Longrightarrow> connsOf cm p \<noteq> [] \<Longrightarrow> wfPlane p"
  by (cases "fmlookup (connections cm) p") (auto simp: planesOk_def connsOf_def)

lemma countersOk_subset:
  assumes "countersOk cm" and "\<And>k. fmlookup (roundRobin cm') k \<noteq> None \<Longrightarrow> fmlookup (roundRobin cm) k \<noteq> None \<and>
    (counterLive cm k \<longrightarrow> counterLive cm' k)"
  shows "countersOk cm'"
  using assms by (auto simp: countersOk_def)

lemma counterLive_plane: "connsOf cm p \<noteq> [] \<Longrightarrow> counterLive cm p"
  by (auto simp: counterLive_def)

lemma counterLive_cr: "hasAuthorizedConn (connsOf cm p) cr \<Longrightarrow> counterLive cm (crCounterKey p cr)"
  unfolding counterLive_def by (intro exI[of _ p]) (auto simp: hasAuthorizedConn_def)

lemma cmOk_same_conns:
  assumes ok: "cmOk cm" and cm': "connections cm' = connections cm"
    and live: "\<And>k. fmlookup (roundRobin cm') k \<noteq> None \<Longrightarrow> fmlookup (roundRobin cm) k \<noteq> None \<or> counterLive cm k"
  shows "cmOk cm'"
proof -
  have conns: "connsOf cm' q = connsOf cm q" for q using cm' by (simp add: connsOf_def)
  have "counterLive cm' k" if "fmlookup (roundRobin cm') k \<noteq> None" for k
    using live[OF that] ok unfolding cmOk_def countersOk_def counterLive_def conns by blast
  then show ?thesis
    using ok unfolding cmOk_def planesOk_def idsOk_def countersOk_def conns cm' by blast
qed

lemma idsOk_update:
  assumes ok: "idsOk cm" and conns: "\<And>q. connsOf cm' q = (if q = p then cs else connsOf cm q)"
    and dist: "distinct (map acID cs)"
    and disj: "\<And>q. q \<noteq> p \<Longrightarrow> acID ` set cs \<inter> acID ` set (connsOf cm q) = {}"
  shows "idsOk cm'"
  unfolding idsOk_def
proof (intro conjI allI impI)
  fix q show "distinct (map acID (connsOf cm' q))"
    using ok dist by (simp add: conns idsOk_def)
next
  fix q r :: string assume "q \<noteq> r"
  moreover have "acID ` set (connsOf cm q) \<inter> acID ` set (connsOf cm r) = {}" if "q \<noteq> r"
    using ok that unfolding idsOk_def by blast
  ultimately show "acID ` set (connsOf cm' q) \<inter> acID ` set (connsOf cm' r) = {}"
    using disj[of q] disj[of r] unfolding conns by (cases "q = p"; cases "r = p"; simp add: Int_commute)
qed

lemma idsOk_disjoint: "idsOk cm \<Longrightarrow> p \<noteq> q \<Longrightarrow> acID ` set (connsOf cm p) \<inter> acID ` set (connsOf cm q) = {}"
  unfolding idsOk_def by blast

lemma Register_ok:
  assumes ok: "cmOk cm" and fresh: "\<And>p. connID \<notin> acID ` set (connsOf cm p)"
    and names: "CHR ''/'' \<notin> set planeType" "CHR ''/'' \<notin> set planeID" "[] \<notin> set validCRs"
  shows "cmOk (fst (Register cm connID now planeType planeID validCRs cert ints))" (is "cmOk ?cm'")
proof -
  let ?p = "planeIdentifierOf planeType planeID"
  define new where "new = \<lparr>acID = connID, acPlaneType = planeType, acPlaneID = planeID, acPlaneIdentifier = ?p,
    acConnectedAt = now, acLastSeen = now, acValidCRs = validCRs, acClientCert = cert, acIntermediates = ints\<rparr>"
  have new: "acID new = connID" "connOk ?p new"
      "connections ?cm' = fmupd ?p (connsOf cm ?p @ [new]) (connections cm)" "roundRobin ?cm' = roundRobin cm"
    using names(3) by (simp_all add: Register_def connOk_def new_def Let_def)
  have conns: "connsOf ?cm' q = (if q = ?p then connsOf cm ?p @ [new] else connsOf cm q)" for q
    using new(3) by (simp add: connsOf_def)
  have "planesOk ?cm'"
    unfolding planesOk_def
  proof (intro allI impI)
    fix p conns assume look: "fmlookup (connections ?cm') p = Some conns"
    have "wfPlane ?p" using names by (auto simp: wfPlane_def)
    then show "wfPlane p \<and> conns \<noteq> [] \<and> (\<forall>c \<in> set conns. connOk p c)"
      using look new(2,3) ok planesOk_conn[of cm _ ?p] by (auto simp: cmOk_def planesOk_def split: if_splits)
  qed
  moreover have "idsOk ?cm'"
  proof (rule idsOk_update[OF _ conns])
    show ids: "idsOk cm" using ok by (simp add: cmOk_def)
    then show "distinct (map acID (connsOf cm ?p @ [new]))"
      using fresh[of ?p] new(1) by (simp add: idsOk_def)
    fix q assume "q \<noteq> ?p"
    with idsOk_disjoint[OF ids this] fresh[of q] new(1)
    show "acID ` set (connsOf cm ?p @ [new]) \<inter> acID ` set (connsOf cm q) = {}" by auto
  qed
  moreover have "countersOk ?cm'"
  proof (rule countersOk_subset)
    show "countersOk cm" using ok by (simp add: cmOk_def)
    fix k assume "fmlookup (roundRobin ?cm') k \<noteq> None"
    have "counterLive ?cm' k" if "counterLive cm k"
    proof -
      from that obtain q where "connsOf cm q \<noteq> []"
        "k = q \<or> (\<exists>cr. k = crCounterKey q cr \<and> hasAuthorizedConn (connsOf cm q) cr)" by (auto simp: counterLive_def)
      then show ?thesis
        unfolding counterLive_def by (intro exI[of _ q]) (auto simp: conns hasAuthorizedConn_def)
    qed
    then show "fmlookup (roundRobin cm) k \<noteq> None \<and> (counterLive cm k \<longrightarrow> counterLive ?cm' k)"
      using \<open>fmlookup (roundRobin ?cm') k \<noteq> None\<close> new(4) by simp
  qed
  ultimately show ?thesis by (simp add: cmOk_def)
qed

lemma replace_ok:
  assumes ok: "cmOk cm" and cm': "connections cm' = fmupd p cs (connections cm)"
    and cs: "cs \<noteq> []" "connsOf cm p \<noteq> []" "\<And>c. c \<in> set cs \<Longrightarrow> connOk p c"
    and ids: "distinct (map acID cs)" "acID ` set cs \<subseteq> acID ` set (connsOf cm p)"
  shows "planesOk cm' \<and> idsOk cm'"
proof
  have conns: "connsOf cm' q = (if q = p then cs else connsOf cm q)" for q
    using cm' by (simp add: connsOf_def)
  have "wfPlane p" using ok cs(2) planesOk_wf[of cm p] by (simp add: cmOk_def)
  then have "wfPlane q \<and> conns \<noteq> [] \<and> (\<forall>c \<in> set conns. connOk q c)"
    if "fmlookup (connections cm') q = Some conns" for q conns
    using that ok cm' cs(1,3) unfolding cmOk_def planesOk_def by (cases "q = p") simp_all
  then show "planesOk cm'" unfolding planesOk_def by blast
  have old: "idsOk cm" using ok by (simp add: cmOk_def)
  show "idsOk cm'"
  proof (rule idsOk_update[OF old conns ids(1)])
    fix q assume "q \<noteq> p"
    with idsOk_disjoint[OF old, of p q] ids(2)
    show "acID ` set cs \<inter> acID ` set (connsOf cm q) = {}" by (metis disjoint_iff subsetD)
  qed
qed

lemma drop_ok:
  assumes ok: "cmOk cm" and cm': "connections cm' = fmdrop p (connections cm)"
  shows "planesOk cm' \<and> idsOk cm'"
proof
  have conns: "connsOf cm' q = (if q = p then [] else connsOf cm q)" for q
    using cm' by (simp add: connsOf_def)
  show "planesOk cm'" using ok cm' by (simp add: cmOk_def planesOk_def)
  show "idsOk cm'"
    using ok by (intro idsOk_update[OF _ conns]) (simp_all add: cmOk_def)
qed

lemma Get_ok:
  assumes ok: "cmOk cm"
  shows "cmOk (fst (Get cm p))"
proof (cases "connsOf cm p = []")
  case True
  with ok show ?thesis by (simp add: Get_def)
next
  case False
  then show ?thesis
    using counterLive_plane[OF False] by (intro cmOk_same_conns[OF ok]) (auto simp: Get_def Let_def split: if_splits)
qed

lemma GetForCR_ok:
  assumes ok: "cmOk cm"
  shows "cmOk (fst (GetForCR cm p cr))"
proof (cases "authorizedConns p cr cm = []")
  case True
  with ok show ?thesis by (simp add: GetForCR_def authorizedConns_def Let_def)
next
  case False
  then have "hasAuthorizedConn (connsOf cm p) cr"
    by (auto simp: authorizedConns_def hasAuthorizedConn_def filter_empty_conv)
  from counterLive_cr[OF this] False show ?thesis
    by (intro cmOk_same_conns[OF ok]) (auto simp: GetForCR_def authorizedConns_def Let_def split: if_splits)
qed

lemma splitAtID_Some:
  "splitAtID connID conns = Some (before, conn, after) \<Longrightarrow> conns = before @ conn # after \<and> acID conn = connID"
  by (induction conns arbitrary: before) (auto split: if_splits)

text \<open>An update of the connections of one plane that adds no identifiers.\<close>

lemma shrink_conns_ok:
  assumes ok: "cmOk cm" and cm': "connections cm' = fmupd p cs (connections cm)"
    and some: "connsOf cm p \<noteq> []" "cs \<noteq> []"
    and ids: "distinct (map acID cs)" "acID ` set cs \<subseteq> acID ` set (connsOf cm p)"
    and good: "\<And>c. c \<in> set cs \<Longrightarrow> connOk p c"
    and live: "\<And>k. fmlookup (roundRobin cm') k \<noteq> None \<Longrightarrow> fmlookup (roundRobin cm) k \<noteq> None \<and>
      (\<forall>cr. k = crCounterKey p cr \<longrightarrow> hasAuthorizedConn (connsOf cm p) cr \<longrightarrow> hasAuthorizedConn cs cr)"
  shows "cmOk cm'"
proof -
  have conns: "connsOf cm' q = (if q = p then cs else connsOf cm q)" for q using cm' by (simp add: connsOf_def)
  have "planesOk cm' \<and> idsOk cm'"
    by (rule replace_ok[OF ok cm' some(2,1) good ids])
  moreover have "countersOk cm'"
  proof (rule countersOk_subset)
    show "countersOk cm" using ok by (simp add: cmOk_def)
    fix k assume k: "fmlookup (roundRobin cm') k \<noteq> None"
    have "counterLive cm' k" if "counterLive cm k"
    proof -
      from that obtain q where q: "connsOf cm q \<noteq> []"
        "k = q \<or> (\<exists>cr. k = crCounterKey q cr \<and> hasAuthorizedConn (connsOf cm q) cr)" by (auto simp: counterLive_def)
      then show ?thesis
        using live[OF k] some(2) counterLive_plane[of cm' q] counterLive_cr[of cm' q] by (cases "q = p") (auto simp: conns)
    qed
    with live[OF k] show "fmlookup (roundRobin cm) k \<noteq> None \<and> (counterLive cm k \<longrightarrow> counterLive cm' k)" by simp
  qed
  ultimately show ?thesis by (simp add: cmOk_def)
qed

lemma ids_distinct: "cmOk cm \<Longrightarrow> distinct (map acID (connsOf cm p))"
  by (simp add: cmOk_def idsOk_def)

lemma conns_ok: "cmOk cm \<Longrightarrow> c \<in> set (connsOf cm p) \<Longrightarrow> connOk p c"
  using planesOk_conn[of cm c p] by (simp add: cmOk_def)

lemma update_conns_ok:
  assumes ok: "cmOk cm" and cm': "connections cm' = fmupd p cs (connections cm)"
    and some: "connsOf cm p \<noteq> []" and ids: "map acID cs = map acID (connsOf cm p)"
    and good: "\<And>c. c \<in> set cs \<Longrightarrow> connOk p c"
    and live: "\<And>k. fmlookup (roundRobin cm') k \<noteq> None \<Longrightarrow> fmlookup (roundRobin cm) k \<noteq> None \<and>
      (\<forall>cr. k = crCounterKey p cr \<longrightarrow> hasAuthorizedConn (connsOf cm p) cr \<longrightarrow> hasAuthorizedConn cs cr)"
  shows "cmOk cm'"
proof (rule shrink_conns_ok[OF ok cm' some _ _ _ good live])
  show "cs \<noteq> []" using ids some by (metis map_is_Nil_conv)
  show "distinct (map acID cs)" using ids ids_distinct[OF ok] by simp
  show "acID ` set cs \<subseteq> acID ` set (connsOf cm p)" using ids by (metis list.set_map order_refl)
qed

lemma LastSeen_ok:
  assumes ok: "cmOk cm"
  shows "cmOk (UpdateConnectionLastSeen cm now p connID)"
proof (cases "\<exists>conns before conn after. fmlookup (connections cm) p = Some conns \<and> splitAtID connID conns = Some (before, conn, after)")
  case False
  with ok show ?thesis by (auto simp: UpdateConnectionLastSeen_def split: option.splits)
next
  case True
  then obtain conns before conn after where at: "fmlookup (connections cm) p = Some conns"
    "splitAtID connID conns = Some (before, conn, after)" by blast
  let ?cs = "before @ [conn\<lparr>acLastSeen := now\<rparr>] @ after" and ?cm = "UpdateConnectionLastSeen cm now p connID"
  have old: "connsOf cm p = before @ conn # after"
    using at splitAtID_Some[OF at(2)] by (simp add: connsOf_def)
  have cm': "connections ?cm = fmupd p ?cs (connections cm)" "roundRobin ?cm = roundRobin cm"
    using at by (simp_all add: UpdateConnectionLastSeen_def)
  have good: "connOk p c" if "c \<in> set (before @ conn # after)" for c
    using ok that old planesOk_conn[of cm c p] by (simp add: cmOk_def)
  have same: "hasAuthorizedConn ?cs cr \<longleftrightarrow> hasAuthorizedConn (connsOf cm p) cr" for cr
    unfolding old by (simp add: hasAuthorizedConn_def IsValidForCR_def)
  show ?thesis
  proof (rule update_conns_ok[OF ok cm'(1)])
    show "connsOf cm p \<noteq> []" "map acID ?cs = map acID (connsOf cm p)" using old by simp_all
    fix c assume "c \<in> set ?cs"
    then show "connOk p c" using good[of conn] good[of c] by (auto simp: connOk_def)
  qed (use cm'(2) same in simp)
qed

lemma revoked_counted:
  assumes "hasAuthorizedConn conns k"
  shows "hasAuthorizedConn (map (\<lambda>c. fst (UpdateCRValidity X c cr pool)) conns) k \<or>
    k = cr \<and> fst (snd (snd (revalidateConns X p cr pool conns))) > 0"
proof -
  from assms obtain c where c: "c \<in> set conns" "IsValidForCR c k" by (auto simp: hasAuthorizedConn_def)
  show ?thesis
  proof (cases "k = cr \<and> verifyCert X pool (acIntermediates c) (acClientCert c) \<noteq> None")
    case True
    with c show ?thesis by (auto simp: revalidateConns_counts filter_empty_conv)
  next
    case False
    with c have "IsValidForCR (fst (UpdateCRValidity X c cr pool)) k" by (auto simp: UpdateCRValidity_valid)
    with c(1) show ?thesis by (auto simp: hasAuthorizedConn_def)
  qed
qed

lemma RevalidateCR_ok:
  assumes ok: "cmOk cm" and name: "name \<noteq> []"
  shows "cmOk (fst (RevalidateCR X cm planeType planeID ns name ca))"
proof (cases "connsOf cm (planeIdentifierOf planeType planeID) = [] \<or> parsePool X ca = None")
  case True
  with ok show ?thesis by (auto simp: RevalidateCR_def Let_def)
next
  case False
  let ?p = "planeIdentifierOf planeType planeID" and ?cr = "ns @ ''/'' @ name"
  let ?cm = "fst (RevalidateCR X cm planeType planeID ns name ca)"
  obtain pool where pool: "parsePool X ca = Some pool" using False by auto
  obtain cs updated removed evs where
    rev: "revalidateConns X ?p ?cr pool (connsOf cm ?p) = (cs, updated, removed, evs)"
    using prod_cases4 by blast
  have cs: "cs = map (\<lambda>c. fst (UpdateCRValidity X c ?cr pool)) (connsOf cm ?p)"
    using revalidateConns_map[of X ?p ?cr pool "connsOf cm ?p"] rev by simp
  have cm': "connections ?cm = fmupd ?p cs (connections cm)"
    using False rev pool by (simp add: RevalidateCR_def Let_def)
  show ?thesis
  proof (rule update_conns_ok[OF ok cm'])
    show "connsOf cm ?p \<noteq> []" "map acID cs = map acID (connsOf cm ?p)" using False cs by simp_all
    fix c assume "c \<in> set cs"
    then obtain d where d: "d \<in> set (connsOf cm ?p)" "c = fst (UpdateCRValidity X d ?cr pool)" using cs by auto
    moreover have "connOk ?p d" using ok d(1) planesOk_conn[of cm d ?p] by (simp add: cmOk_def)
    ultimately show "connOk ?p c"
      by (auto simp: connOk_def UpdateCRValidity_def removeValidCRUnsafe_def Let_def)
  next
    fix k assume k: "fmlookup (roundRobin ?cm) k \<noteq> None"
    have rr: "roundRobin ?cm = (if removed > 0 \<and> \<not> hasAuthorizedConn cs ?cr
        then fmdrop (crCounterKey ?p ?cr) (roundRobin cm) else roundRobin cm)"
      using False rev pool by (simp add: RevalidateCR_def Let_def connsOf_def)
    have "hasAuthorizedConn cs cr" if "k = crCounterKey ?p cr" "hasAuthorizedConn (connsOf cm ?p) cr" for cr
      using that k rr revoked_counted[OF that(2), of X ?cr pool ?p] rev unfolding cs by (auto split: if_splits)
    with k rr show "fmlookup (roundRobin cm) k \<noteq> None \<and>
      (\<forall>cr. k = crCounterKey ?p cr \<longrightarrow> hasAuthorizedConn (connsOf cm ?p) cr \<longrightarrow> hasAuthorizedConn cs cr)"
      by (auto split: if_splits)
  qed
qed

lemma dropped_ok:
  assumes ok: "cmOk cm" and cm': "connections cm' = fmdrop p (connections cm)"
    and rr: "\<And>k. fmlookup (roundRobin cm') k \<noteq> None \<Longrightarrow>
      fmlookup (roundRobin cm) k \<noteq> None \<and> k \<noteq> p \<and> (\<forall>r. r \<noteq> [] \<longrightarrow> k \<noteq> crCounterKey p r)"
  shows "cmOk cm'"
proof -
  have conns: "connsOf cm' q = (if q = p then [] else connsOf cm q)" for q using cm' by (simp add: connsOf_def)
  have "countersOk cm'"
  proof (rule countersOk_subset)
    show "countersOk cm" using ok by (simp add: cmOk_def)
    fix k assume k: "fmlookup (roundRobin cm') k \<noteq> None"
    have "counterLive cm' k" if "counterLive cm k"
    proof -
      from that obtain q where q: "connsOf cm q \<noteq> []"
        "k = q \<or> (\<exists>cr. k = crCounterKey q cr \<and> hasAuthorizedConn (connsOf cm q) cr)" by (auto simp: counterLive_def)
      have "cr \<noteq> []" if "hasAuthorizedConn (connsOf cm q) cr" for cr
        using that ok planesOk_conn[of cm _ q] by (auto simp: hasAuthorizedConn_def cmOk_def connOk_def IsValidForCR_def)
      with rr[OF k] q have "q \<noteq> p" by auto
      with q show ?thesis
        using counterLive_plane[of cm' q] counterLive_cr[of cm' q] by (auto simp: conns)
    qed
    with rr[OF k] show "fmlookup (roundRobin cm) k \<noteq> None \<and> (counterLive cm k \<longrightarrow> counterLive cm' k)" by simp
  qed
  with drop_ok[OF ok cm'] show ?thesis by (simp add: cmOk_def)
qed

lemma dropPlane_keys:
  "fmlookup (roundRobin (dropPlane p cm)) k \<noteq> None \<Longrightarrow>
   fmlookup (roundRobin cm) k \<noteq> None \<and> k \<noteq> p \<and> (\<forall>r. r \<noteq> [] \<longrightarrow> k \<noteq> crCounterKey p r)"
  by (auto simp: dropPlane_def cleanup_keeps split: if_splits)

lemma dropPlane_connections [simp]: "connections (dropPlane p cm) = fmdrop p (connections cm)"
  by (simp add: dropPlane_def)

lemma dropPlane_ok:
  assumes "cmOk cm" "fmdrop p (connections cm1) = fmdrop p (connections cm)" "roundRobin cm1 = roundRobin cm"
  shows "cmOk (dropPlane p cm1)"
proof (rule dropped_ok[OF assms(1)])
  show "connections (dropPlane p cm1) = fmdrop p (connections cm)" using assms(2) by simp
  fix k assume "fmlookup (roundRobin (dropPlane p cm1)) k \<noteq> None"
  from dropPlane_keys[OF this] show
    "fmlookup (roundRobin cm) k \<noteq> None \<and> k \<noteq> p \<and> (\<forall>r. r \<noteq> [] \<longrightarrow> k \<noteq> crCounterKey p r)"
    unfolding assms(3) .
qed

lemma cmOk_notify [simp]: "cmOk (notify e cm) \<longleftrightarrow> cmOk cm"
  by (simp add: cmOk_def planesOk_def idsOk_def countersOk_def counterLive_def connsOf_def)

lemma foldl_close [simp]:
  "connections (foldl (\<lambda>c conn. notify (f conn) (closeConn conn c)) cm conns) = connections cm"
  "roundRobin (foldl (\<lambda>c conn. notify (f conn) (closeConn conn c)) cm conns) = roundRobin cm"
  by (induction conns arbitrary: cm) simp_all

lemma Disconnect_ok:
  assumes ok: "cmOk cm"
  shows "cmOk (fst (DisconnectAllForPlane cm planeType planeID))"
proof (cases "connsOf cm (planeIdentifierOf planeType planeID) = []")
  case True
  with ok show ?thesis by (simp add: DisconnectAllForPlane_def)
next
  case False
  let ?p = "planeIdentifierOf planeType planeID"
  let ?cm1 = "foldl (\<lambda>c conn. notify (AgentUnregistered ?p (acID conn)) (closeConn conn c)) cm (connsOf cm ?p)"
  have cm': "fst (DisconnectAllForPlane cm planeType planeID) = dropPlane ?p ?cm1"
    using False by (simp add: DisconnectAllForPlane_def Let_def)
  show ?thesis
    unfolding cm' by (rule dropPlane_ok[OF ok]) simp_all
qed

lemma Unregister_ok:
  assumes ok: "cmOk cm"
  shows "cmOk (Unregister cm p connID)"
proof (cases "\<exists>conns before conn after. fmlookup (connections cm) p = Some conns \<and> splitAtID connID conns = Some (before, conn, after)")
  case False
  with ok show ?thesis by (auto simp: Unregister_def split: option.splits)
next
  case True
  then obtain conns before conn after where at: "fmlookup (connections cm) p = Some conns"
    "splitAtID connID conns = Some (before, conn, after)" by blast
  let ?cs = "before @ after" and ?cm = "Unregister cm p connID"
  have old: "connsOf cm p = before @ conn # after"
    using at splitAtID_Some[OF at(2)] by (simp add: connsOf_def)
  define cm2 where "cm2 = closeConn conn cm\<lparr>connections := fmupd p ?cs (connections cm)\<rparr>"
  show ?thesis
  proof (cases "?cs = []")
    case True
    then have cm': "?cm = notify (AgentUnregistered p connID) (dropPlane p cm2)"
      using at by (simp add: Unregister_def cm2_def closeConn_def Let_def)
    show ?thesis
      unfolding cm' cmOk_notify by (rule dropPlane_ok[OF ok]) (simp_all add: cm2_def fmap_ext)
  next
    case False
    then have cm': "?cm = notify (AgentUnregistered p connID) (cleanupOrphanedCRKeys p (acValidCRs conn) cm2)"
      using at by (auto simp: Unregister_def cm2_def closeConn_def GetValidCRs_def Let_def)
    have conns2: "connsOf cm2 p = ?cs" by (simp add: connsOf_def cm2_def)
    have conns': "connections ?cm = fmupd p ?cs (connections cm)"
      unfolding cm' by (simp add: cleanupOrphaned cm2_def)
    have rr: "fmlookup (roundRobin ?cm) k \<noteq> None \<Longrightarrow> fmlookup (roundRobin cm) k \<noteq> None \<and>
        (\<forall>cr \<in> set (acValidCRs conn). k = crCounterKey p cr \<longrightarrow> hasAuthorizedConn ?cs cr)" for k
      unfolding cm' using conns2 by (auto simp: cleanupOrphaned cm2_def split: if_splits)
    show ?thesis
    proof (rule shrink_conns_ok[OF ok conns'])
      show "connsOf cm p \<noteq> []" "?cs \<noteq> []" using old False by simp_all
      show "distinct (map acID ?cs)" "acID ` set ?cs \<subseteq> acID ` set (connsOf cm p)"
        using ids_distinct[OF ok, of p] old by auto
      show "connOk p c" if "c \<in> set ?cs" for c
        using that conns_ok[OF ok, of c p] old by auto
      fix k assume k: "fmlookup (roundRobin ?cm) k \<noteq> None"
      have "hasAuthorizedConn ?cs cr" if "k = crCounterKey p cr" "hasAuthorizedConn (connsOf cm p) cr" for cr
        using rr[OF k] that unfolding old by (auto simp: hasAuthorizedConn_def IsValidForCR_def)
      with rr[OF k] show "fmlookup (roundRobin cm) k \<noteq> None \<and>
        (\<forall>cr. k = crCounterKey p cr \<longrightarrow> hasAuthorizedConn (connsOf cm p) cr \<longrightarrow> hasAuthorizedConn ?cs cr)" by blast
    qed
  qed
qed

subsection \<open>Reachable managers\<close>

inductive cmStep :: "x509 \<Rightarrow> ConnectionManager \<Rightarrow> ConnectionManager \<Rightarrow> bool" for X where
  listener: "cmStep X cm (SetListener cm)"
| register: "(\<And>p. connID \<notin> acID ` set (connsOf cm p)) \<Longrightarrow> CHR ''/'' \<notin> set planeType \<Longrightarrow> CHR ''/'' \<notin> set planeID \<Longrightarrow>
     [] \<notin> set validCRs \<Longrightarrow>
     cmStep X cm (fst (Register cm connID now planeType planeID validCRs cert ints))"
| unregister: "cmStep X cm (Unregister cm p connID)"
| get: "cmStep X cm (fst (Get cm p))"
| get_for_cr: "cmStep X cm (fst (GetForCR cm p cr))"
| seen: "cmStep X cm (UpdateConnectionLastSeen cm now p connID)"
| disconnect: "cmStep X cm (fst (DisconnectAllForPlane cm planeType planeID))"
| revalidate: "name \<noteq> [] \<Longrightarrow> cmStep X cm (fst (RevalidateCR X cm planeType planeID ns name ca))"

inductive cmReachable :: "x509 \<Rightarrow> ConnectionManager \<Rightarrow> bool" for X where
  new: "cmReachable X NewConnectionManager"
| step: "cmReachable X cm \<Longrightarrow> cmStep X cm cm' \<Longrightarrow> cmReachable X cm'"

lemma New_ok: "cmOk NewConnectionManager"
  by (simp add: cmOk_def planesOk_def idsOk_def countersOk_def NewConnectionManager_def connsOf_def)

lemma SetListener_ok: "cmOk cm \<Longrightarrow> cmOk (SetListener cm)"
  by (simp add: cmOk_def planesOk_def idsOk_def countersOk_def counterLive_def SetListener_def connsOf_def)

lemmas step_ok = SetListener_ok Register_ok Unregister_ok Get_ok GetForCR_ok LastSeen_ok Disconnect_ok RevalidateCR_ok

lemma step_preserves: "cmStep X cm cm' \<Longrightarrow> cmOk cm \<Longrightarrow> cmOk cm'"
  by (cases rule: cmStep.cases) (auto intro: step_ok)

lemma reachable_ok: "cmReachable X cm \<Longrightarrow> cmOk cm"
  by (induction rule: cmReachable.induct) (auto intro: New_ok step_preserves)

subsection \<open>Properties\<close>

text \<open>C13: In every state the gateway's connection manager can reach, the connections of a plane carry its
  identifier, connection identifiers are unique across planes, and every round-robin counter belongs
  to a plane that has connections or to a CR that one of its connections may serve. With the last
  connection the last counter is gone: counters do not leak.\<close>

theorem connection_manager_invariant:
  assumes "cmReachable X cm"
  shows "cmOk cm \<and> ((\<forall>p. connsOf cm p = []) \<longrightarrow> roundRobin cm = fmempty)"
proof -
  have ok: "cmOk cm" by (rule reachable_ok[OF assms])
  moreover have "roundRobin cm = fmempty" if "\<forall>p. connsOf cm p = []"
  proof (rule fmap_ext)
    fix k show "fmlookup (roundRobin cm) k = fmlookup fmempty k"
      using ok that by (cases "fmlookup (roundRobin cm) k") (auto simp: cmOk_def countersOk_def counterLive_def)
  qed
  ultimately show ?thesis by blast
qed

definition exampleX509 :: x509 where
  "exampleX509 = \<lparr>parsePool = Some, verifyCert = (\<lambda>pool ints cert. if cert = pool then None else Some ''unknown authority'')\<rparr>"

definition exampleManager :: ConnectionManager where
  "exampleManager =
     fst (Register (fst (Register NewConnectionManager ''c1'' 5 ''dataplane'' ''p'' [''ns/a''] ''old'' None))
       ''c2'' 6 ''dataplane'' ''p'' [''ns/a''] ''new'' None)"

lemma exampleManager_reachable: "cmReachable exampleX509 exampleManager"
proof -
  let ?cm = "fst (Register NewConnectionManager ''c1'' 5 ''dataplane'' ''p'' [''ns/a''] ''old'' None)"
  have "cmReachable exampleX509 ?cm"
    by (rule cmReachable.step[OF cmReachable.new cmStep.register]) (simp_all add: NewConnectionManager_def connsOf_def)
  then show ?thesis
    unfolding exampleManager_def
    by (rule cmReachable.step[OF _ cmStep.register])
      (simp_all add: Register_def notify_def NewConnectionManager_def connsOf_def Let_def)
qed

theorem connection_manager_invariant_witness: "cmOk exampleManager \<and> length (connsOf exampleManager ''dataplane/p'') = 2"
proof
  show "cmOk exampleManager" using connection_manager_invariant[OF exampleManager_reachable] by blast
  show "length (connsOf exampleManager ''dataplane/p'') = 2" by code_simp
qed

text \<open>C14: After a CR was re-validated against a new certificate authority, requests for the CR are only sent over
  connections of its plane whose client certificate the new authority verifies, and they are refused
  only if there is no such connection.\<close>

theorem revalidated_routing:
  assumes rev: "RevalidateCR X cm planeType planeID ns name ca = (cm', Inr counts)"
    and pool: "parsePool X ca = Some pool" and p: "p = planeIdentifierOf planeType planeID"
  shows "case snd (GetForCR cm' p (ns @ ''/'' @ name)) of
      Inr c \<Rightarrow> c \<in> set (connsOf cm' p) \<and> verifyCert X pool (acIntermediates c) (acClientCert c) = None
    | Inl _ \<Rightarrow> (\<forall>c \<in> set (connsOf cm p). verifyCert X pool (acIntermediates c) (acClientCert c) \<noteq> None)"
proof -
  let ?cr = "ns @ ''/'' @ name"
  have conns': "connsOf cm' p = map (\<lambda>c. fst (UpdateCRValidity X c ?cr pool)) (connsOf cm p)"
    using RevalidateCR_conns[OF rev pool, of p] p by simp
  have auth: "authorizedConns p ?cr cm' =
      filter (\<lambda>c. verifyCert X pool (acIntermediates c) (acClientCert c) = None) (connsOf cm' p)"
    unfolding authorizedConns_def conns' by (intro filter_cong) (auto simp: UpdateCRValidity_valid)
  show ?thesis
  proof (cases "authorizedConns p ?cr cm' = []")
    case True
    then have "snd (GetForCR cm' p ?cr) = Inl (if connsOf cm' p = [] then NoAgents p else NoAuthorizedAgents ?cr)"
      by (simp add: GetForCR_def authorizedConns_def Let_def)
    moreover have "\<forall>c \<in> set (connsOf cm p). verifyCert X pool (acIntermediates c) (acClientCert c) \<noteq> None"
      using True unfolding auth conns' by (simp add: filter_empty_conv)
    ultimately show ?thesis by simp
  next
    case False
    let ?i = "counterOf cm' (crCounterKey p ?cr) mod length (authorizedConns p ?cr cm')"
    define c where "c = authorizedConns p ?cr cm' ! ?i"
    have "c \<in> set (authorizedConns p ?cr cm')"
      unfolding c_def using False by (intro nth_mem) simp
    then have "c \<in> set (connsOf cm' p) \<and> verifyCert X pool (acIntermediates c) (acClientCert c) = None"
      unfolding auth by simp
    with cr_rr.pick_result[OF False] show ?thesis by (simp add: c_def)
  qed
qed

theorem revalidated_routing_witness:
  "case RevalidateCR exampleX509 exampleManager ''dataplane'' ''p'' ''ns'' ''a'' ''new'' of
     (cm', Inr counts) \<Rightarrow>
       (case snd (GetForCR cm' ''dataplane/p'' ''ns/a'') of Inr c \<Rightarrow> acClientCert c = ''new'' | Inl _ \<Rightarrow> False)
   | (cm', Inl _) \<Rightarrow> False"
proof -
  have pool: "parsePool exampleX509 ''new'' = Some ''new''" by (simp add: exampleX509_def)
  obtain cm' counts where rev: "RevalidateCR exampleX509 exampleManager ''dataplane'' ''p'' ''ns'' ''a'' ''new'' = (cm', Inr counts)"
    using RevalidateCR_total[OF pool] by blast
  have "list_ex (\<lambda>c. acClientCert c = ''new'') (connsOf exampleManager (planeIdentifierOf ''dataplane'' ''p''))"
    by code_simp
  then obtain c where "c \<in> set (connsOf exampleManager (planeIdentifierOf ''dataplane'' ''p''))" "acClientCert c = ''new''"
    by (auto simp: list_ex_iff)
  with revalidated_routing[OF rev pool refl] show ?thesis
    unfolding rev by (auto simp: exampleX509_def planeIdentifierOf_def split: sum.splits if_splits)
qed

text \<open>C25: Requests for a CR rotate: as many requests in a row as there are connections authorised for it are sent
  over each of them once, in the order of registration from the current position on.\<close>

theorem cr_requests_rotate:
  assumes "authorizedConns p cr cm \<noteq> []"
  shows "snd (runPicks (\<lambda>cm. GetForCR cm p cr) (length (authorizedConns p cr cm)) cm) =
    map Inr (rotate (counterOf cm (crCounterKey p cr)) (authorizedConns p cr cm))"
  using assms by (rule cr_rr.full_round)

theorem cr_requests_rotate_witness:
  "map (map_sum id acID) (snd (runPicks (\<lambda>cm. GetForCR cm ''dataplane/p'' ''ns/a'') 2 exampleManager)) =
     [Inr ''c1'', Inr ''c2'']"
proof -
  have "map acID (authorizedConns ''dataplane/p'' ''ns/a'' exampleManager) = [''c1'', ''c2'']"
    "counterOf exampleManager (crCounterKey ''dataplane/p'' ''ns/a'') = 0"
    by code_simp+
  moreover from this(1) have "authorizedConns ''dataplane/p'' ''ns/a'' exampleManager \<noteq> []"
    "length (authorizedConns ''dataplane/p'' ''ns/a'' exampleManager) = 2"
    by (auto dest: arg_cong[of _ _ length])
  ultimately show ?thesis
    using cr_requests_rotate[of "''dataplane/p''" "''ns/a''" exampleManager] by (auto simp: map_eq_Cons_conv)
qed

end
