(* ===== verification/Fabric_Facts.thy ===== *)
theory Fabric_Facts
  imports Fabric
begin

text \<open>
  Correctness of the mesh: what a replica knows of another is always one of the other's past states,
  frames that arrive in the order they were made bring it up to date, a refused change leads to a
  repair, and the one order of delivery that silently loses a change.
\<close>

subsection \<open>Entries by identifier\<close>

definition keyedEntries :: "(string, AgentEntry) fmap \<Rightarrow> bool" where
  "keyedEntries es \<longleftrightarrow> (\<forall>c e. fmlookup es c = Some e \<longrightarrow> aeConnID e = c)"

lemma keyed_empty [simp]: "keyedEntries fmempty"
  by (simp add: keyedEntries_def)

lemma keyed_applyOp: "keyedEntries es \<Longrightarrow> keyedEntries (applyOp d es)"
  by (auto simp: keyedEntries_def applyOp_def split: if_splits)

lemma entriesMap_lookup:
  "fmlookup (entriesMap es) c = find (\<lambda>e. aeConnID e = c) (rev es)"
proof -
  have "fmlookup (foldl (\<lambda>m e. fmupd (aeConnID e) e m) m es) c =
      (case find (\<lambda>e. aeConnID e = c) (rev es) of None \<Rightarrow> fmlookup m c | Some e \<Rightarrow> Some e)" for m
    by (induction es rule: rev_induct) auto
  then show ?thesis by (simp add: entriesMap_def option.case_eq_if)
qed

lemma find_unique:
  assumes "\<And>x. x \<in> set xs \<and> P x \<longleftrightarrow> Some x = r"
  shows "find P xs = r"
  using assms by (cases r; cases "find P xs")
    (auto simp: find_None_iff dest!: find_Some_iff[THEN iffD1], (metis nth_mem)+)

lemma snapshot_entries:
  assumes "keyedEntries es"
  shows "entriesMap (map snd (sorted_list_of_fmap es)) = es"
proof (rule fmap_ext)
  fix c
  show "fmlookup (entriesMap (map snd (sorted_list_of_fmap es))) c = fmlookup es c"
    unfolding entriesMap_lookup
  proof (rule find_unique)
    fix e
    show "e \<in> set (rev (map snd (sorted_list_of_fmap es))) \<and> aeConnID e = c \<longleftrightarrow> Some e = fmlookup es c"
      unfolding set_rev values_mem using assms unfolding keyedEntries_def by metis
  qed
qed

lemma keyed_ops:
  "keyedEntries es \<Longrightarrow> keyedEntries (fmupd (aeConnID e) e es)"
  "keyedEntries es \<Longrightarrow> keyedEntries (fmdrop c es)"
  by (auto simp: keyedEntries_def)

subsection \<open>Frames of a mesh operation\<close>

lemmas mesh_ops = LocalUpsert_def LocalRemove_def Drain_def BroadcastPlaneEvent_def enqueueLocked_def SelfID_def
  deltaFrame_def bareFrame_def snapshotFrame_def Let_def

lemma frame_distinct [simp]:
  "frameDelta \<noteq> frameSnapshotReq" "frameDelta \<noteq> frameSnapshotRsp" "frameDelta \<noteq> frameDraining"
  "frameDelta \<noteq> framePlaneEvent" "frameDelta \<noteq> frameHello" "frameSnapshotRsp \<noteq> frameDraining"
  "frameSnapshotRsp \<noteq> framePlaneEvent" "frameSnapshotReq \<noteq> frameSnapshotRsp"
  "frameSnapshotRsp \<noteq> frameHello" "frameDelta \<noteq> frameForwardReq" "frameSnapshotRsp \<noteq> frameForwardReq"
  "frameSnapshotReq \<noteq> frameDelta" "frameSnapshotRsp \<noteq> frameDelta" "frameDraining \<noteq> frameDelta"
  "framePlaneEvent \<noteq> frameDelta" "frameHello \<noteq> frameDelta" "frameSnapshotRsp \<noteq> frameSnapshotReq"
  by (simp_all add: frame_types)

subsection \<open>A network of replicas\<close>

text \<open>
  The replicas, the frames on their way (sender, receiver, frame), and for each replica the list of
  the states its own connections went through. Frames between two replicas travel on two sockets
  with several writers each, so they may arrive in any order; they may also be lost with a link.
\<close>

record net =
  pods :: "string \<Rightarrow> Mesh"
  versions :: "string \<Rightarrow> (string, AgentEntry) fmap list"
  wire :: "(string \<times> string \<times> meshFrame) list"

definition initialNet :: "(string \<Rightarrow> string) \<Rightarrow> net" where
  "initialNet addr = \<lparr>pods = (\<lambda>p. NewMesh \<lparr>peerID = p, peerAddr = addr p\<rparr> NewRegistry), versions = (\<lambda>_. [fmempty]), wire = []\<rparr>"

definition setPod :: "string \<Rightarrow> Mesh \<Rightarrow> net \<Rightarrow> net" where
  "setPod p m n = n\<lparr>pods := (pods n)(p := m)\<rparr>"

definition logChange :: "string \<Rightarrow> Mesh \<Rightarrow> net \<Rightarrow> net" where
  "logChange p m n = (setPod p m n)\<lparr>versions := (versions n)(p := versions n p @ [mLocalEntries m])\<rparr>"

definition sendAll :: "string \<Rightarrow> string \<Rightarrow> meshFrame list \<Rightarrow> net \<Rightarrow> net" where
  "sendAll p q fs n = n\<lparr>wire := wire n @ map (\<lambda>f. (p, q, f)) fs\<rparr>"

definition repliesOf :: "meshEffect list \<Rightarrow> meshFrame list" where
  "repliesOf effs = concat (map (\<lambda>eff. case eff of SendFrame f \<Rightarrow> [f] | _ \<Rightarrow> []) effs)"

inductive meshStep :: "net \<Rightarrow> net \<Rightarrow> bool" where
  upsert: "mLocalSeq (pods n p) \<noteq> -1 \<Longrightarrow> meshStep n (logChange p (LocalUpsert (pods n p) e) n)"
| removed: "fmlookup (mLocalEntries (pods n p)) c \<noteq> None \<Longrightarrow> mLocalSeq (pods n p) \<noteq> -1 \<Longrightarrow>
    meshStep n (logChange p (LocalRemove (pods n p) plane c) n)"
| drain: "meshStep n (setPod p (Drain (pods n p)) n)"
| planeEvent: "meshStep n (setPod p (BroadcastPlaneEvent (pods n p) ev) n)"
| broadcast: "runBroadcaster (pods n p) = Some (m, f, targets) \<Longrightarrow>
    meshStep n ((setPod p m n)\<lparr>wire := wire n @ map (\<lambda>q. (p, q, f)) targets\<rparr>)"
| linkUp: "meshStep n (sendAll p q (linkBootstrap (pods n p)) (setPod p (setLinkUp True (pods n p) q) n))"
| linkDown: "meshStep n (setPod p (linkLost (pods n p) q) n)"
| peers: "meshStep n (setPod p (reconcilePeers (pods n p) ps) n)"
| deliver: "wire n = before @ (p, q, f) # after \<Longrightarrow> handleFrame (pods n q) p f = (m, effs) \<Longrightarrow>
    meshStep n (sendAll q p (repliesOf effs) ((setPod q m n)\<lparr>wire := before @ after\<rparr>))"
| lose: "wire n = before @ x # after \<Longrightarrow> meshStep n (n\<lparr>wire := before @ after\<rparr>)"
| forward: "Forward (pods n p) fresh q sendErr req = (m, res) \<Longrightarrow>
    meshStep n (sendAll p q (case res of Inl _ \<Rightarrow> [] | Inr (_, _, f) \<Rightarrow> [f]) (setPod p m n))"
| respond: "meshStep n (sendAll p q [(bareFrame frameForwardRsp)\<lparr>fForwardRsp := Some rsp\<rparr>] n)"
| receive: "forwardReceive (pods n p) q ch = Some (m, res) \<Longrightarrow> meshStep n (setPod p m n)"
| cancelled: "forwardCancelled (pods n p) q corrID = (m, res) \<Longrightarrow> meshStep n (setPod p m n)"

inductive meshReachable :: "net \<Rightarrow> bool" where
  initial: "meshReachable (initialNet addr)"
| step: "meshReachable n \<Longrightarrow> meshStep n n' \<Longrightarrow> meshReachable n'"

subsection \<open>Views are past states\<close>

definition versionAt :: "'a list \<Rightarrow> 64 word \<Rightarrow> 'a \<Rightarrow> bool" where
  "versionAt log seq es \<longleftrightarrow> unat seq < length log \<and> log ! unat seq = es"

definition deltaOk :: "(string, AgentEntry) fmap list \<Rightarrow> Delta \<Rightarrow> bool" where
  "deltaOk log d \<longleftrightarrow> dSeq d \<noteq> 0 \<and> (\<exists>es. versionAt log (dSeq d - 1) es \<and> versionAt log (dSeq d) (applyOp d es))"

definition frameOk :: "(string, AgentEntry) fmap list \<Rightarrow> meshFrame \<Rightarrow> bool" where
  "frameOk log f \<longleftrightarrow>
     (\<forall>d. fType f = frameDelta \<and> fDelta f = Some d \<longrightarrow> deltaOk log d) \<and>
     (\<forall>s. fType f = frameSnapshotRsp \<and> fSnapshot f = Some s \<longrightarrow> versionAt log (sSeq s) (entriesMap (sEntries s)))"

definition ownerOk :: "string \<Rightarrow> (string, AgentEntry) fmap list \<Rightarrow> Mesh \<Rightarrow> bool" where
  "ownerOk p log m \<longleftrightarrow>
     SelfID m = p \<and> keyedEntries (mLocalEntries m) \<and> log \<noteq> [] \<and> hd log = fmempty \<and>
     last log = mLocalEntries m \<and> unat (mLocalSeq m) = length log - 1 \<and> (\<forall>f \<in> set (mOutbox m). frameOk log f)"

definition viewOk :: "(string \<Rightarrow> (string, AgentEntry) fmap list) \<Rightarrow> Registry \<Rightarrow> bool" where
  "viewOk logs r \<longleftrightarrow> (\<forall>p st. fmlookup (owners r) p = Some st \<longrightarrow> versionAt (logs p) (osSeq st) (osEntries st))"

definition netOk :: "net \<Rightarrow> bool" where
  "netOk n \<longleftrightarrow>
     (\<forall>p. ownerOk p (versions n p) (pods n p) \<and> viewOk (versions n) (mRegistry (pods n p))) \<and>
     (\<forall>(p, q, f) \<in> set (wire n). frameOk (versions n p) f)"

lemma versionAt_snoc: "versionAt log s es \<Longrightarrow> versionAt (log @ [x]) s es"
  by (auto simp: versionAt_def nth_append)

lemma frameOk_snoc: "frameOk log f \<Longrightarrow> frameOk (log @ [x]) f"
  unfolding frameOk_def deltaOk_def by (meson versionAt_snoc)

lemma viewOk_snoc: "viewOk logs r \<Longrightarrow> viewOk (logs(p := logs p @ [x])) r"
  unfolding viewOk_def by (auto intro: versionAt_snoc)

lemma viewOk_update:
  "viewOk logs r \<Longrightarrow> versionAt (logs p) (osSeq st) (osEntries st) \<Longrightarrow> viewOk logs (r\<lparr>owners := fmupd p st (owners r)\<rparr>)"
  by (auto simp: viewOk_def)

lemma ownerOk_first: "ownerOk p log m \<Longrightarrow> versionAt log 0 fmempty"
  by (cases log) (auto simp: ownerOk_def versionAt_def)

lemma ownerOk_current: "ownerOk p log m \<Longrightarrow> versionAt log (mLocalSeq m) (mLocalEntries m)"
  by (auto simp: ownerOk_def versionAt_def last_conv_nth)

lemma ApplyDelta_view:
  assumes "viewOk logs r" and "deltaOk (logs (dOwner d)) d" and "versionAt (logs (dOwner d)) 0 fmempty"
  shows "viewOk logs (fst (ApplyDelta r d))"
proof -
  have step: "versionAt (logs (dOwner d)) s es \<Longrightarrow> dSeq d = s + 1 \<Longrightarrow> versionAt (logs (dOwner d)) (dSeq d) (applyOp d es)" for s es
    using assms(2) by (auto simp: deltaOk_def versionAt_def)
  show ?thesis
  proof (cases "fmlookup (owners r) (dOwner d)")
    case None
    with assms(1,3) step[of 0 fmempty] show ?thesis
      by (auto simp: ApplyDelta_def emptyOwner_def intro: viewOk_update)
  next
    case (Some st)
    with assms(1) have "versionAt (logs (dOwner d)) (osSeq st) (osEntries st)"
      by (simp add: viewOk_def)
    with Some assms(1) step[of "osSeq st" "osEntries st"] show ?thesis
      by (auto simp: ApplyDelta_def intro: viewOk_update)
  qed
qed

lemma ApplySnapshot_view:
  "viewOk logs r \<Longrightarrow> versionAt (logs (sOwner s)) (sSeq s) (entriesMap (sEntries s)) \<Longrightarrow> viewOk logs (ApplySnapshot r s)"
  by (simp add: ApplySnapshot_def Let_def viewOk_update)

lemma SetDraining_view: "viewOk logs r \<Longrightarrow> versionAt (logs p) 0 fmempty \<Longrightarrow> viewOk logs (SetDraining r p)"
  by (auto simp: SetDraining_def Let_def viewOk_def emptyOwner_def split: option.splits)

lemma PurgeOwner_view: "viewOk logs r \<Longrightarrow> viewOk logs (PurgeOwner r p)"
  by (simp add: PurgeOwner_def viewOk_def)

lemma Purge_view: "viewOk logs r \<Longrightarrow> viewOk logs (foldl PurgeOwner r ps)"
  by (induction ps arbitrary: r) (simp_all add: PurgeOwner_view)

lemma logChange_ok:
  assumes n: "netOk n" and own: "ownerOk p (versions n p @ [mLocalEntries m]) m"
    and same: "mRegistry m = mRegistry (pods n p)"
  shows "netOk (logChange p m n)"
proof -
  have "viewOk ((versions n)(p := versions n p @ [x])) (mRegistry (pods n q))" for q x
    using n by (intro viewOk_snoc) (simp add: netOk_def)
  moreover have "frameOk (((versions n)(p := versions n p @ [x])) q) f" if "(q, q', f) \<in> set (wire n)" for q q' f x
    using n that by (auto simp: netOk_def intro: frameOk_snoc)
  ultimately show ?thesis
    using n own same by (auto simp: netOk_def logChange_def setPod_def)
qed

lemma setPod_ok:
  assumes n: "netOk n" and m: "ownerOk p (versions n p) m" "viewOk (versions n) (mRegistry m)"
    and fs: "\<And>q q' f. (q, q', f) \<in> set w \<Longrightarrow> frameOk (versions n q) f"
  shows "netOk ((setPod p m n)\<lparr>wire := w\<rparr>)"
  using n m fs by (auto simp: netOk_def setPod_def)

lemma enqueue_ownerOk:
  "ownerOk p log m \<Longrightarrow> frameOk log f \<Longrightarrow> ownerOk p log (enqueueLocked m f)"
  by (auto simp: ownerOk_def enqueueLocked_def SelfID_def)

lemma seq_step:
  assumes "ownerOk p log m" and "mLocalSeq m \<noteq> -1"
  shows "unat (mLocalSeq m + 1) = length log"
proof -
  have "1 + mLocalSeq m \<noteq> 0"
    using assms(2) by (simp add: add_eq_0_iff)
  with assms(1) show ?thesis
    by (auto simp: ownerOk_def unatSuc add.commute)
qed

lemma changed_ownerOk:
  assumes own: "ownerOk p log m" and room: "mLocalSeq m \<noteq> -1"
    and d: "d = \<lparr>dOp = oper, dOwner = p, dSeq = mLocalSeq m + 1, dEntry = e\<rparr>"
    and keyed: "keyedEntries (applyOp d (mLocalEntries m))"
    and m': "m' = m\<lparr>mLocalSeq := mLocalSeq m + 1, mLocalEntries := applyOp d (mLocalEntries m)\<rparr>"
  shows "ownerOk p (log @ [mLocalEntries m']) (enqueueLocked m' (deltaFrame d))"
proof (rule enqueue_ownerOk)
  note len = seq_step[OF own room]
  show "ownerOk p (log @ [mLocalEntries m']) m'"
    using own len keyed by (auto simp: ownerOk_def m' SelfID_def intro: frameOk_snoc)
  have "versionAt (log @ [mLocalEntries m']) (mLocalSeq m + 1) (applyOp d (mLocalEntries m))"
    using len by (simp add: versionAt_def m')
  moreover have "versionAt (log @ [mLocalEntries m']) (mLocalSeq m) (mLocalEntries m)"
    by (intro versionAt_snoc ownerOk_current[OF own])
  moreover have "mLocalSeq m + 1 \<noteq> 0"
    using room by (metis add.commute add_eq_0_iff)
  ultimately show "frameOk (log @ [mLocalEntries m']) (deltaFrame d)"
    by (auto simp: frameOk_def deltaFrame_def bareFrame_def deltaOk_def d)
qed

lemma LocalUpsert_ownerOk:
  assumes "ownerOk p log m" and "mLocalSeq m \<noteq> -1"
  shows "ownerOk p (log @ [mLocalEntries (LocalUpsert m e)]) (LocalUpsert m e)"
proof -
  let ?d = "\<lparr>dOp = DeltaOpAdd, dOwner = p, dSeq = mLocalSeq m + 1, dEntry = e\<rparr>"
  let ?m = "m\<lparr>mLocalSeq := mLocalSeq m + 1, mLocalEntries := applyOp ?d (mLocalEntries m)\<rparr>"
  have "LocalUpsert m e = enqueueLocked ?m (deltaFrame ?d)" "mLocalEntries (LocalUpsert m e) = mLocalEntries ?m"
    using assms(1) by (auto simp: LocalUpsert_def Let_def applyOp_def ownerOk_def enqueueLocked_def)
  moreover have "keyedEntries (mLocalEntries m)" using assms(1) by (simp add: ownerOk_def)
  ultimately show ?thesis
    using changed_ownerOk[OF assms refl keyed_applyOp refl] by simp
qed

lemma LocalRemove_ownerOk:
  assumes "ownerOk p log m" and "mLocalSeq m \<noteq> -1" and "fmlookup (mLocalEntries m) c \<noteq> None"
  shows "ownerOk p (log @ [mLocalEntries (LocalRemove m plane c)]) (LocalRemove m plane c)"
proof -
  let ?e = "\<lparr>aePlaneIdentifier = plane, aeConnID = c, aeValidCRs = []\<rparr>"
  let ?d = "\<lparr>dOp = DeltaOpRemove, dOwner = p, dSeq = mLocalSeq m + 1, dEntry = ?e\<rparr>"
  let ?m = "m\<lparr>mLocalSeq := mLocalSeq m + 1, mLocalEntries := applyOp ?d (mLocalEntries m)\<rparr>"
  have "LocalRemove m plane c = enqueueLocked ?m (deltaFrame ?d)" "mLocalEntries (LocalRemove m plane c) = mLocalEntries ?m"
    using assms(1,3)
    by (auto simp: LocalRemove_def Let_def applyOp_def DeltaOpAdd_def DeltaOpRemove_def ownerOk_def enqueueLocked_def)
  moreover have "keyedEntries (mLocalEntries m)" using assms(1) by (simp add: ownerOk_def)
  ultimately show ?thesis
    using changed_ownerOk[OF assms(1,2) refl keyed_applyOp refl] by simp
qed

lemma same_registry [simp]:
  "mRegistry (LocalUpsert m e) = mRegistry m" "mRegistry (LocalRemove m plane c) = mRegistry m"
  "mRegistry (enqueueLocked m f) = mRegistry m"
  by (simp_all add: LocalUpsert_def LocalRemove_def enqueueLocked_def Let_def)

lemma localSnapshot_frameOk:
  assumes "ownerOk p log m"
  shows "frameOk log (snapshotFrame (localSnapshot m))"
proof -
  have "keyedEntries (mLocalEntries m)" using assms by (simp add: ownerOk_def)
  with ownerOk_current[OF assms] show ?thesis
    by (simp add: frameOk_def snapshotFrame_def bareFrame_def localSnapshot_def snapshot_entries)
qed

lemma bare_frameOk [simp]:
  "typ \<noteq> frameDelta \<Longrightarrow> typ \<noteq> frameSnapshotRsp \<Longrightarrow> fType f = typ \<Longrightarrow> frameOk log f"
  by (simp add: frameOk_def)

lemma bareFrame_ok [simp]:
  "frameOk log (bareFrame typ)" "frameOk log ((bareFrame typ)\<lparr>fPodID := x\<rparr>)"
  "frameOk log ((bareFrame typ)\<lparr>fForwardReq := y\<rparr>)" "frameOk log ((bareFrame typ)\<lparr>fForwardRsp := z\<rparr>)"
  "frameOk log ((bareFrame typ)\<lparr>fPlaneEvent := w\<rparr>)"
  by (simp_all add: frameOk_def bareFrame_def)

lemma bootstrap_frameOk: "ownerOk p log m \<Longrightarrow> f \<in> set (linkBootstrap m) \<Longrightarrow> frameOk log f"
  by (auto simp: linkBootstrap_def localSnapshot_frameOk)

text \<open>Operations that keep what the replica owns.\<close>

definition sameOwner :: "Mesh \<Rightarrow> Mesh \<Rightarrow> bool" where
  "sameOwner m m' \<longleftrightarrow> mSelf m' = mSelf m \<and> mLocalSeq m' = mLocalSeq m \<and> mLocalEntries m' = mLocalEntries m \<and>
     set (mOutbox m') \<subseteq> set (mOutbox m)"

lemma sameOwner_ok: "sameOwner m m' \<Longrightarrow> ownerOk p log m \<Longrightarrow> ownerOk p log m'"
  by (auto simp: sameOwner_def ownerOk_def SelfID_def)

lemma sameOwner_trySend: "sameOwner m m' \<Longrightarrow> sameOwner m (trySend v ch m')"
  by (auto simp: sameOwner_def trySend_def split: option.splits list.splits)

lemma registry_trySend [simp]: "mRegistry (trySend v ch m) = mRegistry m"
  by (auto simp: trySend_def split: option.splits list.splits)

lemma foldl_trySend:
  "mRegistry (foldl (\<lambda>acc pf. trySend v (pfCh pf) acc) m pfs) = mRegistry m"
  "sameOwner m' m \<Longrightarrow> sameOwner m' (foldl (\<lambda>acc pf. trySend v (pfCh pf) acc) m pfs)"
  by (induction pfs arbitrary: m) (simp_all add: sameOwner_trySend)

lemma quiet_ops:
  "sameOwner m (setLinkUp up m q)" "mRegistry (setLinkUp up m q) = mRegistry m"
  "sameOwner m (linkLost m q)" "mRegistry (linkLost m q) = mRegistry m"
  "sameOwner m (reconcilePeers m ps)"
  "Forward m fresh q sendErr req = (m', res) \<Longrightarrow> sameOwner m m' \<and> mRegistry m' = mRegistry m"
  "forwardReceive m q ch = Some (m', res') \<Longrightarrow> sameOwner m m' \<and> mRegistry m' = mRegistry m"
  "forwardCancelled m q corrID = (m', res') \<Longrightarrow> sameOwner m m' \<and> mRegistry m' = mRegistry m"
  "handleForwardRsp m rsp = (m', effs) \<Longrightarrow> sameOwner m m' \<and> mRegistry m' = mRegistry m \<and> repliesOf effs = []"
  by (auto simp: setLinkUp_def linkLost_def failPendingForPeer_def reconcilePeers_def Forward_def forwardReceive_def
      forwardCancelled_def handleForwardRsp_def repliesOf_def foldl_trySend Let_def sameOwner_def
      split: option.splits list.splits if_splits intro!: foldl_trySend(2)[unfolded sameOwner_def])

lemma handleFrame_ok:
  assumes frame: "frameOk (logs p) f" and first: "versionAt (logs p) 0 fmempty"
    and own: "ownerOk q (logs q) m" and view: "viewOk logs (mRegistry m)"
    and handled: "handleFrame m p f = (m', effs)"
  shows "sameOwner m m' \<and> viewOk logs (mRegistry m') \<and> (\<forall>g \<in> set (repliesOf effs). frameOk (logs q) g)"
proof -
  consider (delta) "fType f = frameDelta" | (request) "fType f = frameSnapshotReq" | (snapshot) "fType f = frameSnapshotRsp"
    | (response) "fType f = frameForwardRsp" | (draining) "fType f = frameDraining"
    | (other) "fType f \<notin> {frameDelta, frameSnapshotReq, frameSnapshotRsp, frameForwardRsp, frameDraining}"
    by auto
  then show ?thesis
  proof cases
    case delta
    have "viewOk logs (fst (ApplyDelta (mRegistry m) d))" if "fDelta f = Some d" "dOwner d = p" for d
      using that frame delta first view by (intro ApplyDelta_view) (auto simp: frameOk_def)
    with delta handled view show ?thesis
      by (auto simp: handleFrame_def sameOwner_def repliesOf_def split: option.splits if_splits prod.splits bool.splits)
  next
    case snapshot
    have "viewOk logs (ApplySnapshot (mRegistry m) s)" if "fSnapshot f = Some s" "sOwner s = p" for s
      using that frame snapshot view by (intro ApplySnapshot_view) (auto simp: frameOk_def)
    with snapshot handled view show ?thesis
      by (auto simp: handleFrame_def sameOwner_def repliesOf_def split: option.splits if_splits)
  next
    case request
    with handled view localSnapshot_frameOk[OF own] show ?thesis
      by (auto simp: handleFrame_def sameOwner_def repliesOf_def)
  next
    case response
    with handled have "handleForwardRsp m rsp = (m', effs)" if "fForwardRsp f = Some rsp" for rsp
      using that by (simp add: handleFrame_def frame_types)
    moreover have "m' = m \<and> effs = []" if "fForwardRsp f = None"
      using that response handled by (simp add: handleFrame_def frame_types)
    ultimately show ?thesis
      using view quiet_ops(9)[of m _ m' effs]
      by (cases "fForwardRsp f") (simp_all add: sameOwner_def repliesOf_def)
  next
    case draining
    with handled view first show ?thesis
      by (auto simp: handleFrame_def frame_types sameOwner_def repliesOf_def SetDraining_view split: if_splits)
  next
    case other
    with handled view show ?thesis
      by (auto simp: handleFrame_def sameOwner_def repliesOf_def split: option.splits if_splits)
  qed
qed

lemma sendAll_ok:
  assumes "netOk n" and "\<And>f. f \<in> set fs \<Longrightarrow> frameOk (versions n p) f"
  shows "netOk (sendAll p q fs n)"
  using assms by (auto simp: netOk_def sendAll_def)

lemma wire_ok: "netOk n \<Longrightarrow> (p, q, f) \<in> set (wire n) \<Longrightarrow> frameOk (versions n p) f"
  by (auto simp: netOk_def)

lemma pod_ok: "netOk n \<Longrightarrow> ownerOk p (versions n p) (pods n p) \<and> viewOk (versions n) (mRegistry (pods n p))"
  by (simp add: netOk_def)

lemma keep_wire_ok:
  assumes "netOk n" and "sameOwner (pods n p) m" and "viewOk (versions n) (mRegistry m)"
  shows "netOk (setPod p m n)"
  using assms by (auto simp: netOk_def setPod_def sameOwner_ok)

lemma versions_frame [simp]:
  "versions (setPod p m n) = versions n" "versions (sendAll p q fs n) = versions n" "pods (setPod p m n) p = m"
  by (simp_all add: setPod_def sendAll_def)

lemma enqueued_pod_ok: "netOk n \<Longrightarrow> frameOk (versions n p) f \<Longrightarrow> netOk (setPod p (enqueueLocked (pods n p) f) n)"
  using pod_ok[of n p] by (auto simp: netOk_def setPod_def enqueue_ownerOk)

lemma deliver_ok:
  assumes n: "netOk n" and w: "wire n = before @ (p, q, f) # after" and h: "handleFrame (pods n q) p f = (m, effs)"
  shows "netOk (sendAll q p (repliesOf effs) ((setPod q m n)\<lparr>wire := before @ after\<rparr>))"
proof -
  have f: "frameOk (versions n p) f"
    using w by (intro wire_ok[OF n, of p q]) simp
  note ok = handleFrame_ok[where logs = "versions n", OF f _ _ _ h, of q]
  have m: "sameOwner (pods n q) m" "viewOk (versions n) (mRegistry m)" "\<forall>g \<in> set (repliesOf effs). frameOk (versions n q) g"
    using ok pod_ok[OF n, of q] pod_ok[OF n, of p] ownerOk_first by blast+
  have "netOk ((setPod q m n)\<lparr>wire := before @ after\<rparr>)"
    using m pod_ok[OF n, of q] wire_ok[OF n] w by (intro setPod_ok[OF n]) (auto intro: sameOwner_ok)
  with m(3) show ?thesis
    by (intro sendAll_ok) auto
qed

lemma meshStep_ok: "meshStep n n' \<Longrightarrow> netOk n \<Longrightarrow> netOk n'"
proof (induction rule: meshStep.induct)
  case (upsert n p e)
  with pod_ok[of n p] show ?case by (simp add: logChange_ok LocalUpsert_ownerOk)
next
  case (removed n p c plane)
  with pod_ok[of n p] show ?case by (simp add: logChange_ok LocalRemove_ownerOk)
next
  case (broadcast n p m f targets)
  then have m: "sameOwner (pods n p) m" "mRegistry m = mRegistry (pods n p)" "f \<in> set (mOutbox (pods n p))"
    by (auto simp: runBroadcaster_def sameOwner_def split: list.splits)
  with broadcast.prems pod_ok[of n p] have "frameOk (versions n p) f"
    by (auto simp: ownerOk_def)
  with m broadcast.prems pod_ok[of n p] show ?case
    by (intro setPod_ok) (auto intro: sameOwner_ok wire_ok)
next
  case (linkUp n p q)
  with pod_ok[of n p] quiet_ops(1,2) show ?case
    by (intro sendAll_ok keep_wire_ok) (auto intro: bootstrap_frameOk)
next
  case (peers n p ps)
  with pod_ok[of n p] show ?case
    by (intro keep_wire_ok quiet_ops(5)) (auto simp: reconcilePeers_def Let_def Purge_view)
next
  case (deliver n before p q f after m effs)
  then show ?case by (intro deliver_ok)
next
  case (lose n before x after)
  then show ?case by (auto simp: netOk_def)
next
  case (forward n p fresh q sendErr req m res)
  have "frameOk log g" if "g \<in> set (case res of Inl _ \<Rightarrow> [] | Inr (_, _, f) \<Rightarrow> [f])" for g log
    using that forward.hyps by (auto simp: Forward_def Let_def split: option.splits if_splits sum.splits)
  with forward quiet_ops(6)[OF forward.hyps] pod_ok[of n p] show ?case
    by (intro sendAll_ok keep_wire_ok) auto
next
  case (drain n p)
  then show ?case by (simp add: Drain_def enqueued_pod_ok)
next
  case (planeEvent n p ev)
  then show ?case by (simp add: BroadcastPlaneEvent_def enqueued_pod_ok)
next
  case (linkDown n p q)
  with pod_ok[of n p] show ?case by (intro keep_wire_ok) (simp_all add: quiet_ops)
next
  case (respond n p q rsp)
  then show ?case by (intro sendAll_ok) auto
next
  case (receive n p q ch m res)
  with quiet_ops(7)[OF receive.hyps] pod_ok[of n p] show ?case by (intro keep_wire_ok) auto
next
  case (cancelled n p q corrID m res)
  with quiet_ops(8)[OF cancelled.hyps] pod_ok[of n p] show ?case by (intro keep_wire_ok) auto
qed

lemma initial_ok: "netOk (initialNet addr)"
  by (auto simp: netOk_def initialNet_def NewMesh_def NewRegistry_def ownerOk_def viewOk_def SelfID_def)

lemma meshReachable_ok: "meshReachable n \<Longrightarrow> netOk n"
  by (induction rule: meshReachable.induct) (auto intro: initial_ok meshStep_ok)

lemma lookupResults_mem:
  "a \<in> set (lookupResults r plane cr) \<longleftrightarrow>
     (\<exists>st. fmlookup (owners r) (raOwner a) = Some st \<and> \<not> osDraining st \<and> qualifies plane cr (raEntry a) \<and>
        raEntry a \<in> fmran' (osEntries st))"
proof -
  have "a \<in> set (lookupResults r plane cr) \<longleftrightarrow>
      (\<exists>owner st. (owner, st) \<in> set (sorted_list_of_fmap (owners r)) \<and> \<not> osDraining st \<and>
         (\<exists>e \<in> set (entryList st). qualifies plane cr e \<and> a = \<lparr>raOwner = owner, raEntry = e\<rparr>))"
    by (fastforce simp: lookupResults_def ownerList_def split: if_splits)
  moreover have "e \<in> set (entryList st) \<longleftrightarrow> e \<in> fmran' (osEntries st)" for e st
    by (simp add: entryList_def values_mem fmlookup_ran'_iff del: set_map)
  ultimately show ?thesis
    by (cases a) (auto simp: set_sorted_list_of_fmap)
qed

lemma Lookup_mem: "a \<in> set (snd (Lookup r plane cr)) \<longleftrightarrow> a \<in> set (lookupResults r plane cr)"
proof -
  have "set (drop k xs @ take k xs) = set xs" for k and xs :: "RemoteAgent list"
    by (metis Un_commute append_take_drop_id set_append)
  then show ?thesis by (simp add: Lookup_def Let_def del: set_append)
qed

text \<open>C12: In every state the mesh can reach while the processes of its replicas keep running (a restart, which starts the sequence numbers anew, is not a step),
  with frames lost and delivered in any order, what a replica's registry
  holds for another replica is a state that replica's connections really had, namely the one after as many
  changes as the recorded sequence number says. Where the number is the owner's current one, the view is
  the owner's current state. A lookup returns only connections that were among the owner's, for the plane
  and the CR asked for, and none of an owner marked as draining.\<close>

theorem registry_is_past_owner_state:
  assumes "meshReachable n"
  shows "(\<forall>st. fmlookup (owners (mRegistry (pods n q))) p = Some st \<longrightarrow>
            versionAt (versions n p) (osSeq st) (osEntries st) \<and>
            (osSeq st = mLocalSeq (pods n p) \<longrightarrow> osEntries st = mLocalEntries (pods n p))) \<and>
         (\<forall>a \<in> set (snd (Lookup (mRegistry (pods n q)) plane cr)).
            qualifies plane cr (raEntry a) \<and>
            (\<exists>st. fmlookup (owners (mRegistry (pods n q))) (raOwner a) = Some st \<and> \<not> osDraining st) \<and>
            (\<exists>es \<in> set (versions n (raOwner a)). raEntry a \<in> fmran' es))"
proof -
  note ok = pod_ok[OF meshReachable_ok[OF assms]]
  have view: "versionAt (versions n p) (osSeq st) (osEntries st)"
    if "fmlookup (owners (mRegistry (pods n q))) p = Some st" for p st
    using ok[of q] that by (simp add: viewOk_def)
  moreover have "osSeq st = mLocalSeq (pods n p) \<Longrightarrow> versionAt (versions n p) (osSeq st) (osEntries st) \<Longrightarrow>
      osEntries st = mLocalEntries (pods n p)" for st
    using ownerOk_current[of p "versions n p" "pods n p"] ok[of p] by (simp add: versionAt_def)
  moreover have "osEntries st \<in> set (versions n p)" if "fmlookup (owners (mRegistry (pods n q))) p = Some st" for p st
    using view[OF that] unfolding versionAt_def by (metis nth_mem)
  ultimately show ?thesis
    unfolding Ball_def Lookup_mem lookupResults_mem by blast
qed

subsection \<open>Convergence\<close>

definition inSync :: "string \<Rightarrow> Mesh \<Rightarrow> Mesh \<Rightarrow> bool" where
  "inSync p m M \<longleftrightarrow> (\<exists>st. fmlookup (owners (mRegistry m)) p = Some st \<and> osSeq st = mLocalSeq M \<and> osEntries st = mLocalEntries M)"

fun deliverAll :: "Mesh \<Rightarrow> string \<Rightarrow> meshFrame list \<Rightarrow> Mesh \<times> meshEffect list" where
  "deliverAll m p [] = (m, [])"
| "deliverAll m p (f # fs) =
     (let (m1, e1) = handleFrame m p f; (m2, e2) = deliverAll m1 p fs in (m2, e1 @ e2))"

datatype localOp = Upsert AgentEntry | Remove string string

fun runOps :: "localOp list \<Rightarrow> Mesh \<Rightarrow> Mesh" where
  "runOps [] m = m"
| "runOps (Upsert e # ops) m = runOps ops (LocalUpsert m e)"
| "runOps (Remove plane c # ops) m = runOps ops (LocalRemove m plane c)"

definition newFrames :: "Mesh \<Rightarrow> Mesh \<Rightarrow> meshFrame list" where
  "newFrames m m' = drop (length (mOutbox m)) (mOutbox m')"

lemma deliver_snapshot:
  assumes "keyedEntries (mLocalEntries M)"
  shows "inSync (SelfID M) (fst (handleFrame m (SelfID M) (snapshotFrame (localSnapshot M)))) M \<and>
         snd (handleFrame m (SelfID M) (snapshotFrame (localSnapshot M))) = []"
  using assms by (simp add: handleFrame_def snapshotFrame_def bareFrame_def frame_types localSnapshot_def ApplySnapshot_def
      Let_def inSync_def snapshot_entries)

lemma deliver_delta:
  assumes "inSync p m M" and "dOwner d = p" and "dSeq d = mLocalSeq M + 1"
    and "mLocalSeq M' = dSeq d" and "mLocalEntries M' = applyOp d (mLocalEntries M)"
  shows "inSync p (fst (handleFrame m p (deltaFrame d))) M' \<and> snd (handleFrame m p (deltaFrame d)) = []"
  using assms by (auto simp: inSync_def handleFrame_def deltaFrame_def bareFrame_def frame_types ApplyDelta_def Let_def)

lemma newFrames_op:
  assumes "length (mOutbox m) < meshOutboxSize"
  shows "mOutbox (LocalUpsert m e) = mOutbox m @
      [deltaFrame \<lparr>dOp = DeltaOpAdd, dOwner = SelfID m, dSeq = mLocalSeq m + 1, dEntry = e\<rparr>]"
    and "fmlookup (mLocalEntries m) c \<noteq> None \<Longrightarrow> mOutbox (LocalRemove m plane c) = mOutbox m @
      [deltaFrame \<lparr>dOp = DeltaOpRemove, dOwner = SelfID m, dSeq = mLocalSeq m + 1,
         dEntry = \<lparr>aePlaneIdentifier = plane, aeConnID = c, aeValidCRs = []\<rparr>\<rparr>]"
  using assms by (auto simp: LocalUpsert_def LocalRemove_def enqueueLocked_def Let_def)

lemma local_op_frame [simp]:
  "SelfID (LocalUpsert m e) = SelfID m" "SelfID (LocalRemove m plane c) = SelfID m"
  "mLocalSeq (LocalUpsert m e) = mLocalSeq m + 1"
  "mLocalEntries (LocalUpsert m e) = fmupd (aeConnID e) e (mLocalEntries m)"
  "fmlookup (mLocalEntries m) c \<noteq> None \<Longrightarrow> mLocalSeq (LocalRemove m plane c) = mLocalSeq m + 1"
  "fmlookup (mLocalEntries m) c \<noteq> None \<Longrightarrow> mLocalEntries (LocalRemove m plane c) = fmdrop c (mLocalEntries m)"
  "fmlookup (mLocalEntries m) c = None \<Longrightarrow> LocalRemove m plane c = m"
  by (auto simp: LocalUpsert_def LocalRemove_def enqueueLocked_def SelfID_def Let_def)

lemma runOps_SelfID [simp]: "SelfID (runOps ops m) = SelfID m"
  by (induction ops m rule: runOps.induct) simp_all

lemma op_outbox_prefix:
  "prefix (mOutbox m) (mOutbox (LocalUpsert m e))" "prefix (mOutbox m) (mOutbox (LocalRemove m plane c))"
  by (simp_all add: LocalUpsert_def LocalRemove_def enqueueLocked_def Let_def)

lemma runOps_outbox_prefix: "prefix (mOutbox m) (mOutbox (runOps ops m))"
  by (induction ops m rule: runOps.induct) (auto intro: prefix_order.trans op_outbox_prefix)

lemma newFrames_Cons:
  assumes "mOutbox m1 = mOutbox m @ [f]" and "prefix (mOutbox m1) (mOutbox m')"
  shows "newFrames m m' = f # newFrames m1 m'"
  using assms by (auto simp: prefix_def newFrames_def)

lemma changing_op:
  assumes "length (mOutbox M) < meshOutboxSize" and "runOps [oper] M \<noteq> M"
  shows "\<exists>d. mOutbox (runOps [oper] M) = mOutbox M @ [deltaFrame d] \<and> dOwner d = SelfID M \<and> dSeq d = mLocalSeq M + 1 \<and>
           mLocalSeq (runOps [oper] M) = dSeq d \<and> mLocalEntries (runOps [oper] M) = applyOp d (mLocalEntries M)"
proof (cases oper)
  case (Upsert e)
  with newFrames_op(1)[OF assms(1), of e] show ?thesis
    by (intro exI[of _ "\<lparr>dOp = DeltaOpAdd, dOwner = SelfID M, dSeq = mLocalSeq M + 1, dEntry = e\<rparr>"])
      (simp add: applyOp_def)
next
  case (Remove plane c)
  with assms(2) have "fmlookup (mLocalEntries M) c \<noteq> None" by (cases "fmlookup (mLocalEntries M) c") simp_all
  with newFrames_op(2)[OF assms(1) this, of plane] Remove show ?thesis
    by (intro exI[of _ "\<lparr>dOp = DeltaOpRemove, dOwner = SelfID M, dSeq = mLocalSeq M + 1,
        dEntry = \<lparr>aePlaneIdentifier = plane, aeConnID = c, aeValidCRs = []\<rparr>\<rparr>"])
      (simp add: applyOp_def DeltaOpAdd_def DeltaOpRemove_def)
qed

lemma deliver_changes:
  "inSync p m M \<Longrightarrow> SelfID M = p \<Longrightarrow> length (mOutbox M) + length ops \<le> meshOutboxSize \<Longrightarrow>
   inSync p (fst (deliverAll m p (newFrames M (runOps ops M)))) (runOps ops M) \<and>
   snd (deliverAll m p (newFrames M (runOps ops M))) = []"
proof (induction ops arbitrary: m M)
  case Nil
  then show ?case by (simp add: newFrames_def)
next
  case (Cons oper ops)
  let ?M = "runOps [oper] M"
  have split: "runOps (oper # ops) M = runOps ops ?M" by (cases oper) simp_all
  have room: "length (mOutbox M) < meshOutboxSize" using Cons.prems by simp
  show ?case
  proof (cases "?M = M")
    case True
    with Cons split show ?thesis by simp
  next
    case False
    then obtain d where d: "mOutbox ?M = mOutbox M @ [deltaFrame d]" "dOwner d = p" "dSeq d = mLocalSeq M + 1"
        "mLocalSeq ?M = dSeq d" "mLocalEntries ?M = applyOp d (mLocalEntries M)"
      using Cons.prems(2) changing_op[OF room False] by auto
    from deliver_delta[OF Cons.prems(1) d(2-5)] obtain m1
      where m1: "handleFrame m p (deltaFrame d) = (m1, [])" "inSync p m1 ?M"
      by (metis prod.collapse)
    have "newFrames M (runOps (oper # ops) M) = deltaFrame d # newFrames ?M (runOps ops ?M)"
      unfolding split by (intro newFrames_Cons[OF d(1)] runOps_outbox_prefix)
    with Cons.IH[OF m1(2)] Cons.prems(2,3) d(1) m1(1) show ?thesis
      unfolding split by (auto split: prod.splits)
  qed
qed

lemma ApplyDelta_refused: "\<not> snd (ApplyDelta r d) \<Longrightarrow> fst (ApplyDelta r d) = r"
  by (auto simp: ApplyDelta_def Let_def split: option.splits if_splits)

lemma delta_effects:
  assumes "handleFrame m p (deltaFrame (d\<lparr>dOwner := p\<rparr>)) = (m', effs)"
  shows "effs = [] \<or> effs = [SendFrame (bareFrame frameSnapshotReq)] \<and> mRegistry m' = mRegistry m"
  using assms ApplyDelta_refused[of "mRegistry m" "d\<lparr>dOwner := p\<rparr>"]
  by (auto simp: handleFrame_def deltaFrame_def bareFrame_def split: prod.splits bool.splits)

text \<open>C11: The mesh converges. A peer that receives the snapshot of a replica and then, in order, the frames of the
  changes made since is up to date and asks for nothing; this holds from any state of the peer and any
  list of changes that fits the outbox. A change out of sequence is refused and makes the peer ask for a
  snapshot; the owner answers every such request, and the answer brings a peer in any state up to date.\<close>

theorem mesh_converges:
  assumes "keyedEntries (mLocalEntries M)" and "length (mOutbox M) + length ops \<le> meshOutboxSize"
  shows "(let p = SelfID M; M' = runOps ops M;
              (m', effs) = deliverAll m p (snapshotFrame (localSnapshot M) # newFrames M M')
          in inSync p m' M' \<and> effs = []) \<and>
         (let p = SelfID M; (m', effs) = handleFrame m p (deltaFrame (d\<lparr>dOwner := p\<rparr>))
          in (effs = [] \<or> effs = [SendFrame (bareFrame frameSnapshotReq)] \<and> mRegistry m' = mRegistry m) \<and>
             (\<exists>reply. handleFrame M q (bareFrame frameSnapshotReq) = (M, [SendFrame reply]) \<and>
                inSync p (fst (handleFrame m' p reply)) M))"
    (is "?inOrder \<and> ?repair")
proof
  let ?f = "snapshotFrame (localSnapshot M)"
  obtain m1 where m1: "handleFrame m (SelfID M) ?f = (m1, [])" "inSync (SelfID M) m1 M"
    using deliver_snapshot[OF assms(1), of m] by (metis prod.collapse)
  from deliver_changes[OF m1(2) refl assms(2)] m1(1) show ?inOrder
    by (auto simp: Let_def split: prod.splits)
  have "handleFrame M q (bareFrame frameSnapshotReq) = (M, [SendFrame ?f])"
    by (simp add: handleFrame_def bareFrame_def)
  with deliver_snapshot[OF assms(1)] delta_effects[of m "SelfID M" d] show ?repair
    by (simp add: Let_def split: prod.splits)
qed

text \<open>C38: A snapshot that is overtaken by a later change silently undoes it. When a replica reads its state for a
  snapshot, then accepts a new agent connection, and the frame of the change reaches an up-to-date peer
  before the snapshot does, the peer ends up in the state before the change: the new connection is not
  found by any lookup, although the owner has it, and no frame asking for a repair is sent.\<close>

theorem overtaken_snapshot_undoes_change:
  assumes "inSync (SelfID M) m M" and "keyedEntries (mLocalEntries M)" and "length (mOutbox M) < meshOutboxSize"
    and "fmlookup (mLocalEntries M) (aeConnID e) = None"
  shows "let M' = LocalUpsert M e; p = SelfID M; change = last (mOutbox M');
             (m1, effs1) = handleFrame m p change;
             (m2, effs2) = handleFrame m1 p (snapshotFrame (localSnapshot M))
         in inSync p m1 M' \<and> inSync p m2 M \<and> effs1 = [] \<and> effs2 = [] \<and>
            fmlookup (mLocalEntries M') (aeConnID e) = Some e \<and>
            \<lparr>raOwner = p, raEntry = e\<rparr> \<notin> set (snd (Lookup (mRegistry m2) plane cr))"
proof -
  let ?p = "SelfID M" and ?f = "snapshotFrame (localSnapshot M)"
  let ?d = "\<lparr>dOp = DeltaOpAdd, dOwner = ?p, dSeq = mLocalSeq M + 1, dEntry = e\<rparr>"
  have last: "last (mOutbox (LocalUpsert M e)) = deltaFrame ?d"
    by (simp add: newFrames_op(1)[OF assms(3)])
  have "inSync ?p (fst (handleFrame m ?p (deltaFrame ?d))) (LocalUpsert M e) \<and> snd (handleFrame m ?p (deltaFrame ?d)) = []"
    by (rule deliver_delta[OF assms(1)]) (simp_all add: applyOp_def)
  then obtain m1 where m1: "handleFrame m ?p (deltaFrame ?d) = (m1, [])" "inSync ?p m1 (LocalUpsert M e)"
    by (metis prod.collapse)
  obtain m2 where m2: "handleFrame m1 ?p ?f = (m2, [])" "inSync ?p m2 M"
    using deliver_snapshot[OF assms(2), of m1] by (metis prod.collapse)
  have "\<lparr>raOwner = ?p, raEntry = e\<rparr> \<notin> set (snd (Lookup (mRegistry m2) plane cr))"
  proof -
    have "e \<notin> fmran' (mLocalEntries M)"
      using assms(2,4) by (auto simp: keyedEntries_def fmlookup_ran'_iff)
    with m2(2) show ?thesis by (auto simp: Lookup_mem lookupResults_mem inSync_def)
  qed
  with m1 m2 show ?thesis
    unfolding Let_def last by simp
qed

subsection \<open>A small mesh\<close>

definition exampleEntry :: AgentEntry where
  "exampleEntry = \<lparr>aePlaneIdentifier = ''dataplane/p'', aeConnID = ''c1'', aeValidCRs = [''ns/a'']\<rparr>"

definition exampleOwner :: Mesh where
  "exampleOwner = NewMesh \<lparr>peerID = ''g1'', peerAddr = ''g1''\<rparr> NewRegistry"

definition exampleNet1 :: net where
  "exampleNet1 = (let n0 = initialNet (\<lambda>p. p) in logChange ''g1'' (LocalUpsert (pods n0 ''g1'') exampleEntry) n0)"

definition exampleNet2 :: net where
  "exampleNet2 = sendAll ''g1'' ''g2'' (linkBootstrap (pods exampleNet1 ''g1''))
     (setPod ''g1'' (setLinkUp True (pods exampleNet1 ''g1'') ''g2'') exampleNet1)"

definition exampleNet :: net where
  "exampleNet =
     (let (m, effs) = handleFrame (pods exampleNet2 ''g2'') ''g1'' (snapshotFrame (localSnapshot (pods exampleNet1 ''g1'')))
      in sendAll ''g2'' ''g1'' (repliesOf effs)
           ((setPod ''g2'' m exampleNet2)\<lparr>wire := [hd (wire exampleNet2), last (wire exampleNet2)]\<rparr>))"

lemma exampleNet_reachable: "meshReachable exampleNet"
proof -
  have "meshReachable exampleNet1"
    unfolding exampleNet1_def Let_def
    by (rule meshReachable.step[OF meshReachable.initial meshStep.upsert]) (simp add: initialNet_def NewMesh_def)
  then have "meshReachable exampleNet2"
    unfolding exampleNet2_def by (rule meshReachable.step[OF _ meshStep.linkUp])
  then show ?thesis
    unfolding exampleNet_def Let_def
  proof (rule meshReachable.step)
    show "meshStep exampleNet2 (case handleFrame (pods exampleNet2 ''g2'') ''g1''
          (snapshotFrame (localSnapshot (pods exampleNet1 ''g1''))) of (m, effs) \<Rightarrow>
        sendAll ''g2'' ''g1'' (repliesOf effs)
          ((setPod ''g2'' m exampleNet2)\<lparr>wire := [hd (wire exampleNet2), last (wire exampleNet2)]\<rparr>))"
      by (split prod.split, intro allI impI, rule meshStep.deliver[of _ "[_]" _ _ _ "[_]", simplified])
        (simp_all add: exampleNet2_def sendAll_def setPod_def exampleNet1_def logChange_def initialNet_def linkBootstrap_def)
  qed
qed

theorem registry_is_past_owner_state_witness:
  "meshReachable exampleNet \<and>
   snd (Lookup (mRegistry (pods exampleNet ''g2'')) ''dataplane/p'' ''ns/a'') = [\<lparr>raOwner = ''g1'', raEntry = exampleEntry\<rparr>] \<and>
   list_ex (\<lambda>es. exampleEntry \<in> fmran' es) (versions exampleNet ''g1'')"
proof (intro conjI exampleNet_reachable)
  show found: "snd (Lookup (mRegistry (pods exampleNet ''g2'')) ''dataplane/p'' ''ns/a'') =
      [\<lparr>raOwner = ''g1'', raEntry = exampleEntry\<rparr>]"
    by code_simp
  show "list_ex (\<lambda>es. exampleEntry \<in> fmran' es) (versions exampleNet ''g1'')"
    using registry_is_past_owner_state[OF exampleNet_reachable, of "''g2''" "''g1''" "''dataplane/p''" "''ns/a''"] found
    by (simp add: list_ex_iff)
qed

lemma exampleOwner_base:
  "keyedEntries (mLocalEntries exampleOwner)" "mOutbox exampleOwner = []"
  "fmlookup (mLocalEntries exampleOwner) (aeConnID exampleEntry) = None" "SelfID exampleOwner = ''g1''"
  by (simp_all add: exampleOwner_def NewMesh_def SelfID_def)

theorem mesh_converges_witness:
  "inSync ''g1'' (fst (deliverAll exampleOwner ''g1''
      (snapshotFrame (localSnapshot exampleOwner) # newFrames exampleOwner (runOps [Upsert exampleEntry] exampleOwner))))
    (runOps [Upsert exampleEntry] exampleOwner)"
  using mesh_converges[of exampleOwner "[Upsert exampleEntry]" exampleOwner, OF exampleOwner_base(1)] exampleOwner_base(2,4)
  by (simp add: Let_def meshOutboxSize_def case_prod_beta del: deliverAll.simps runOps.simps)

theorem overtaken_snapshot_undoes_change_witness:
  "inSync ''g1'' (fst (handleFrame exampleOwner ''g1'' (snapshotFrame (localSnapshot exampleOwner)))) exampleOwner \<and>
   snd (handleFrame
     (fst (handleFrame (fst (handleFrame exampleOwner ''g1'' (snapshotFrame (localSnapshot exampleOwner)))) ''g1''
        (last (mOutbox (LocalUpsert exampleOwner exampleEntry)))))
     ''g1'' (snapshotFrame (localSnapshot exampleOwner))) = []"
proof -
  let ?m = "fst (handleFrame exampleOwner ''g1'' (snapshotFrame (localSnapshot exampleOwner)))"
  note base = exampleOwner_base
  have start: "inSync ''g1'' ?m exampleOwner"
    using deliver_snapshot[OF base(1), of exampleOwner] base(4) by simp
  with overtaken_snapshot_undoes_change[of exampleOwner ?m exampleEntry, OF _ base(1) _ base(3)] base(2,4) show ?thesis
    by (simp add: Let_def meshOutboxSize_def case_prod_beta)
qed

end
