(* ===== verification/Gateway_Facts.thy ===== *)
theory Gateway_Facts
  imports Gateway_Api Conn_Manager_Facts Fabric_Facts
begin

text \<open>
  Correctness of the gateway as a whole: the mesh publishes exactly the connections the manager holds,
  a request reaches only agents that may serve its CR and is not executed twice, and what the code does
  where a re-validation runs into a disconnect and where a forwarded request fails.
\<close>

subsection \<open>Listeners\<close>

definition connEntry :: "string \<Rightarrow> AgentConnection \<Rightarrow> AgentEntry" where
  "connEntry p conn = \<lparr>aePlaneIdentifier = p, aeConnID = acID conn, aeValidCRs = acValidCRs conn\<rparr>"

lemma connEntry_fields [simp]:
  "aePlaneIdentifier (connEntry p conn) = p" "aeConnID (connEntry p conn) = acID conn"
  "aeValidCRs (connEntry p conn) = acValidCRs conn"
  by (simp_all add: connEntry_def)

text \<open>The entries hold every connection of the manager, and nothing else.\<close>

definition mirrors :: "ConnectionManager \<Rightarrow> (string, AgentEntry) fmap \<Rightarrow> bool" where
  "mirrors cm es \<longleftrightarrow>
     (\<forall>p. \<forall>conn \<in> set (connsOf cm p). fmlookup es (acID conn) = Some (connEntry p conn)) \<and>
     (\<forall>c. fmlookup es c \<noteq> None \<longrightarrow> (\<exists>p. c \<in> acID ` set (connsOf cm p)))"

fun mirrorEvent :: "(string, AgentEntry) fmap \<Rightarrow> cmEvent \<Rightarrow> (string, AgentEntry) fmap" where
  "mirrorEvent es (ConnClosed connID) = es"
| "mirrorEvent es (AgentRegistered p connID crs) = fmupd connID \<lparr>aePlaneIdentifier = p, aeConnID = connID, aeValidCRs = crs\<rparr> es"
| "mirrorEvent es (AgentUnregistered p connID) = fmdrop connID es"
| "mirrorEvent es (AgentCRsChanged p connID crs) = fmupd connID \<lparr>aePlaneIdentifier = p, aeConnID = connID, aeValidCRs = crs\<rparr> es"

text \<open>What the manager promises its listener: the events of a call, applied in order, turn the entries before the call
  into the entries after it.\<close>

definition announces :: "ConnectionManager \<Rightarrow> ConnectionManager \<Rightarrow> bool" where
  "announces cm cm' \<longleftrightarrow> hasListener cm' \<and>
     (\<exists>evs. trace cm' = trace cm @ evs \<and> (\<forall>es. mirrors cm es \<longrightarrow> mirrors cm' (foldl mirrorEvent es evs)))"

locale connection_listener =
  fixes on_event :: "'m \<Rightarrow> cmEvent \<Rightarrow> 'm" and entries :: "'m \<Rightarrow> (string, AgentEntry) fmap"
  assumes entries_event: "entries (on_event m e) = mirrorEvent (entries m) e"
begin

lemma entries_events: "entries (foldl on_event m evs) = foldl mirrorEvent (entries m) evs"
  by (induction evs arbitrary: m) (simp_all add: entries_event)

lemma stays_mirrored:
  assumes "announces cm cm'" and "mirrors cm (entries m)"
  shows "mirrors cm' (entries (foldl on_event m (drop (length (trace cm)) (trace cm'))))"
  using assms by (auto simp: announces_def entries_events)

end

interpretation mesh_listener: connection_listener dispatchEvent mLocalEntries
proof
  fix m :: Mesh and e :: cmEvent
  show "mLocalEntries (dispatchEvent m e) = mirrorEvent (mLocalEntries m) e"
  proof (cases e)
    case (AgentUnregistered p c)
    then show ?thesis
      by (cases "fmlookup (mLocalEntries m) c") (auto simp: OnAgentUnregistered_def fmdrop_missing)
  qed (simp_all add: OnAgentRegistered_def OnAgentCRsChanged_def)
qed

subsection \<open>The events of the manager\<close>

lemma listener_frame [simp]:
  "hasListener (notify e cm) = hasListener cm" "hasListener (closeConn c cm) = hasListener cm"
  "hasListener (cleanupPerCRRoundRobinKeys p cm) = hasListener cm" "hasListener (dropPlane p cm) = hasListener cm"
  "trace (cleanupPerCRRoundRobinKeys p cm) = trace cm" "trace (dropPlane p cm) = trace cm"
  "trace (closeConn c cm) = trace cm @ [ConnClosed (acID c)]"
  "hasListener cm \<Longrightarrow> trace (notify e cm) = trace cm @ [e]"
  by (simp_all add: notify_def closeConn_def cleanupPerCRRoundRobinKeys_def dropPlane_def Let_def)

lemma cleanupOrphaned_frame [simp]:
  "hasListener (cleanupOrphanedCRKeys p crs cm) = hasListener cm" "trace (cleanupOrphanedCRKeys p crs cm) = trace cm"
  "connections (cleanupOrphanedCRKeys p crs cm) = connections cm"
proof -
  have "hasListener (foldl f cm crs) = hasListener cm \<and> trace (foldl f cm crs) = trace cm \<and> connections (foldl f cm crs) = connections cm"
    if "\<And>c cr. hasListener (f c cr) = hasListener c \<and> trace (f c cr) = trace c \<and> connections (f c cr) = connections c"
    for f :: "ConnectionManager \<Rightarrow> string \<Rightarrow> ConnectionManager"
    using that by (induction crs arbitrary: cm) simp_all
  then show "hasListener (cleanupOrphanedCRKeys p crs cm) = hasListener cm" "trace (cleanupOrphanedCRKeys p crs cm) = trace cm"
    "connections (cleanupOrphanedCRKeys p crs cm) = connections cm"
    by (simp_all add: cleanupOrphanedCRKeys_def Let_def)
qed

lemma mirrorsI:
  assumes "\<And>p conn. conn \<in> set (connsOf cm p) \<Longrightarrow> fmlookup es (acID conn) = Some (connEntry p conn)"
    and "\<And>c e. fmlookup es c = Some e \<Longrightarrow> \<exists>p. c \<in> acID ` set (connsOf cm p)"
  shows "mirrors cm es"
  using assms by (auto simp: mirrors_def)

lemma mirrorsD:
  "mirrors cm es \<Longrightarrow> conn \<in> set (connsOf cm p) \<Longrightarrow> fmlookup es (acID conn) = Some (connEntry p conn)"
  "mirrors cm es \<Longrightarrow> fmlookup es c = Some e \<Longrightarrow> \<exists>p. \<exists>conn \<in> set (connsOf cm p). acID conn = c \<and> e = connEntry p conn"
proof -
  show "mirrors cm es \<Longrightarrow> conn \<in> set (connsOf cm p) \<Longrightarrow> fmlookup es (acID conn) = Some (connEntry p conn)"
    by (simp add: mirrors_def)
  assume "mirrors cm es" "fmlookup es c = Some e"
  then obtain p conn where "conn \<in> set (connsOf cm p)" "acID conn = c"
    unfolding mirrors_def by blast
  moreover from this \<open>mirrors cm es\<close> \<open>fmlookup es c = Some e\<close> have "e = connEntry p conn"
    by (auto simp: mirrors_def)
  ultimately show "\<exists>p. \<exists>conn \<in> set (connsOf cm p). acID conn = c \<and> e = connEntry p conn"
    by blast
qed

lemma announces_silent:
  assumes "hasListener cm'" and "trace cm' = trace cm"
    and "\<And>p. connEntry p ` set (connsOf cm' p) = connEntry p ` set (connsOf cm p)"
  shows "announces cm cm'"
proof -
  have "mirrors cm' es" if es: "mirrors cm es" for es
  proof (rule mirrorsI)
    fix p conn assume "conn \<in> set (connsOf cm' p)"
    with assms(3)[of p] obtain c where c: "c \<in> set (connsOf cm p)" "connEntry p conn = connEntry p c" by blast
    from c(2) have "acID conn = acID c" by (metis connEntry_fields(2))
    with mirrorsD(1)[OF es c(1)] c(2) show "fmlookup es (acID conn) = Some (connEntry p conn)" by simp
  next
    fix c e assume "fmlookup es c = Some e"
    from mirrorsD(2)[OF es this] obtain p conn where conn: "conn \<in> set (connsOf cm p)" "acID conn = c" by blast
    from conn(1) have "connEntry p conn \<in> connEntry p ` set (connsOf cm' p)" unfolding assms(3) by (rule imageI)
    then obtain conn' where conn': "conn' \<in> set (connsOf cm' p)" "connEntry p conn = connEntry p conn'" by (elim imageE)
    from conn'(2) conn(2) have "acID conn' = c" by (metis connEntry_fields(2))
    with conn'(1) show "\<exists>p. c \<in> acID ` set (connsOf cm' p)" by (intro exI[of _ p]) force
  qed
  with assms(1,2) show ?thesis by (auto simp: announces_def)
qed

lemma Register_announces:
  assumes "hasListener cm" and fresh: "\<And>p. connID \<notin> acID ` set (connsOf cm p)"
  shows "announces cm (fst (Register cm connID now planeType planeID crs cert ints))"
proof -
  let ?p = "planeIdentifierOf planeType planeID" and ?cm = "fst (Register cm connID now planeType planeID crs cert ints)"
  obtain new where conns: "\<And>q. connsOf ?cm q = (if q = ?p then connsOf cm q @ [new] else connsOf cm q)"
      and new: "acID new = connID" "acValidCRs new = crs"
    by (auto simp: Register_def Let_def connsOf_cong[OF notify_frame(1)] intro: that)
  have "mirrors ?cm (mirrorEvent es (AgentRegistered ?p connID crs))" if es: "mirrors cm es" for es
  proof (rule mirrorsI)
    fix q conn assume "conn \<in> set (connsOf ?cm q)"
    then show "fmlookup (mirrorEvent es (AgentRegistered ?p connID crs)) (acID conn) = Some (connEntry q conn)"
      using conns[of q] new mirrorsD(1)[OF es, of conn q] fresh[of q]
      by (auto simp: connEntry_def split: if_splits)
  next
    fix c e assume "fmlookup (mirrorEvent es (AgentRegistered ?p connID crs)) c = Some e"
    then show "\<exists>q. c \<in> acID ` set (connsOf ?cm q)"
      using conns new mirrorsD(2)[OF es, of c e] by (auto split: if_splits) (metis Un_iff image_eqI set_append)
  qed
  moreover have "trace ?cm = trace cm @ [AgentRegistered ?p connID crs]" "hasListener ?cm"
    using assms(1) by (simp_all add: Register_def Let_def notify_def)
  ultimately show ?thesis by (auto simp: announces_def)
qed

text \<open>Removing connections of one plane.\<close>

lemma mirrors_remove:
  assumes es: "mirrors cm es" and ids: "idsOk cm"
    and conns: "\<And>q. connsOf cm' q = (if q = p then kept else connsOf cm q)"
    and part: "set kept \<union> set gone = set (connsOf cm p)" and apart: "acID ` set kept \<inter> acID ` set gone = {}"
    and es': "\<And>c. fmlookup es' c = (if c \<in> acID ` set gone then None else fmlookup es c)"
  shows "mirrors cm' es'"
proof (rule mirrorsI)
  fix q conn assume conn: "conn \<in> set (connsOf cm' q)"
  have "acID conn \<notin> acID ` set gone"
  proof (cases "q = p")
    case True
    with conn conns[of q] apart show ?thesis by auto
  next
    case False
    with conn conns[of q] have "acID conn \<in> acID ` set (connsOf cm q)" by auto
    with idsOk_disjoint[OF ids False] part show ?thesis by auto
  qed
  moreover have "conn \<in> set (connsOf cm q)"
    using conn conns[of q] part by (auto split: if_splits)
  ultimately show "fmlookup es' (acID conn) = Some (connEntry q conn)"
    using es' mirrorsD(1)[OF es] by simp
next
  fix c e assume "fmlookup es' c = Some e"
  with es' have c: "c \<notin> acID ` set gone" "fmlookup es c = Some e" by (auto split: if_splits)
  from mirrorsD(2)[OF es c(2)] obtain q conn where "conn \<in> set (connsOf cm q)" "acID conn = c" by blast
  with c(1) part conns[of q] have "conn \<in> set (connsOf cm' q)" by (auto split: if_splits)
  with \<open>acID conn = c\<close> show "\<exists>q. c \<in> acID ` set (connsOf cm' q)" by blast
qed

lemma Unregister_announces:
  assumes "hasListener cm" and "idsOk cm"
  shows "announces cm (Unregister cm p connID)"
proof (cases "splitAtID connID (connsOf cm p)")
  case None
  then have "Unregister cm p connID = cm"
    by (auto simp: Unregister_def connsOf_def split: option.splits)
  with assms(1) show ?thesis by (simp add: announces_silent)
next
  case (Some split)
  then obtain before conn after where split: "splitAtID connID (connsOf cm p) = Some (before, conn, after)"
    by (cases split) auto
  then have conns: "connsOf cm p = before @ conn # after" "acID conn = connID"
    using splitAtID_Some by auto
  then have found: "fmlookup (connections cm) p = Some (before @ conn # after)"
    by (auto simp: connsOf_def split: option.splits)
  let ?cm = "Unregister cm p connID"
  have conns': "connsOf ?cm q = (if q = p then before @ after else connsOf cm q)" for q
    using found split conns by (auto simp: Unregister_def Let_def connsOf_def)
  have "distinct (map acID (connsOf cm p))" using assms(2) by (simp add: idsOk_def)
  then have "acID ` set (before @ after) \<inter> acID ` set [conn] = {}" using conns by auto
  then have "mirrors ?cm (fmdrop connID es)" if "mirrors cm es" for es
    using conns by (intro mirrors_remove[OF that assms(2) conns', of "[conn]"]) auto
  moreover have "trace ?cm = trace cm @ [ConnClosed connID, AgentUnregistered p connID]" "hasListener ?cm"
    using found split conns assms(1) by (auto simp: Unregister_def Let_def connsOf_def)
  ultimately show ?thesis by (auto simp: announces_def)
qed

lemma closing_events:
  assumes "hasListener cm"
  shows "trace (foldl (\<lambda>c conn. notify (AgentUnregistered p (acID conn)) (closeConn conn c)) cm conns) =
           trace cm @ concat (map (\<lambda>conn. [ConnClosed (acID conn), AgentUnregistered p (acID conn)]) conns)"
    and "hasListener (foldl (\<lambda>c conn. notify (AgentUnregistered p (acID conn)) (closeConn conn c)) cm conns)"
  using assms by (induction conns arbitrary: cm) auto

lemma closing_mirror:
  "fmlookup (foldl mirrorEvent es (concat (map (\<lambda>conn. [ConnClosed (acID conn), AgentUnregistered p (acID conn)]) conns))) c =
     (if c \<in> acID ` set conns then None else fmlookup es c)"
  by (induction conns arbitrary: es) auto

lemma Disconnect_announces:
  assumes "hasListener cm" and "idsOk cm"
  shows "announces cm (fst (DisconnectAllForPlane cm planeType planeID))"
proof (cases "connsOf cm (planeIdentifierOf planeType planeID) = []")
  case True
  with assms(1) show ?thesis by (simp add: DisconnectAllForPlane_def Let_def announces_silent)
next
  case False
  let ?p = "planeIdentifierOf planeType planeID"
  let ?cm = "fst (DisconnectAllForPlane cm planeType planeID)"
  let ?evs = "concat (map (\<lambda>conn. [ConnClosed (acID conn), AgentUnregistered ?p (acID conn)]) (connsOf cm ?p))"
  have tr: "trace ?cm = trace cm @ ?evs" "hasListener ?cm"
    using False assms(1) closing_events by (simp_all add: DisconnectAllForPlane_def Let_def)
  have "connections ?cm = fmdrop ?p (connections cm)"
    using False by (simp add: DisconnectAllForPlane_def Let_def)
  then have "connsOf ?cm q = (if q = ?p then [] else connsOf cm q)" for q
    by (simp add: connsOf_def)
  then have "mirrors ?cm (foldl mirrorEvent es ?evs)" if "mirrors cm es" for es
    by (intro mirrors_remove[OF that assms(2), of _ ?p "[]" "connsOf cm ?p"]) (simp_all add: closing_mirror)
  with tr show ?thesis by (auto simp: announces_def)
qed

lemma UpdateCRValidity_unchanged:
  "UpdateCRValidity X c cr pool = (c', granted, revoked, err) \<Longrightarrow> \<not> granted \<Longrightarrow> \<not> revoked \<Longrightarrow> c' = c"
  by (auto simp: UpdateCRValidity_def Let_def split: if_splits)

lemma revalidate_mirror:
  assumes "\<forall>conn \<in> set conns. fmlookup es (acID conn) = Some (connEntry p conn)" and "distinct (map acID conns)"
    and "revalidateConns X p cr pool conns = (conns', updated, removed, evs)"
  shows "(\<forall>conn \<in> set conns'. fmlookup (foldl mirrorEvent es evs) (acID conn) = Some (connEntry p conn)) \<and>
         (\<forall>c. c \<notin> acID ` set conns \<longrightarrow> fmlookup (foldl mirrorEvent es evs) c = fmlookup es c)"
  using assms
proof (induction conns arbitrary: es conns' updated removed evs)
  case Nil
  then show ?case by simp
next
  case (Cons conn conns)
  obtain c granted revoked err where upd: "UpdateCRValidity X conn cr pool = (c, granted, revoked, err)"
    using prod_cases4 by blast
  obtain cs u r es' where rest: "revalidateConns X p cr pool conns = (cs, u, r, es')"
    using prod_cases4 by blast
  let ?e = "if granted \<or> revoked then [AgentCRsChanged p (acID c) (GetValidCRs c)] else []"
  have step: "conns' = c # cs" "evs = ?e @ es'"
    using Cons.prems(3) upd rest by (auto simp: Let_def)
  have "acID c = acID conn" using UpdateCRValidity_frame(1)[of X conn cr pool] upd by simp
  then have first: "fmlookup (foldl mirrorEvent es ?e) (acID conn) = Some (connEntry p c)"
      "\<And>k. k \<noteq> acID conn \<Longrightarrow> fmlookup (foldl mirrorEvent es ?e) k = fmlookup es k"
    using Cons.prems(1) UpdateCRValidity_unchanged[OF upd] by (auto simp: connEntry_def GetValidCRs_def)
  have "\<forall>x \<in> set conns. fmlookup (foldl mirrorEvent es ?e) (acID x) = Some (connEntry p x)"
    using Cons.prems(1,2) first(2) by (metis distinct.simps(2) image_eqI list.set_intros(2) list.set_map list.simps(9))
  from Cons.IH[OF this _ rest] Cons.prems(2) have IH:
    "(\<forall>x \<in> set cs. fmlookup (foldl mirrorEvent (foldl mirrorEvent es ?e) es') (acID x) = Some (connEntry p x))"
    "\<And>k. k \<notin> acID ` set conns \<Longrightarrow> fmlookup (foldl mirrorEvent (foldl mirrorEvent es ?e) es') k = fmlookup (foldl mirrorEvent es ?e) k"
    by auto
  have "acID conn \<notin> acID ` set conns" using Cons.prems(2) by simp
  with IH first \<open>acID c = acID conn\<close> show ?case
    unfolding step by (simp del: mirrorEvent.simps)
qed

lemma Revalidate_announces:
  assumes "hasListener cm" and "idsOk cm"
  shows "announces cm (fst (RevalidateCR X cm planeType planeID ns name ca))"
proof (cases "connsOf cm (planeIdentifierOf planeType planeID) = [] \<or> parsePool X ca = None")
  case True
  then have "fst (RevalidateCR X cm planeType planeID ns name ca) = cm"
    by (auto simp: RevalidateCR_def Let_def)
  with assms(1) show ?thesis by (simp add: announces_silent)
next
  case False
  let ?p = "planeIdentifierOf planeType planeID" and ?cr = "ns @ ''/'' @ name"
  let ?cm = "fst (RevalidateCR X cm planeType planeID ns name ca)"
  from False obtain pool where pool: "parsePool X ca = Some pool" by auto
  obtain conns' updated removed evs where
    rev: "revalidateConns X ?p ?cr pool (connsOf cm ?p) = (conns', updated, removed, evs)"
    using prod_cases4 by blast
  have tr: "trace (foldl (\<lambda>c e. notify e c) c es) = trace c @ es \<and> hasListener (foldl (\<lambda>c e. notify e c) c es)"
    if "hasListener c" for es and c :: ConnectionManager
    using that by (induction es arbitrary: c) auto
  have cm': "trace ?cm = trace cm @ evs" "hasListener ?cm" "connections ?cm = fmupd ?p conns' (connections cm)"
    using False pool rev assms(1) by (auto simp: RevalidateCR_def Let_def tr)
  then have conns: "connsOf ?cm q = (if q = ?p then conns' else connsOf cm q)" for q
    by (simp add: connsOf_def)
  have ids: "acID ` set conns' = acID ` set (connsOf cm ?p)"
    using revalidateConns_map[of X ?p ?cr pool "connsOf cm ?p"] rev by (simp add: image_image)
  have "mirrors ?cm (foldl mirrorEvent es evs)" if es: "mirrors cm es" for es
  proof -
    let ?es = "foldl mirrorEvent es evs"
    have "distinct (map acID (connsOf cm ?p))" using assms(2) by (simp add: idsOk_def)
    from revalidate_mirror[OF _ this rev, of es] mirrorsD(1)[OF es, of _ ?p]
    have changed: "\<And>conn. conn \<in> set conns' \<Longrightarrow> fmlookup ?es (acID conn) = Some (connEntry ?p conn)"
      and same: "\<And>c. c \<notin> acID ` set (connsOf cm ?p) \<Longrightarrow> fmlookup ?es c = fmlookup es c" by auto
    show ?thesis
    proof (rule mirrorsI)
      fix q conn assume conn: "conn \<in> set (connsOf ?cm q)"
      show "fmlookup ?es (acID conn) = Some (connEntry q conn)"
      proof (cases "q = ?p")
        case True
        with conn conns[of q] changed show ?thesis by simp
      next
        case False
        with conn conns[of q] have old: "conn \<in> set (connsOf cm q)" by simp
        with idsOk_disjoint[OF assms(2) False] have "acID conn \<notin> acID ` set (connsOf cm ?p)" by blast
        from same[OF this] mirrorsD(1)[OF es old] show ?thesis by simp
      qed
    next
      fix c e assume c: "fmlookup ?es c = Some e"
      show "\<exists>q. c \<in> acID ` set (connsOf ?cm q)"
      proof (cases "c \<in> acID ` set (connsOf cm ?p)")
        case True
        with ids conns[of ?p] show ?thesis by (intro exI[of _ ?p]) simp
      next
        case False
        with c same have "fmlookup es c = Some e" by simp
        from mirrorsD(2)[OF es this] obtain q conn where "conn \<in> set (connsOf cm q)" "acID conn = c" by blast
        with False conns[of q] show ?thesis by (intro exI[of _ q]) auto
      qed
    qed
  qed
  with cm' show ?thesis by (auto simp: announces_def)
qed

lemma silent_announces:
  assumes "hasListener cm"
  shows "announces cm (fst (Get cm p))" "announces cm (fst (GetForCR cm p cr))"
    "announces cm (UpdateConnectionLastSeen cm now p connID)"
proof -
  let ?cm = "UpdateConnectionLastSeen cm now p connID"
  have seen: "connEntry q (c\<lparr>acLastSeen := now\<rparr>) = connEntry q c" for q c
    by (simp add: connEntry_def)
  have "map (connEntry q) (connsOf ?cm q) = map (connEntry q) (connsOf cm q)" for q
    using seen by (auto simp: UpdateConnectionLastSeen_def connsOf_def split: option.splits dest!: splitAtID_Some)
  then have "connEntry q ` set (connsOf ?cm q) = connEntry q ` set (connsOf cm q)" for q
    by (metis list.set_map)
  with assms show "announces cm ?cm"
    by (intro announces_silent) (auto simp: UpdateConnectionLastSeen_def split: option.splits)
qed (use assms in \<open>auto intro!: announces_silent simp: Get_def GetForCR_def Let_def\<close>)

subsection \<open>What a request leaves alone\<close>

lemma pending_frame [simp]:
  "svConnMgr (failPendingForConnection s c) = svConnMgr s" "svMesh (failPendingForConnection s c) = svMesh s"
  "svConnMgr (handleHTTPTunnelResponse s c resp) = svConnMgr s" "svMesh (handleHTTPTunnelResponse s c resp) = svMesh s"
  "svConnMgr (fst (awaitReply s rid ch)) = svConnMgr s" "svMesh (fst (awaitReply s rid ch)) = svMesh s"
proof -
  have "svConnMgr (foldl f s ps) = svConnMgr s \<and> svMesh (foldl f s ps) = svMesh s"
    if "\<And>acc p. svConnMgr (f acc p) = svConnMgr acc \<and> svMesh (f acc p) = svMesh acc"
    for f :: "Server \<Rightarrow> pendingRequest \<Rightarrow> Server" and ps s
    using that by (induction ps arbitrary: s) simp_all
  from this[of "\<lambda>acc p. case fmlookup (svChans acc) (prCh p) of
      Some [] \<Rightarrow> acc\<lparr>svChans := fmupd (prCh p) [None] (svChans acc)\<rparr> | _ \<Rightarrow> acc"]
  show "svConnMgr (failPendingForConnection s c) = svConnMgr s" "svMesh (failPendingForConnection s c) = svMesh s"
    by (simp_all add: failPendingForConnection_def Let_def split: option.splits list.splits)
qed (simp_all add: handleHTTPTunnelResponse_def awaitReply_def cleanupRequest_def Let_def split: option.splits list.splits)

lemma dispatch_frame:
  "svConnMgr (fst (dispatchTunnelRequest s rid fate conn req)) = svConnMgr s"
  "svMesh (fst (dispatchTunnelRequest s rid fate conn req)) = svMesh s"
  by (auto simp: dispatchTunnelRequest_def beginDispatch_def cleanupRequest_def Let_def split: agentFate.splits)

lemma ServeForward_frame:
  "svConnMgr (fst (ServeForward s rid fate freq)) = fst (pickConn (svConnMgr s) (fqPlaneIdentifier freq) (fqCRKey freq)) \<and>
   svMesh (fst (ServeForward s rid fate freq)) = svMesh s"
proof -
  obtain cm picked where pick: "pickConn (svConnMgr s) (fqPlaneIdentifier freq) (fqCRKey freq) = (cm, picked)"
    by (cases "pickConn (svConnMgr s) (fqPlaneIdentifier freq) (fqCRKey freq)")
  show ?thesis
  proof (cases picked)
    case (Inl err)
    with pick show ?thesis by (simp add: ServeForward_def)
  next
    case (Inr conn)
    obtain s1 res where disp: "dispatchTunnelRequest (s\<lparr>svConnMgr := cm\<rparr>) rid fate conn (fqRequest freq) = (s1, res)"
      by (cases "dispatchTunnelRequest (s\<lparr>svConnMgr := cm\<rparr>) rid fate conn (fqRequest freq)")
    with dispatch_frame[of "s\<lparr>svConnMgr := cm\<rparr>" rid fate conn "fqRequest freq"] have "svConnMgr s1 = cm" "svMesh s1 = svMesh s"
      by simp_all
    with pick Inr disp show ?thesis by (cases res) (simp_all add: ServeForward_def)
  qed
qed

lemma pickConn_spec:
  "connections (fst (pickConn cm p cr)) = connections cm"
  "snd (pickConn cm p cr) = Inr conn \<Longrightarrow> cr \<noteq> [] \<Longrightarrow> conn \<in> set (connsOf cm p) \<and> IsValidForCR conn cr"
proof -
  have "xs ! (i mod length xs) \<in> set xs" if "xs \<noteq> []" for xs :: "AgentConnection list" and i
    using that by simp
  from this[of "filter (\<lambda>c. IsValidForCR c cr) (connsOf cm p)"]
  show "snd (pickConn cm p cr) = Inr conn \<Longrightarrow> cr \<noteq> [] \<Longrightarrow> conn \<in> set (connsOf cm p) \<and> IsValidForCR conn cr"
    by (auto simp: pickConn_def GetForCR_def Let_def split: if_splits)
qed (auto simp: pickConn_def Get_def GetForCR_def Let_def)

lemma ServeForward_spec:
  assumes "ServeForward s rid fate freq = (s', rsp, used)"
  shows "connections (svConnMgr s') = connections (svConnMgr s)"
    and "used = Some conn \<Longrightarrow> fqCRKey freq \<noteq> [] \<Longrightarrow>
           conn \<in> set (connsOf (svConnMgr s) (fqPlaneIdentifier freq)) \<and> IsValidForCR conn (fqCRKey freq)"
    and "fpNoAgent rsp \<longleftrightarrow> used = None" and "used = None \<Longrightarrow> fpResponse rsp = None"
proof -
  let ?pick = "pickConn (svConnMgr s) (fqPlaneIdentifier freq) (fqCRKey freq)"
  show "connections (svConnMgr s') = connections (svConnMgr s)"
    using ServeForward_frame[of s rid fate freq] assms pickConn_spec(1) by simp
  have "used = (case snd ?pick of Inl _ \<Rightarrow> None | Inr c \<Rightarrow> Some c)" "fpNoAgent rsp \<longleftrightarrow> used = None"
      "used = None \<Longrightarrow> fpResponse rsp = None"
    using assms by (auto simp: ServeForward_def split: prod.splits sum.splits)
  then show "fpNoAgent rsp \<longleftrightarrow> used = None" "used = None \<Longrightarrow> fpResponse rsp = None"
    "used = Some conn \<Longrightarrow> fqCRKey freq \<noteq> [] \<Longrightarrow>
       conn \<in> set (connsOf (svConnMgr s) (fqPlaneIdentifier freq)) \<and> IsValidForCR conn (fqCRKey freq)"
    using pickConn_spec(2)[of "svConnMgr s" "fqPlaneIdentifier freq" "fqCRKey freq" conn] by (auto split: sum.splits)
qed

lemma Forward_sent:
  assumes "Forward m fid owner sendErr freq = (m1, Inr (ch, corrID, frame))"
  shows "\<exists>freq'. fForwardReq frame = Some freq' \<and> fqCorrID freq' = corrID \<and> fqPlaneIdentifier freq' = fqPlaneIdentifier freq \<and>
           fqCRKey freq' = fqCRKey freq" and "fmlookup (mPending m1) corrID = Some \<lparr>pfCh = ch, pfOwner = owner\<rparr>"
    and "fmlookup (mChans m1) ch = Some []"
  using assms by (auto simp: Forward_def Let_def bareFrame_def split: option.splits if_splits)

lemma reply_received:
  assumes "fmlookup (mPending m) (fpCorrID rsp) = Some \<lparr>pfCh = ch, pfOwner = owner\<rparr>" and "fmlookup (mChans m) ch = Some []"
  shows "\<exists>m'. forwardReceive (fst (handleForwardRsp m rsp)) owner ch = Some (m', Inr rsp) \<and> mLocalEntries m' = mLocalEntries m"
  using assms by (simp add: handleForwardRsp_def forwardReceive_def)

lemma Forward_entries: "mLocalEntries (fst (Forward m fid owner sendErr freq)) = mLocalEntries m"
  by (auto simp: Forward_def Let_def split: option.splits)

text \<open>What one attempt tells: no agent was used unless the outcome is unknown or came from an owner that had one.\<close>

definition attemptOk ::
    "(string \<Rightarrow> Server) \<Rightarrow> Mesh \<Rightarrow> string \<Rightarrow> string \<Rightarrow> string \<Rightarrow>
     (string \<Rightarrow> Server) \<times> Mesh \<times> (meshError, ForwardResponse) result \<times> AgentConnection option \<Rightarrow> bool" where
  "attemptOk fleet m owner p cr out \<longleftrightarrow>
     (case out of (fleet', m', res, used) \<Rightarrow>
        mLocalEntries m' = mLocalEntries m \<and>
        (\<forall>q. connections (svConnMgr (fleet' q)) = connections (svConnMgr (fleet q))) \<and>
        (\<forall>conn. used = Some conn \<longrightarrow> cr \<noteq> [] \<longrightarrow> conn \<in> set (connsOf (svConnMgr (fleet owner)) p) \<and> IsValidForCR conn cr) \<and>
        (used \<noteq> None \<longrightarrow> (case res of Inl err \<Rightarrow> err = ErrForwardMayHaveExecuted owner | Inr rsp \<Rightarrow> \<not> fpNoAgent rsp)) \<and>
        (\<forall>rsp. res = Inr rsp \<longrightarrow> fpResponse rsp \<noteq> None \<longrightarrow> used \<noteq> None))"

lemma attempt_reaches:
  assumes "Forward m fid owner None freq = (m1, Inr (ch, corrID, frame))"
  shows "attemptOk fleet m owner (fqPlaneIdentifier freq) (fqCRKey freq)
           (forwardOnce fleet m fid (Reaches rid afate answered) owner freq)"
proof -
  obtain freq' where freq': "fForwardReq frame = Some freq'" "fqCorrID freq' = corrID"
      "fqPlaneIdentifier freq' = fqPlaneIdentifier freq" "fqCRKey freq' = fqCRKey freq"
    using Forward_sent(1)[OF assms] by blast
  obtain s' rsp used where serve: "ServeForward (fleet owner) rid afate freq' = (s', rsp, used)"
    using prod_cases3 by blast
  note served = ServeForward_spec[OF serve]
  have entries: "mLocalEntries m1 = mLocalEntries m"
    using Forward_entries[of m fid owner None freq] assms by simp
  show ?thesis
  proof (cases answered)
    case False
    with assms freq' serve served entries show ?thesis
      by (auto simp: forwardOnce_def forwardCancelled_def attemptOk_def)
  next
    case True
    let ?rsp = "rsp\<lparr>fpCorrID := corrID\<rparr>"
    obtain m2 where m2: "forwardReceive (fst (handleForwardRsp m1 ?rsp)) owner ch = Some (m2, Inr ?rsp)" "mLocalEntries m2 = mLocalEntries m1"
      using reply_received[of m1 ?rsp ch owner] Forward_sent(2,3)[OF assms] by auto
    then have "forwardOnce fleet m fid (Reaches rid afate answered) owner freq = (fleet(owner := s'), m2, Inr ?rsp, used)"
      using True assms freq'(1,2) serve by (simp add: forwardOnce_def case_prod_beta Let_def)
    with served m2(2) entries freq'(3,4) show ?thesis
      by (auto simp: attemptOk_def)
  qed
qed

lemma forwardOnce_ok: "attemptOk fleet m owner (fqPlaneIdentifier freq) (fqCRKey freq) (forwardOnce fleet m fid fate owner freq)"
proof -
  let ?err = "case fate of WriteFails err \<Rightarrow> Some err | _ \<Rightarrow> None"
  obtain m1 r where fwd: "Forward m fid owner ?err freq = (m1, r)" by (cases "Forward m fid owner ?err freq")
  have entries: "mLocalEntries m1 = mLocalEntries m"
    using Forward_entries[of m fid owner ?err freq] fwd by simp
  show ?thesis
  proof (cases r)
    case (Inl err)
    with fwd entries show ?thesis by (simp add: forwardOnce_def attemptOk_def)
  next
    case (Inr sent)
    then obtain ch corrID frame where sent: "r = Inr (ch, corrID, frame)" by (cases sent) auto
    show ?thesis
    proof (cases fate)
      case (Reaches rid afate answered)
      with attempt_reaches[of m fid owner freq m1 ch corrID frame] fwd sent show ?thesis by simp
    qed (use fwd sent entries in \<open>simp_all add: forwardOnce_def forwardCancelled_def attemptOk_def\<close>)
  qed
qed

definition dispatchedOk :: "(string \<Rightarrow> Server) \<Rightarrow> string \<Rightarrow> string \<Rightarrow> HTTPTunnelRequest \<Rightarrow> (string \<times> AgentConnection) list \<Rightarrow> bool" where
  "dispatchedOk fleet p cr req log \<longleftrightarrow>
     (\<not> isSafeHTTPMethod (trMethod req) \<longrightarrow> length log \<le> 1) \<and>
     (\<forall>(owner, conn) \<in> set log. conn \<in> set (connsOf (svConnMgr (fleet owner)) p) \<and> IsValidForCR conn cr)"

definition loopOk ::
    "(string \<Rightarrow> Server) \<Rightarrow> Mesh \<Rightarrow> string \<Rightarrow> string \<Rightarrow> HTTPTunnelRequest \<Rightarrow> nat \<Rightarrow>
     (string \<Rightarrow> Server) \<times> Mesh \<times> (forwardError, HTTPTunnelResponse \<times> string) result \<times> (string \<times> AgentConnection) list \<Rightarrow> bool" where
  "loopOk fleet m p cr req n out \<longleftrightarrow>
     (case out of (fleet', m', res, log) \<Rightarrow>
        mLocalEntries m' = mLocalEntries m \<and> dispatchedOk fleet p cr req log \<and> length log \<le> n \<and>
        (\<forall>resp owner. res = Inr (resp, owner) \<longrightarrow> log \<noteq> [] \<and> fst (last log) = owner))"

lemma loopOk_retry:
  assumes "loopOk fleet1 m1 p cr req n (fleet2, m2, res, log)"
    and "mLocalEntries m1 = mLocalEntries m"
    and "\<And>q. connections (svConnMgr (fleet1 q)) = connections (svConnMgr (fleet q))"
    and "\<And>conn. used = Some conn \<Longrightarrow> conn \<in> set (connsOf (svConnMgr (fleet owner)) p) \<and> IsValidForCR conn cr"
    and "used \<noteq> None \<Longrightarrow> isSafeHTTPMethod (trMethod req)"
  shows "loopOk fleet m p cr req (Suc n) (fleet2, m2, res, (case used of None \<Rightarrow> [] | Some conn \<Rightarrow> [(owner, conn)]) @ log)"
proof -
  have "connsOf (svConnMgr (fleet1 q)) p = connsOf (svConnMgr (fleet q)) p" for q
    using assms(3) by (rule connsOf_cong)
  with assms(1,2,4,5) show ?thesis
    by (cases used) (auto simp: loopOk_def dispatchedOk_def)
qed

lemma loopOk_stop:
  assumes "mLocalEntries m1 = mLocalEntries m"
    and "\<And>conn. used = Some conn \<Longrightarrow> conn \<in> set (connsOf (svConnMgr (fleet owner)) p) \<and> IsValidForCR conn cr"
    and "\<And>resp by'. res = Inr (resp, by') \<Longrightarrow> used \<noteq> None \<and> by' = owner"
  shows "loopOk fleet m p cr req (Suc n) (fleet1, m1, res, (case used of None \<Rightarrow> [] | Some conn \<Rightarrow> [(owner, conn)]))"
  using assms by (cases used) (auto simp: loopOk_def dispatchedOk_def)

lemma forwardLoop_ok:
  assumes cr: "cr \<noteq> []"
  shows "loopOk fleet m p cr req (length attempts) (forwardLoop p cr req timeout attempts lastErr fleet m)"
proof (induction attempts arbitrary: lastErr fleet m)
  case Nil
  show ?case by (simp add: loopOk_def dispatchedOk_def)
next
  case (Cons attempt attempts)
  obtain cand fid fate where attempt: "attempt = (cand, fid, fate)" by (cases attempt)
  let ?freq = "\<lparr>fqCorrID = [], fqPlaneIdentifier = p, fqCRKey = cr, fqTimeoutMillis = timeout, fqRequest = req\<rparr>"
  let ?owner = "raOwner cand"
  obtain fleet1 m1 res used where once: "forwardOnce fleet m fid fate ?owner ?freq = (fleet1, m1, res, used)"
    using prod_cases4 by blast
  have ok: "mLocalEntries m1 = mLocalEntries m"
      "\<And>q. connections (svConnMgr (fleet1 q)) = connections (svConnMgr (fleet q))"
      "\<And>conn. used = Some conn \<Longrightarrow> conn \<in> set (connsOf (svConnMgr (fleet ?owner)) p) \<and> IsValidForCR conn cr"
      "used \<noteq> None \<Longrightarrow> case res of Inl err \<Rightarrow> err = ErrForwardMayHaveExecuted ?owner | Inr rsp \<Rightarrow> \<not> fpNoAgent rsp"
      "\<And>rsp. res = Inr rsp \<Longrightarrow> fpResponse rsp \<noteq> None \<Longrightarrow> used \<noteq> None"
    using forwardOnce_ok[of fleet m ?owner ?freq fid fate] once cr by (auto simp: attemptOk_def)
  show ?case
  proof (cases res)
    case (Inl err)
    show ?thesis
    proof (cases "forwardIsSafeToRetry err req")
      case True
      with ok(4) Inl have safe: "used \<noteq> None \<Longrightarrow> isSafeHTTPMethod (trMethod req)"
        by (auto simp: forwardIsSafeToRetry_def)
      from loopOk_retry[of fleet1 m1 p cr req _ _ _ _ _ m fleet used ?owner, OF _ ok(1,2,3) safe] Cons.IH[of fleet1 m1 "MeshError err"] Inl True once show ?thesis
        by (auto simp: attempt Let_def split: prod.splits)
    next
      case False
      with loopOk_stop[of m1 m used fleet ?owner p cr, OF ok(1,3)] Inl once show ?thesis by (auto simp: attempt Let_def)
    qed
  next
    case (Inr rsp)
    show ?thesis
    proof (cases "fpResponse rsp")
      case (Some response)
      with loopOk_stop[of m1 m used fleet ?owner p cr "Inr (response, ?owner)" req "length attempts" fleet1, OF ok(1,3)]
        ok(5)[OF Inr] Inr once show ?thesis by (auto simp: attempt Let_def)
    next
      case None
      show ?thesis
      proof (cases "\<not> fpNoAgent rsp \<and> \<not> isSafeHTTPMethod (trMethod req)")
        case True
        with loopOk_stop[of m1 m used fleet ?owner p cr, OF ok(1,3)] None Inr once show ?thesis by (auto simp: attempt Let_def)
      next
        case False
        with ok(4) Inr have safe: "used \<noteq> None \<Longrightarrow> isSafeHTTPMethod (trMethod req)" by auto
        from loopOk_retry[of fleet1 m1 p cr req _ _ _ _ _ m fleet used ?owner, OF _ ok(1,2,3) safe] Cons.IH[of fleet1 m1 "OwnerFailed ?owner"] Inr None False once show ?thesis
          by (auto simp: attempt Let_def split: prod.splits)
      qed
    qed
  qed
qed

lemma forwardAttempts_length: "length (forwardAttempts cands) \<le> 2"
  by (auto simp: forwardAttempts_def split: list.splits option.splits)

lemma forwardViaMesh_ok:
  assumes "cr \<noteq> []" and "forwardViaMesh fleet s p cr req timeout fates = (fleet', s', res, log)"
  shows "svConnMgr s' = svConnMgr s \<and> map_option mLocalEntries (svMesh s') = map_option mLocalEntries (svMesh s) \<and>
         dispatchedOk fleet p cr req log \<and> length log \<le> 2 \<and>
         (\<forall>resp owner. res = Inr (resp, owner) \<longrightarrow> log \<noteq> [] \<and> fst (last log) = owner)"
proof (cases "svMesh s")
  case None
  with assms show ?thesis by (auto simp: forwardViaMesh_def dispatchedOk_def)
next
  case (Some m)
  obtain r cands where look: "Lookup (mRegistry m) p cr = (r, cands)" by (cases "Lookup (mRegistry m) p cr")
  show ?thesis
  proof (cases "cands = []")
    case True
    with Some look assms show ?thesis by (auto simp: forwardViaMesh_def dispatchedOk_def)
  next
    case False
    let ?atts = "zip (forwardAttempts cands) [fates 0, fates 1]"
    obtain f1 m1 r1 l1 where loop: "forwardLoop p cr req timeout ?atts (NoRemoteAgents p) fleet (m\<lparr>mRegistry := r\<rparr>) = (f1, m1, r1, l1)"
      using prod_cases4 by blast
    have "loopOk fleet (m\<lparr>mRegistry := r\<rparr>) p cr req (length ?atts) (f1, m1, r1, l1)"
      using forwardLoop_ok[OF assms(1)] loop by metis
    moreover have "length ?atts \<le> 2" by simp
    ultimately show ?thesis
      using Some look False loop assms(2) by (auto simp: forwardViaMesh_def loopOk_def Let_def)
  qed
qed

lemma SendForCR_ok:
  assumes "cr \<noteq> []" and "SendHTTPTunnelRequestForCR fleet s host p cr req timeout fid fate fates = (fleet', s', res, log)"
  shows "svConnMgr s' = fst (GetForCR (svConnMgr s) p cr)"
    and "map_option mLocalEntries (svMesh s') = map_option mLocalEntries (svMesh s)"
    and "\<not> isSafeHTTPMethod (trMethod req) \<Longrightarrow> length log \<le> 1" and "length log \<le> 2"
    and "(owner, conn) \<in> set log \<Longrightarrow> IsValidForCR conn cr \<and>
           (conn \<in> set (connsOf (svConnMgr s) p) \<or> conn \<in> set (connsOf (svConnMgr (fleet owner)) p))"
    and "res = Inr (resp, servedBy) \<Longrightarrow> log \<noteq> [] \<and> fst (last log) = servedBy"
proof -
  obtain cm got where get: "GetForCR (svConnMgr s) p cr = (cm, got)" by (cases "GetForCR (svConnMgr s) p cr")
  have "svConnMgr s' = cm \<and> map_option mLocalEntries (svMesh s') = map_option mLocalEntries (svMesh s) \<and>
      (\<not> isSafeHTTPMethod (trMethod req) \<longrightarrow> length log \<le> 1) \<and> length log \<le> 2 \<and>
      ((owner, conn) \<in> set log \<longrightarrow> IsValidForCR conn cr \<and>
         (conn \<in> set (connsOf (svConnMgr s) p) \<or> conn \<in> set (connsOf (svConnMgr (fleet owner)) p))) \<and>
      (res = Inr (resp, servedBy) \<longrightarrow> log \<noteq> [] \<and> fst (last log) = servedBy)"
  proof (cases got)
    case (Inl err)
    obtain f1 s1 r1 l1 where via: "forwardViaMesh fleet (s\<lparr>svConnMgr := cm\<rparr>) p cr req timeout fates = (f1, s1, r1, l1)"
      using prod_cases4 by blast
    from forwardViaMesh_ok[OF assms(1) via] via Inl get assms(2) show ?thesis
      by (cases r1) (auto simp: SendHTTPTunnelRequestForCR_def dispatchedOk_def)
  next
    case (Inr c)
    have c: "c \<in> set (connsOf (svConnMgr s) p) \<and> IsValidForCR c cr"
      using pickConn_spec(2)[of "svConnMgr s" p cr c] get Inr assms(1) by (simp add: pickConn_def)
    obtain s1 r1 where disp: "dispatchTunnelRequest (s\<lparr>svConnMgr := cm\<rparr>) fid fate c req = (s1, r1)"
      by (cases "dispatchTunnelRequest (s\<lparr>svConnMgr := cm\<rparr>) fid fate c req")
    with dispatch_frame[of "s\<lparr>svConnMgr := cm\<rparr>" fid fate c req] have "svConnMgr s1 = cm" "svMesh s1 = svMesh s" by simp_all
    with c disp Inr get assms(2) show ?thesis
      by (auto simp: SendHTTPTunnelRequestForCR_def bindR_eq_Inr selfID_def)
  qed
  with get show "svConnMgr s' = fst (GetForCR (svConnMgr s) p cr)"
    "map_option mLocalEntries (svMesh s') = map_option mLocalEntries (svMesh s)"
    "\<not> isSafeHTTPMethod (trMethod req) \<Longrightarrow> length log \<le> 1" "length log \<le> 2"
    "(owner, conn) \<in> set log \<Longrightarrow> IsValidForCR conn cr \<and>
       (conn \<in> set (connsOf (svConnMgr s) p) \<or> conn \<in> set (connsOf (svConnMgr (fleet owner)) p))"
    "res = Inr (resp, servedBy) \<Longrightarrow> log \<noteq> [] \<and> fst (last log) = servedBy" by auto
qed

end
