(* ===== verification/Gateway_Properties.thy ===== *)
theory Gateway_Properties
  imports Gateway_Facts
begin

text \<open>
  The properties of the cluster gateway: admission of agents, publication of connections to the mesh,
  routing of requests, and rebalancing.
\<close>

subsection \<open>Admission\<close>

text \<open>The CR of a plane with its key, and the authority it configures.\<close>

definition planeCRs :: "k8sReader \<Rightarrow> string \<Rightarrow> planeInfo list" where
  "planeCRs K planeType =
     (let infos = (\<lambda>kind f. case listPlanes K kind of Inl _ \<Rightarrow> [] | Inr items \<Rightarrow> List.map_filter f items) in
      if planeType = planeTypeDataPlane then infos DataPlane dataPlaneInfo @ infos ClusterDataPlane clusterDataPlaneInfo
      else if planeType = planeTypeWorkflowPlane then infos WorkflowPlane workflowPlaneInfo @ infos ClusterWorkflowPlane clusterWorkflowPlaneInfo
      else if planeType = planeTypeObservabilityPlane
      then infos ObservabilityPlane obsPlaneInfo @ infos ClusterObservabilityPlane clusterObsPlaneInfo
      else [])"

definition crKeyOf :: "planeInfo \<Rightarrow> string" where
  "crKeyOf info = piNamespace info @ ''/'' @ piName info"

definition caOf :: "k8sReader \<Rightarrow> planeInfo \<Rightarrow> string option" where
  "caOf K info = (case extractCAFromPlane K (piAgent info) (piNamespace info) of Inr (Some ca) \<Rightarrow> Some ca | _ \<Rightarrow> None)"

text \<open>The entry a CR contributes, and the map a list of CRs gives.\<close>

definition planeEntry :: "k8sReader \<Rightarrow> string \<Rightarrow> planeInfo \<Rightarrow> (string, string option) fmap \<Rightarrow> (string, string option) fmap" where
  "planeEntry K planeID info res =
     (if piPlaneID info \<noteq> planeID then res
      else (case extractCAFromPlane K (piAgent info) (piNamespace info) of Inl _ \<Rightarrow> res | Inr ca \<Rightarrow> fmupd (crKeyOf info) ca res))"

lemma addPlaneCA_eq:
  "addPlaneCA K planeID f res item = (case f item of None \<Rightarrow> res | Some info \<Rightarrow> planeEntry K planeID info res)"
  by (auto simp: addPlaneCA_def planeEntry_def crKeyOf_def split: option.splits sum.splits)

lemma extract_eq:
  "foldl (addPlaneCA K planeID f) res items = foldl (\<lambda>r info. planeEntry K planeID info r) res (List.map_filter f items)"
  by (induction items arbitrary: res) (auto simp: addPlaneCA_eq map_filter_simps split: option.splits)

lemma planeEntry_add:
  "foldl (\<lambda>r info. planeEntry K planeID info r) res infos = res ++\<^sub>f foldl (\<lambda>r info. planeEntry K planeID info r) fmempty infos"
proof (induction infos rule: rev_induct)
  case (snoc info infos)
  then show ?case by (auto simp: planeEntry_def split: sum.splits)
qed simp

lemma getAll_eq:
  "getAllPlaneClientCAs K planeType planeID = Inr cas \<Longrightarrow>
     cas = foldl (\<lambda>r info. planeEntry K planeID info r) fmempty (planeCRs K planeType)"
  by (auto simp: getAllPlaneClientCAs_def bothScopes_def extractPlaneClientCAs_def planeCRs_def Let_def bindR_eq_Inr
      extract_eq planeTypeDataPlane_def planeTypeWorkflowPlane_def planeTypeObservabilityPlane_def
      intro: planeEntry_add[symmetric] split: sum.splits if_splits)

lemma entries_lookup:
  assumes "distinct (map crKeyOf infos)"
  shows "fmlookup (foldl (\<lambda>r info. planeEntry K planeID info r) fmempty infos) k = Some ca \<longleftrightarrow>
    (\<exists>info \<in> set infos. crKeyOf info = k \<and> piPlaneID info = planeID \<and> extractCAFromPlane K (piAgent info) (piNamespace info) = Inr ca)"
  using assms
proof (induction infos rule: rev_induct)
  case Nil
  then show ?case by simp
next
  case (snoc info infos)
  then show ?case
    by (auto simp: planeEntry_def split: sum.splits if_splits) (metis image_eqI)+
qed

lemma entries_keys:
  "fmlookup (foldl (\<lambda>r info. planeEntry K planeID info r) fmempty infos) k = Some ca \<Longrightarrow> CHR ''/'' \<in> set k"
  by (induction infos rule: rev_induct) (auto simp: planeEntry_def crKeyOf_def split: sum.splits if_splits)

lemma verify_keys:
  assumes "verifyClientCertificatePerCR X K cert pool planeType planeID = Inr crs"
  shows "crs \<noteq> []" and "[] \<notin> set crs"
proof -
  obtain cas where cas: "getAllPlaneClientCAs K planeType planeID = Inr cas"
    using assms by (auto simp: verifyClientCertificatePerCR_def split: sum.splits)
  with assms have crs: "crs = map fst (filter (\<lambda>(k, ca). certValidFor X cert pool ca) (sorted_list_of_fmap cas))" "crs \<noteq> []"
    by (auto simp: verifyClientCertificatePerCR_def Let_def split: if_splits)
  then show "crs \<noteq> []" by simp
  show "[] \<notin> set crs"
    using crs(1) entries_keys getAll_eq[OF cas] by (fastforce simp: set_sorted_list_of_fmap)
qed

lemma caOf_Some: "caOf K info = Some ca \<longleftrightarrow> extractCAFromPlane K (piAgent info) (piNamespace info) = Inr (Some ca)"
  by (auto simp: caOf_def split: sum.splits option.splits)

lemma verify_exact:
  assumes "verifyClientCertificatePerCR X K cert pool planeType planeID = Inr crs" and "distinct (map crKeyOf (planeCRs K planeType))"
  shows "k \<in> set crs \<longleftrightarrow> (\<exists>info \<in> set (planeCRs K planeType). crKeyOf info = k \<and> piPlaneID info = planeID \<and>
           (\<exists>ca. caOf K info = Some ca \<and> certValidFor X cert pool (Some ca)))"
proof -
  obtain cas where cas: "getAllPlaneClientCAs K planeType planeID = Inr cas"
    using assms by (auto simp: verifyClientCertificatePerCR_def split: sum.splits)
  with assms(1) have crs: "crs = map fst (filter (\<lambda>(k, ca). certValidFor X cert pool ca) (sorted_list_of_fmap cas))"
    by (auto simp: verifyClientCertificatePerCR_def Let_def split: if_splits)
  have "k \<in> set crs \<longleftrightarrow> (\<exists>ca. fmlookup cas k = Some ca \<and> certValidFor X cert pool ca)"
    unfolding crs by (simp add: image_iff Bex_def set_sorted_list_of_fmap)
  also have "\<dots> \<longleftrightarrow> (\<exists>ca. fmlookup cas k = Some (Some ca) \<and> certValidFor X cert pool (Some ca))"
    by (simp add: split_option_ex certValidFor_def)
  also have "\<dots> \<longleftrightarrow> (\<exists>info \<in> set (planeCRs K planeType). crKeyOf info = k \<and> piPlaneID info = planeID \<and>
      (\<exists>ca. caOf K info = Some ca \<and> certValidFor X cert pool (Some ca)))"
    unfolding getAll_eq[OF cas] entries_lookup[OF assms(2)] caOf_Some by blast
  finally show ?thesis .
qed

lemma Register_id [simp]: "snd (Register cm connID now planeType planeID crs cert ints) = connID"
  by (simp add: Register_def Let_def)

lemma handleWebSocket_connected:
  assumes "handleWebSocket X K poolOf s planeType planeID auth upgraded connID now = (s', Connected c)"
  shows "\<exists>creds crs. auth = Inr creds \<and> upgraded \<and> c = connID \<and>
    planeType \<in> {planeTypeDataPlane, planeTypeWorkflowPlane, planeTypeObservabilityPlane} \<and>
    verifyClientCertificatePerCR X K (crClientCert creds) (buildIntermediatePool poolOf (crIntermediates creds)) planeType planeID = Inr crs \<and>
    s' = withManager s (fst (Register (svConnMgr s) connID now planeType planeID crs (crClientCert creds)
      (buildIntermediatePool poolOf (crIntermediates creds))))"
proof (cases auth)
  case (Inl err)
  with assms show ?thesis by (auto simp: handleWebSocket_def split: if_splits)
next
  case (Inr creds)
  let ?v = "verifyClientCertificatePerCR X K (crClientCert creds) (buildIntermediatePool poolOf (crIntermediates creds)) planeType planeID"
  show ?thesis
    using assms Inr by (cases ?v) (auto simp: handleWebSocket_def Let_def case_prod_beta split: if_splits)
qed

lemma handleWebSocket_rejected:
  assumes "handleWebSocket X K poolOf s planeType planeID auth upgraded connID now = (s', outcome)" and "\<And>c. outcome \<noteq> Connected c"
  shows "s' = s"
  using assms by (auto simp: handleWebSocket_def Let_def case_prod_beta split: if_splits sum.splits)

text \<open>C6: Admission of an agent. A connection is accepted only with a certificate and for one of the three kinds of
  plane; it is then registered once, under a plane identifier made of the kind and the plane's name, with
  authorisations for exactly those CRs that name this plane and whose own certificate authority
  verifies the certificate, and at least one. In every other case the gateway's state does not change.\<close>

theorem admitted_agents_are_verified:
  assumes "handleWebSocket X K poolOf s planeType planeID auth upgraded connID now = (s', outcome)"
    and "distinct (map crKeyOf (planeCRs K planeType))"
  shows "(s' = s \<and> (\<forall>c. outcome \<noteq> Connected c)) \<or>
    (outcome = Connected connID \<and> planeType \<in> {''dataplane'', ''workflowplane'', ''observabilityplane''} \<and> upgraded \<and>
     (\<exists>creds new. auth = Inr creds \<and>
        connsOf (svConnMgr s') (planeIdentifierOf planeType planeID) = connsOf (svConnMgr s) (planeIdentifierOf planeType planeID) @ [new] \<and>
        (\<forall>q. q \<noteq> planeIdentifierOf planeType planeID \<longrightarrow> connsOf (svConnMgr s') q = connsOf (svConnMgr s) q) \<and>
        acID new = connID \<and> acClientCert new = crClientCert creds \<and> acValidCRs new \<noteq> [] \<and>
        (\<forall>cr. IsValidForCR new cr \<longleftrightarrow>
           (\<exists>info \<in> set (planeCRs K planeType). crKeyOf info = cr \<and> piPlaneID info = planeID \<and>
              (\<exists>ca. caOf K info = Some ca \<and>
                certValidFor X (crClientCert creds) (buildIntermediatePool poolOf (crIntermediates creds)) (Some ca))))))"
proof (cases "\<exists>c. outcome = Connected c")
  case False
  with assms(1) handleWebSocket_rejected show ?thesis by blast
next
  case True
  let ?p = "planeIdentifierOf planeType planeID"
  from True assms(1) handleWebSocket_connected[of X K poolOf s planeType planeID auth upgraded connID now s']
  obtain creds crs where ok: "auth = Inr creds" "upgraded" "outcome = Connected connID"
      "planeType \<in> {planeTypeDataPlane, planeTypeWorkflowPlane, planeTypeObservabilityPlane}"
    and crs: "verifyClientCertificatePerCR X K (crClientCert creds)
      (buildIntermediatePool poolOf (crIntermediates creds)) planeType planeID = Inr crs"
    and s': "s' = withManager s (fst (Register (svConnMgr s) connID now planeType planeID crs (crClientCert creds)
      (buildIntermediatePool poolOf (crIntermediates creds))))"
    by auto
  obtain new where "connsOf (svConnMgr s') ?p = connsOf (svConnMgr s) ?p @ [new]" "acID new = connID" "acValidCRs new = crs"
      "acClientCert new = crClientCert creds" "\<And>q. q \<noteq> ?p \<Longrightarrow> connsOf (svConnMgr s') q = connsOf (svConnMgr s) q"
    unfolding s' by (auto simp: withManager_def Register_def Let_def connsOf_cong[OF notify_frame(1)] intro: that)
  with verify_exact[OF crs assms(2)] verify_keys[OF crs] ok show ?thesis
    by (auto simp: IsValidForCR_def planeTypeDataPlane_def planeTypeWorkflowPlane_def planeTypeObservabilityPlane_def)
qed

subsection \<open>Publication\<close>

text \<open>
  The steps of a replica: agents connect and disconnect, requests are sent and served, plane events
  arrive, and the mesh works on its own, which never touches the entries of the replica itself.

  \<open>RevalidateCR\<close> copies the list of connections and then works without the manager's lock. Beside the plane
  events, in which a whole re-validation is one step, each of its turns is a step of its own (\<open>turn\<close>), for any
  authority and CR, and so is the removal of a counter at its end (\<open>cleanup\<close>); the turns of one or several
  re-validations may come in any order among all other steps. Left out are turns for a connection that
  has ended after the copy was taken. A turn changes the authorisations of the connection and publishes them.
\<close>

inductive serverStep :: "x509 \<Rightarrow> k8sReader \<Rightarrow> (string list \<Rightarrow> string) \<Rightarrow> Server \<Rightarrow> Server \<Rightarrow> bool" for X K poolOf where
  connect: "(\<And>p. connID \<notin> acID ` set (connsOf (svConnMgr s) p)) \<Longrightarrow>
    serverStep X K poolOf s (fst (handleWebSocket X K poolOf s planeType planeID auth upgraded connID now))"
| ended: "serverStep X K poolOf s (connectionEnded s p connID)"
| seen: "serverStep X K poolOf s (withManager s (UpdateConnectionLastSeen (svConnMgr s) now p connID))"
| response: "serverStep X K poolOf s (handleHTTPTunnelResponse s connID resp)"
| request: "cr \<noteq> [] \<Longrightarrow> SendHTTPTunnelRequestForCR fleet s host p cr req timeout fid fate fates = (fleet', s', res, log) \<Longrightarrow>
    serverStep X K poolOf s s'"
| serve: "serverStep X K poolOf s (fst (ServeForward s rid fate freq))"
| event: "serverStep X K poolOf s (ApplyPlaneEvent X K s ev)"
| notification: "serverStep X K poolOf s (fst (handlePlaneNotification X K s ev))"
| reconnect: "serverStep X K poolOf s (fst (handleReconnect s planeType planeID))"
| turn: "conn \<in> set (connsOf (svConnMgr s) p) \<Longrightarrow> serverStep X K poolOf s (revalidateTurn X s p cr pool conn)"
| cleanup: "serverStep X K poolOf s (revalidateCleanup s p cr)"
| mesh: "svMesh s = Some m \<Longrightarrow> mLocalEntries m' = mLocalEntries m \<Longrightarrow> serverStep X K poolOf s (s\<lparr>svMesh := Some m'\<rparr>)"

inductive serverReachable :: "x509 \<Rightarrow> k8sReader \<Rightarrow> (string list \<Rightarrow> string) \<Rightarrow> Server \<Rightarrow> bool" for X K poolOf where
  start: "serverReachable X K poolOf (SetFabric New (NewMesh self NewRegistry))"
| step: "serverReachable X K poolOf s \<Longrightarrow> serverStep X K poolOf s s' \<Longrightarrow> serverReachable X K poolOf s'"

definition serverOk :: "Server \<Rightarrow> bool" where
  "serverOk s \<longleftrightarrow> hasListener (svConnMgr s) \<and> idsOk (svConnMgr s) \<and>
     (\<exists>m. svMesh s = Some m \<and> mirrors (svConnMgr s) (mLocalEntries m))"

lemma withManager_ok:
  assumes "serverOk s" and "announces (svConnMgr s) cm" and "idsOk cm"
  shows "serverOk (withManager s cm)"
  using assms mesh_listener.stays_mirrored[OF assms(2)]
  by (auto simp: serverOk_def withManager_def announces_def)

text \<open>Identifiers stay unique: no call but \<open>Register\<close> adds one.\<close>

lemma disjoint_mono: "A \<inter> B = {} \<Longrightarrow> A' \<subseteq> A \<Longrightarrow> B' \<subseteq> B \<Longrightarrow> A' \<inter> B' = {}"
  by blast

lemma idsOk_subseq:
  assumes "idsOk cm" and "\<And>q. subseq (map acID (connsOf cm' q)) (map acID (connsOf cm q))"
  shows "idsOk cm'"
proof -
  have "acID ` set (connsOf cm' q) \<subseteq> acID ` set (connsOf cm q) \<and> distinct (map acID (connsOf cm' q))" for q
  proof -
    obtain N where N: "map acID (connsOf cm' q) = nths (map acID (connsOf cm q)) N" using assms(2)[of q] by (auto simp: subseq_conv_nths)
    moreover have "distinct (map acID (connsOf cm q))" using assms(1) by (simp add: idsOk_def)
    ultimately show ?thesis using set_nths_subset[of "map acID (connsOf cm q)" N] by (metis distinct_nthsI list.set_map)
  qed
  note part = this
  show ?thesis
    unfolding idsOk_def
  proof (intro conjI allI impI)
    fix q r :: string assume "q \<noteq> r"
    from idsOk_disjoint[OF assms(1) this] part[of q] part[of r]
    show "acID ` set (connsOf cm' q) \<inter> acID ` set (connsOf cm' r) = {}" by (elim conjE) (rule disjoint_mono)
  qed (use part in blast)
qed

lemma subseq_without: "subseq (xs @ ys) (xs @ x # ys)"
  by (induction xs) auto

lemma Unregister_ids: "idsOk cm \<Longrightarrow> idsOk (Unregister cm p connID)"
proof (rule idsOk_subseq)
  fix q
  show "subseq (map acID (connsOf (Unregister cm p connID) q)) (map acID (connsOf cm q))"
    by (auto simp: Unregister_def Let_def connsOf_def split: option.splits dest!: splitAtID_Some intro: subseq_without)
qed

lemma Disconnect_ids: "idsOk cm \<Longrightarrow> idsOk (fst (DisconnectAllForPlane cm planeType planeID))"
  by (erule idsOk_subseq) (auto simp: DisconnectAllForPlane_def Let_def connsOf_def split: option.splits)

lemma LastSeen_ids: "idsOk cm \<Longrightarrow> idsOk (UpdateConnectionLastSeen cm now p connID)"
  by (erule idsOk_subseq)
    (auto simp: UpdateConnectionLastSeen_def connsOf_def split: option.splits dest!: splitAtID_Some)

lemma Revalidate_ids:
  assumes "idsOk cm"
  shows "idsOk (fst (RevalidateCR X cm planeType planeID ns name ca))"
proof (cases "connsOf cm (planeIdentifierOf planeType planeID) = [] \<or> parsePool X ca = None")
  case True
  with assms show ?thesis by (auto simp: RevalidateCR_def Let_def)
next
  case False
  let ?p = "planeIdentifierOf planeType planeID" and ?cr = "ns @ ''/'' @ name"
  let ?cm = "fst (RevalidateCR X cm planeType planeID ns name ca)"
  obtain pool where pool: "parsePool X ca = Some pool" using False by auto
  obtain cs updated removed evs where rev: "revalidateConns X ?p ?cr pool (connsOf cm ?p) = (cs, updated, removed, evs)"
    using prod_cases4 by blast
  have "connections ?cm = fmupd ?p cs (connections cm)"
    using False rev pool by (simp add: RevalidateCR_def Let_def)
  moreover have "map acID cs = map acID (connsOf cm ?p)"
    using revalidateConns_map[of X ?p ?cr pool "connsOf cm ?p"] rev by simp
  ultimately have "map acID (connsOf ?cm q) = map acID (connsOf cm q)" for q by (simp add: connsOf_def)
  then show ?thesis using idsOk_subseq[OF assms] by simp
qed

lemma pick_ids: "idsOk cm \<Longrightarrow> idsOk (fst (pickConn cm p cr))"
  by (erule idsOk_subseq) (simp add: connsOf_def pickConn_spec(1))

lemma Register_ids:
  assumes "idsOk cm" and "\<And>p. connID \<notin> acID ` set (connsOf cm p)"
  shows "idsOk (fst (Register cm connID now planeType planeID crs cert ints))"
proof -
  let ?p = "planeIdentifierOf planeType planeID" and ?cm = "fst (Register cm connID now planeType planeID crs cert ints)"
  obtain new where conns: "\<And>q. connsOf ?cm q = (if q = ?p then connsOf cm ?p @ [new] else connsOf cm q)" and new: "acID new = connID"
    by (auto simp: Register_def Let_def connsOf_cong[OF notify_frame(1)] intro: that)
  show ?thesis
  proof (rule idsOk_update[OF assms(1) conns])
    show "distinct (map acID (connsOf cm ?p @ [new]))" using assms new by (simp add: idsOk_def)
    fix q assume "q \<noteq> ?p"
    then show "acID ` set (connsOf cm ?p @ [new]) \<inter> acID ` set (connsOf cm q) = {}"
      using idsOk_disjoint[OF assms(1), of ?p q] assms(2)[of q] new by auto
  qed
qed

lemmas kept_ids = Unregister_ids Disconnect_ids LastSeen_ids Revalidate_ids pick_ids Register_ids

lemma managed_ok:
  assumes "serverOk s"
  shows "serverOk (withManager s (Unregister (svConnMgr s) p connID))"
    "serverOk (withManager s (UpdateConnectionLastSeen (svConnMgr s) now p connID))"
    "serverOk (withManager s (fst (DisconnectAllForPlane (svConnMgr s) planeType planeID)))"
    "serverOk (withManager s (fst (RevalidateCR X (svConnMgr s) planeType planeID ns name ca)))"
proof -
  have ok: "hasListener (svConnMgr s)" "idsOk (svConnMgr s)"
    using assms by (auto simp: serverOk_def)
  show "serverOk (withManager s (Unregister (svConnMgr s) p connID))"
    "serverOk (withManager s (UpdateConnectionLastSeen (svConnMgr s) now p connID))"
    "serverOk (withManager s (fst (DisconnectAllForPlane (svConnMgr s) planeType planeID)))"
    "serverOk (withManager s (fst (RevalidateCR X (svConnMgr s) planeType planeID ns name ca)))"
    by (rule withManager_ok[OF assms]; auto intro!: kept_ids Unregister_announces silent_announces Disconnect_announces
        Revalidate_announces simp: ok)+
qed

lemma propagatePlaneEvent_ok: "serverOk s \<Longrightarrow> serverOk (propagatePlaneEvent s ev)"
proof -
  have "mLocalEntries (BroadcastPlaneEvent m ev) = mLocalEntries m" for m
    by (simp add: BroadcastPlaneEvent_def enqueueLocked_def)
  then show "serverOk s \<Longrightarrow> serverOk (propagatePlaneEvent s ev)"
    by (auto simp: serverOk_def propagatePlaneEvent_def)
qed

text \<open>Changes of the counters of the manager and of the mesh's own state.\<close>

lemma same_conns_ok:
  assumes "serverOk s" and "announces (svConnMgr s) (svConnMgr s')" and "trace (svConnMgr s') = trace (svConnMgr s)"
    and "idsOk (svConnMgr s')" and "map_option mLocalEntries (svMesh s') = map_option mLocalEntries (svMesh s)"
  shows "serverOk s'"
  using assms by (auto simp: serverOk_def announces_def)

lemma pick_ok:
  assumes "serverOk s"
  shows "announces (svConnMgr s) (fst (pickConn (svConnMgr s) p cr))" "idsOk (fst (pickConn (svConnMgr s) p cr))"
    "trace (fst (pickConn (svConnMgr s) p cr)) = trace (svConnMgr s)"
proof -
  have ok: "hasListener (svConnMgr s)" "idsOk (svConnMgr s)" using assms by (auto simp: serverOk_def)
  then show "announces (svConnMgr s) (fst (pickConn (svConnMgr s) p cr))" by (auto simp: pickConn_def intro!: silent_announces)
  show "idsOk (fst (pickConn (svConnMgr s) p cr))" using ok(2) by (rule pick_ids)
  show "trace (fst (pickConn (svConnMgr s) p cr)) = trace (svConnMgr s)"
    by (auto simp: pickConn_def Get_def GetForCR_def Let_def)
qed

lemma handleWebSocket_ok:
  assumes "serverOk s" and "\<And>p. connID \<notin> acID ` set (connsOf (svConnMgr s) p)"
  shows "serverOk (fst (handleWebSocket X K poolOf s planeType planeID auth upgraded connID now))"
proof -
  obtain s' outcome where call: "handleWebSocket X K poolOf s planeType planeID auth upgraded connID now = (s', outcome)"
    by (cases "handleWebSocket X K poolOf s planeType planeID auth upgraded connID now")
  show ?thesis
  proof (cases "\<exists>c. outcome = Connected c")
    case False
    with handleWebSocket_rejected[OF call] assms(1) call show ?thesis by simp
  next
    case True
    then obtain c where "outcome = Connected c" by blast
    from handleWebSocket_connected[OF call[unfolded this]] obtain creds :: agentCredentials and crs where
      ok: "s' = withManager s (fst (Register (svConnMgr s) connID now planeType planeID crs (crClientCert creds)
          (buildIntermediatePool poolOf (crIntermediates creds))))"
      by (elim exE conjE) (rule that, assumption+)
    have "idsOk (svConnMgr s)" "hasListener (svConnMgr s)" using assms(1) by (simp_all add: serverOk_def)
    then have "serverOk s'"
      unfolding ok using assms(2) by (intro withManager_ok[OF assms(1)] Register_announces Register_ids)
    with call show ?thesis by simp
  qed
qed

lemma connsOf_map: "connsOf (cm\<lparr>connections := fmmap (map f) (connections cm)\<rparr>) q = map f (connsOf cm q)"
  by (auto simp: connsOf_def split: option.splits)

text \<open>A turn of a re-validation for a connection that is still held.\<close>

lemma idsOk_unique:
  assumes "idsOk cm" and "conn \<in> set (connsOf cm p)" and "x \<in> set (connsOf cm q)" and "acID x = acID conn"
  shows "q = p \<and> x = conn"
proof
  show "q = p"
  proof (rule ccontr)
    assume "q \<noteq> p"
    from idsOk_disjoint[OF assms(1) this] assms(2-4) show False by force
  qed
  moreover have "distinct (map acID (connsOf cm p))" using assms(1) by (simp add: idsOk_def)
  ultimately show "x = conn" using assms(2-4) by (auto simp: distinct_map inj_on_def)
qed

lemma turn_announces:
  assumes listener: "hasListener cm" and ids: "idsOk cm" and conn: "conn \<in> set (connsOf cm p)"
    and upd: "UpdateCRValidity X conn cr pool = (conn', granted, revoked, err)"
    and cm1: "cm1 = cm\<lparr>connections := fmmap (map (\<lambda>c. if acID c = acID conn then conn' else c)) (connections cm)\<rparr>"
  shows "announces cm (if granted \<or> revoked then notify (AgentCRsChanged p (acID conn') (GetValidCRs conn')) cm1 else cm1)"
proof (cases "granted \<or> revoked")
  case False
  then have "conn' = conn" using UpdateCRValidity_unchanged[OF upd] by simp
  then have "connsOf cm1 q = connsOf cm q" for q
    unfolding cm1 connsOf_map using idsOk_unique[OF ids conn, of _ q] by (intro map_idI) auto
  with False listener cm1 show ?thesis by (intro announces_silent) (auto split: if_splits)
next
  case True
  let ?f = "\<lambda>c. if acID c = acID conn then conn' else c"
  let ?cm = "notify (AgentCRsChanged p (acID conn') (GetValidCRs conn')) cm1"
  have id: "acID conn' = acID conn" using UpdateCRValidity_frame(1)[of X conn cr pool] upd by simp
  have conns: "connsOf ?cm q = map ?f (connsOf cm q)" for q
    unfolding connsOf_map[symmetric] cm1[symmetric] by (simp add: connsOf_def)
  have keys: "acID ` set (connsOf ?cm q) = acID ` set (connsOf cm q)" for q
    unfolding conns set_map image_image by (rule image_cong) (simp_all add: id)
  have "mirrors ?cm (mirrorEvent es (AgentCRsChanged p (acID conn') (GetValidCRs conn')))" (is "mirrors _ ?es") if es: "mirrors cm es" for es
  proof (rule mirrorsI)
    fix q c assume "c \<in> set (connsOf ?cm q)"
    then obtain x where x: "x \<in> set (connsOf cm q)" "c = ?f x" unfolding conns by auto
    show "fmlookup ?es (acID c) = Some (connEntry q c)"
    proof (cases "acID x = acID conn")
      case True
      with idsOk_unique[OF ids conn x(1)] x(2) id show ?thesis by (simp add: connEntry_def GetValidCRs_def)
    next
      case False
      with mirrorsD(1)[OF es x(1)] x(2) id show ?thesis by simp
    qed
  next
    fix c e assume "fmlookup ?es c = Some e"
    then have "c = acID conn \<or> fmlookup es c = Some e" using id by (auto split: if_splits)
    with mirrorsD(2)[OF es, of c e] conn show "\<exists>q. c \<in> acID ` set (connsOf ?cm q)" unfolding keys by blast
  qed
  moreover have "trace ?cm = trace cm @ [AgentCRsChanged p (acID conn') (GetValidCRs conn')]" "hasListener ?cm"
    using listener cm1 by simp_all
  ultimately show ?thesis using True by (auto simp: announces_def simp del: mirrorEvent.simps)
qed

lemma revalidateTurn_ok:
  assumes "serverOk s" and "conn \<in> set (connsOf (svConnMgr s) p)"
  shows "serverOk (revalidateTurn X s p cr pool conn)"
proof -
  obtain conn' granted revoked err where upd: "UpdateCRValidity X conn cr pool = (conn', granted, revoked, err)"
    using prod_cases4 by blast
  define cm1 where "cm1 = (svConnMgr s)\<lparr>connections :=
    fmmap (map (\<lambda>c. if acID c = acID conn then conn' else c)) (connections (svConnMgr s))\<rparr>"
  let ?cm = "if granted \<or> revoked then notify (AgentCRsChanged p (acID conn') (GetValidCRs conn')) cm1 else cm1"
  have ok: "hasListener (svConnMgr s)" "idsOk (svConnMgr s)" using assms(1) by (auto simp: serverOk_def)
  have "acID conn' = acID conn" using UpdateCRValidity_frame(1)[of X conn cr pool] upd by simp
  then have "map acID (connsOf cm1 q) = map acID (connsOf (svConnMgr s) q)" for q
    unfolding cm1_def connsOf_map by simp
  moreover have "connsOf ?cm q = connsOf cm1 q" for q by (simp add: connsOf_def)
  ultimately have "idsOk ?cm" using idsOk_subseq[OF ok(2), of ?cm] by simp
  moreover have "revalidateTurn X s p cr pool conn = withManager s ?cm"
    unfolding revalidateTurn_def cm1_def upd Let_def by simp
  ultimately show ?thesis
    using withManager_ok[OF assms(1) turn_announces[OF ok assms(2) upd cm1_def]] by simp
qed

lemma revalidateCleanup_ok: "serverOk s \<Longrightarrow> serverOk (revalidateCleanup s p cr)"
proof -
  assume s: "serverOk s"
  let ?cm = "(svConnMgr s)\<lparr>roundRobin := fmdrop (crCounterKey p cr) (roundRobin (svConnMgr s))\<rparr>"
  have ok: "hasListener (svConnMgr s)" "idsOk (svConnMgr s)" using s by (auto simp: serverOk_def)
  have conns: "connsOf ?cm q = connsOf (svConnMgr s) q" for q by (simp add: connsOf_def)
  then have "announces (svConnMgr s) ?cm" "idsOk ?cm"
    using ok announces_silent[of ?cm "svConnMgr s"] idsOk_subseq[of "svConnMgr s" ?cm] by simp_all
  with withManager_ok[OF s] s show "serverOk (revalidateCleanup s p cr)"
    by (simp add: revalidateCleanup_def Let_def)
qed

lemma serverStep_ok: "serverStep X K poolOf s s' \<Longrightarrow> serverOk s \<Longrightarrow> serverOk s'"
proof (induction rule: serverStep.induct)
  case (connect connID s planeType planeID auth upgraded now)
  then show ?case by (intro handleWebSocket_ok)
next
  case (ended s p connID)
  then have "serverOk (failPendingForConnection s connID)" by (simp add: serverOk_def)
  from managed_ok(1)[OF this, of p connID] show ?case by (simp add: connectionEnded_def Let_def)
next
  case (response s connID resp)
  then show ?case by (simp add: serverOk_def)
next
  case (request cr fleet s host p req timeout fid fate fates fleet' s' res log)
  note sent = SendForCR_ok(1,2)[OF request.hyps]
  with pick_ok[OF request.prems, of p cr] request.hyps(1) show ?case
    by (intro same_conns_ok[OF request.prems]) (simp_all add: pickConn_def)
next
  case (serve s rid fate freq)
  with ServeForward_frame[of s rid fate freq] pick_ok[OF serve.prems] show ?case
    by (intro same_conns_ok[OF serve.prems]) simp_all
next
  case (turn conn s p cr pool)
  then show ?case by (intro revalidateTurn_ok)
next
  case (cleanup s p cr)
  then show ?case by (rule revalidateCleanup_ok)
next
  case (event s ev)
  then show ?case by (auto simp: ApplyPlaneEvent_def managed_ok split: sum.splits)
next
  case (mesh s m m')
  then show ?case by (auto simp: serverOk_def)
next
  case (notification s ev)
  then show ?case
    by (simp add: handlePlaneNotification_def case_prod_beta managed_ok propagatePlaneEvent_ok split: sum.splits)
next
  case (reconnect s planeType planeID)
  then show ?case
    by (simp add: handleReconnect_def case_prod_beta managed_ok propagatePlaneEvent_ok)
next
  case (seen s now p connID)
  then show ?case by (simp add: managed_ok)
qed

lemma serverReachable_ok: "serverReachable X K poolOf s \<Longrightarrow> serverOk s"
proof (induction rule: serverReachable.induct)
  case (start self)
  then show ?case
    by (auto simp: serverOk_def idsOk_def SetFabric_def New_def NewMesh_def SetListener_def NewConnectionManager_def mirrors_def connsOf_def)
qed (rule serverStep_ok)

text \<open>C7: What a replica publishes over the mesh is what it holds. Its own entries are exactly its agent connections, each
  with its plane and its current authorisations, in every state that connecting and disconnecting agents,
  requests it sends and serves, plane events, the work of the mesh and re-validations lead to; a new connection gets
  an identifier that no held one has. The turns of a
  re-validation, which runs without the manager's lock, may be interleaved with all other steps; the states are those
  reached without a turn for a connection that has ended since the re-validation copied the list (what the
  code does then is shown below), and a turn publishes the authorisations it has just changed before
  another turn changes the same connection again.\<close>

theorem published_entries_are_connections:
  assumes "serverReachable X K poolOf s"
  shows "\<exists>m. svMesh s = Some m \<and>
    (\<forall>c e. fmlookup (mLocalEntries m) c = Some e \<longleftrightarrow>
       (\<exists>p. \<exists>conn \<in> set (connsOf (svConnMgr s) p). acID conn = c \<and>
          e = \<lparr>aePlaneIdentifier = p, aeConnID = c, aeValidCRs = acValidCRs conn\<rparr>))"
proof -
  from serverReachable_ok[OF assms] obtain m where m: "svMesh s = Some m" "mirrors (svConnMgr s) (mLocalEntries m)"
    by (auto simp: serverOk_def)
  have "fmlookup (mLocalEntries m) c = Some e \<longleftrightarrow>
      (\<exists>p. \<exists>conn \<in> set (connsOf (svConnMgr s) p). acID conn = c \<and> e = connEntry p conn)" for c e
    using mirrorsD[OF m(2)] by blast
  with m(1) show ?thesis by (auto simp: connEntry_def)
qed

lemma splitAtID_None: "splitAtID connID conns = None \<longleftrightarrow> connID \<notin> acID ` set conns"
  by (induction conns) auto

lemma Unregister_missing: "connID \<notin> acID ` set (connsOf cm p) \<Longrightarrow> Unregister cm p connID = cm"
  by (auto simp: Unregister_def connsOf_def splitAtID_None[symmetric] split: option.splits)

lemma Unregister_gone:
  assumes "idsOk cm" and "conn \<in> set (connsOf cm p)"
  shows "acID conn \<notin> acID ` set (connsOf (Unregister cm p (acID conn)) q)"
proof -
  obtain before c after where split: "splitAtID (acID conn) (connsOf cm p) = Some (before, c, after)"
    using assms(2) splitAtID_None[of "acID conn" "connsOf cm p"] by (cases "splitAtID (acID conn) (connsOf cm p)") auto
  then have conns: "connsOf cm p = before @ c # after" "acID c = acID conn" using splitAtID_Some by auto
  then have "fmlookup (connections cm) p = Some (before @ c # after)" by (auto simp: connsOf_def split: option.splits)
  with split conns have "connsOf (Unregister cm p (acID conn)) q = (if q = p then before @ after else connsOf cm q)"
    by (auto simp: Unregister_def Let_def connsOf_def)
  moreover have "distinct (map acID (before @ c # after))" using assms(1) conns by (simp add: idsOk_def flip: conns)
  moreover have "q \<noteq> p \<Longrightarrow> acID conn \<notin> acID ` set (connsOf cm q)"
    using idsOk_disjoint[OF assms(1), of q p] assms(2) by blast
  ultimately show ?thesis using conns(2) by auto
qed

lemma withManager_mgr: "svConnMgr (withManager s cm) = cm"
  by (simp add: withManager_def)

lemma revalidateTurn_changed:
  assumes "svMesh s = Some m" and "hasListener (svConnMgr s)"
    and "IsValidForCR conn cr \<noteq> (verifyCert X pool (acIntermediates conn) (acClientCert conn) = None)"
  shows "acID ` set (connsOf (svConnMgr (revalidateTurn X s p cr pool conn)) q) = acID ` set (connsOf (svConnMgr s) q)"
    and "hasListener (svConnMgr (revalidateTurn X s p cr pool conn))"
    and "\<exists>crs. svMesh (revalidateTurn X s p cr pool conn) = Some (LocalUpsert m \<lparr>aePlaneIdentifier = p, aeConnID = acID conn, aeValidCRs = crs\<rparr>)"
proof -
  obtain c granted revoked err where upd: "UpdateCRValidity X conn cr pool = (c, granted, revoked, err)"
    using prod_cases4 by blast
  have c: "acID c = acID conn" using UpdateCRValidity_frame(1)[of X conn cr pool] upd by simp
  have changed: "granted \<or> revoked"
    using upd assms(3) by (auto simp: UpdateCRValidity_def IsValidForCR_def Let_def split: if_splits)
  let ?f = "\<lambda>x. if acID x = acID conn then c else x"
  let ?cm = "notify (AgentCRsChanged p (acID c) (GetValidCRs c)) ((svConnMgr s)\<lparr>connections := fmmap (map ?f) (connections (svConnMgr s))\<rparr>)"
  have s': "revalidateTurn X s p cr pool conn = withManager s ?cm"
    using upd changed by (simp add: revalidateTurn_def Let_def)
  have "connsOf ?cm q = map ?f (connsOf (svConnMgr s) q)"
    using connsOf_map[where cm = "svConnMgr s" and f = ?f and q = q] by (simp add: connsOf_def)
  moreover have "acID (?f x) = acID x" for x using c by simp
  then have "acID ` set (map ?f xs) = acID ` set xs" for xs
    by (simp only: set_map image_image)
  ultimately show "acID ` set (connsOf (svConnMgr (revalidateTurn X s p cr pool conn)) q) = acID ` set (connsOf (svConnMgr s) q)"
    unfolding s' by (simp only: withManager_mgr)
  have "trace ?cm = trace (svConnMgr s) @ [AgentCRsChanged p (acID c) (GetValidCRs c)]"
    using assms(2) by simp
  then show "\<exists>crs. svMesh (revalidateTurn X s p cr pool conn) = Some (LocalUpsert m \<lparr>aePlaneIdentifier = p, aeConnID = acID conn, aeValidCRs = crs\<rparr>)"
    unfolding s' using assms(1) c by (auto simp: withManager_def OnAgentCRsChanged_def)
  show "hasListener (svConnMgr (revalidateTurn X s p cr pool conn))"
    unfolding s' using assms(2) by (simp add: withManager_def)
qed

lemma Disconnect_keeps_others:
  assumes "svMesh s = Some m" and "hasListener (svConnMgr s)" and "c \<notin> acID ` set (connsOf (svConnMgr s) (planeIdentifierOf t i))"
  shows "\<exists>m'. svMesh (withManager s (fst (DisconnectAllForPlane (svConnMgr s) t i))) = Some m' \<and>
           fmlookup (mLocalEntries m') c = fmlookup (mLocalEntries m) c"
proof -
  let ?p = "planeIdentifierOf t i" and ?cm = "fst (DisconnectAllForPlane (svConnMgr s) t i)"
  let ?evs = "concat (map (\<lambda>conn. [ConnClosed (acID conn), AgentUnregistered ?p (acID conn)]) (connsOf (svConnMgr s) ?p))"
  have "trace ?cm = trace (svConnMgr s) @ ?evs"
    using closing_events[OF assms(2)] by (simp add: DisconnectAllForPlane_def Let_def)
  with assms(1,3) show ?thesis
    by (auto simp: withManager_def mesh_listener.entries_events closing_mirror)
qed

text \<open>C39: A re-validation that runs into a disconnect publishes a connection that no longer exists. If a connection
  ends after \<open>RevalidateCR\<close> copied the list of connections and before it verifies this one, and the
  verification changes the authorisation, the replica publishes an entry for the closed connection.
  Neither another disconnect of it nor disconnecting its plane removes the entry again.\<close>

theorem revalidation_race_publishes_closed_connection:
  assumes "serverReachable X K poolOf s" and "conn \<in> set (connsOf (svConnMgr s) (planeIdentifierOf t i))"
    and "IsValidForCR conn cr \<noteq> (verifyCert X pool (acIntermediates conn) (acClientCert conn) = None)"
  shows "let p = planeIdentifierOf t i; s1 = connectionEnded s p (acID conn); s2 = revalidateTurn X s1 p cr pool conn in
    (\<forall>q. acID conn \<notin> acID ` set (connsOf (svConnMgr s2) q)) \<and>
    (\<exists>m e. svMesh s2 = Some m \<and> fmlookup (mLocalEntries m) (acID conn) = Some e \<and> aePlaneIdentifier e = p) \<and>
    svMesh (connectionEnded s2 p (acID conn)) = svMesh s2 \<and>
    (\<exists>m. svMesh (withManager s2 (fst (DisconnectAllForPlane (svConnMgr s2) t i))) = Some m \<and>
       fmlookup (mLocalEntries m) (acID conn) \<noteq> None)"
proof -
  let ?p = "planeIdentifierOf t i" and ?c = "acID conn"
  let ?s1 = "connectionEnded s ?p ?c"
  let ?s2 = "revalidateTurn X ?s1 ?p cr pool conn"
  note ok = serverReachable_ok[OF assms(1)]
  have "serverOk ?s1" by (rule serverStep_ok[OF serverStep.ended ok])
  then obtain m where m: "svMesh ?s1 = Some m" "hasListener (svConnMgr ?s1)" by (auto simp: serverOk_def)
  have "?c \<notin> acID ` set (connsOf (svConnMgr ?s1) q)" for q
    using Unregister_gone[OF _ assms(2)] ok by (simp add: connectionEnded_def withManager_def Let_def serverOk_def)
  with revalidateTurn_changed(1)[OF m assms(3)] have gone: "?c \<notin> acID ` set (connsOf (svConnMgr ?s2) q)" for q
    by simp
  from revalidateTurn_changed(3)[OF m assms(3)] obtain crs
    where m2: "svMesh ?s2 = Some (LocalUpsert m \<lparr>aePlaneIdentifier = ?p, aeConnID = ?c, aeValidCRs = crs\<rparr>)" by blast
  have "svMesh (connectionEnded ?s2 ?p ?c) = svMesh ?s2"
    using Unregister_missing[OF gone] m2 by (simp add: connectionEnded_def withManager_def Let_def)
  moreover from Disconnect_keeps_others[OF m2 revalidateTurn_changed(2)[OF m assms(3)] gone, of t i]
  obtain m3 where "svMesh (withManager ?s2 (fst (DisconnectAllForPlane (svConnMgr ?s2) t i))) = Some m3"
    "fmlookup (mLocalEntries m3) ?c = Some \<lparr>aePlaneIdentifier = ?p, aeConnID = ?c, aeValidCRs = crs\<rparr>" by auto
  ultimately show ?thesis
    using gone m2 by (simp add: Let_def)
qed

subsection \<open>Requests\<close>

definition proxyCRKey :: "proxyTarget \<Rightarrow> string" where
  "proxyCRKey t = (if ptNamespace t = crNamespaceClusterPlaceholder then [] else ptNamespace t) @ ''/'' @ ptName t"

lemma proxyCRKey_nonempty [simp]: "proxyCRKey t \<noteq> []"
  by (simp add: proxyCRKey_def)

text \<open>C4: A proxied request is handed only to agents that are authorised for the CR its path names, on a connection of
  the plane its path names, held by this replica or by the one it is forwarded to; and only if it passed the
  checks on method, target, path and size. It is handed to at most two agents in total, and a request
  whose method may have side effects to at most one, whatever fails on the way. A response that is returned
  came from the replica named in the header.\<close>

theorem proxied_requests_are_authorised:
  assumes "handleHTTPProxy fleet s host v rid r fid fate fates = (fleet', s', outcome, log)"
  shows "length log \<le> 2 \<and> (\<not> isSafeHTTPMethod (hrMethod r) \<longrightarrow> length log \<le> 1) \<and>
    (log \<noteq> [] \<longrightarrow>
       (\<exists>t. parseProxyPath (hrPath r) = Some t \<and> ValidateRequest v r (ptTarget t) (ptPath t) = None \<and>
          (\<forall>(owner, conn) \<in> set log. IsValidForCR conn (proxyCRKey t) \<and>
             (\<exists>replica \<in> {s, fleet owner}.
                conn \<in> set (connsOf (svConnMgr replica) (planeIdentifierOf (ptPlaneType t) (ptPlaneID t))))))) \<and>
    (\<forall>resp entry servedBy. outcome = Proxied resp entry servedBy \<longrightarrow> log \<noteq> [] \<and> fst (last log) = servedBy)"
proof (cases "parseProxyPath (hrPath r)")
  case None
  with assms show ?thesis by (auto simp: handleHTTPProxy_def)
next
  case (Some t)
  let ?p = "planeIdentifierOf (ptPlaneType t) (ptPlaneID t)"
  show ?thesis
  proof (cases "ValidateRequest v r (ptTarget t) (ptPath t) = None \<and> \<not> isStreamingRequest r (ptPath t) \<and> hrBody r \<noteq> None")
    case False
    with assms Some show ?thesis by (auto simp: handleHTTPProxy_def Let_def split: option.splits if_splits)
  next
    case True
    then obtain body where body: "hrBody r = Some body" by auto
    let ?req = "\<lparr>trRequestID = [], trGatewayRequestID = rid, trTarget = ptTarget t, trMethod = hrMethod r, trPath = ptPath t,
      trQuery = hrRawQuery r, trHeaders = hrHeaders r, trBody = body\<rparr>"
    obtain f1 s1 res l1 where
      sent: "SendHTTPTunnelRequestForCR fleet s host ?p (proxyCRKey t) ?req proxyTimeout fid fate fates = (f1, s1, res, l1)"
      using prod_cases4 by blast
    have "handleHTTPProxy fleet s host v rid r fid fate fates =
        (f1, s1, (case res of Inl err \<Rightarrow> HttpStatus (if containsStr (tunnelErrorText err) ''no agents authorized for CR'' then 403 else 502)
          | Inr (response, servedBy) \<Rightarrow> Proxied response (selfID s1 host) servedBy), l1)"
      using True Some body sent by (auto simp: handleHTTPProxy_def Let_def proxyCRKey_def split: sum.splits)
    with assms have log: "log = l1" and outcome: "\<And>resp entry servedBy. outcome = Proxied resp entry servedBy \<Longrightarrow> res = Inr (resp, servedBy)"
      by (auto split: sum.splits)
    note ok = SendForCR_ok(3-6)[OF proxyCRKey_nonempty sent]
    from ok(3) have "\<forall>(owner, conn) \<in> set l1. IsValidForCR conn (proxyCRKey t) \<and>
        (\<exists>replica \<in> {s, fleet owner}. conn \<in> set (connsOf (svConnMgr replica) ?p))" by fastforce
    with ok(1,2,4) True Some log outcome show ?thesis by auto
  qed
qed

lemma containsStr_append: "containsStr (sub @ rest) sub"
  by (cases "sub @ rest") (auto simp: prefix_def, metis)

lemma forwardAttempts_first: "\<exists>ds. forwardAttempts (c # cs) = c # ds"
  by (auto simp: forwardAttempts_def split: option.splits list.splits)

lemma answer_lost:
  assumes link: "fmlookup (mLinks m) owner = Some link" "plUp link"
    and pick: "snd (GetForCR (svConnMgr (fleet owner)) (fqPlaneIdentifier freq) (fqCRKey freq)) = Inr conn" and cr: "fqCRKey freq \<noteq> []"
  shows "\<exists>fleet' m'. forwardOnce fleet m fid (Reaches rid afate False) owner freq =
           (fleet', m', Inl (ErrForwardMayHaveExecuted owner), Some conn)"
proof -
  obtain m1 ch corrID frame where fwd: "Forward m fid owner None freq = (m1, Inr (ch, corrID, frame))"
    using link by (auto simp: Forward_def Let_def)
  obtain freq' where freq': "fForwardReq frame = Some freq'" "fqCorrID freq' = corrID"
      "fqPlaneIdentifier freq' = fqPlaneIdentifier freq" "fqCRKey freq' = fqCRKey freq"
    using Forward_sent(1)[OF fwd] by blast
  obtain s' rsp used where serve: "ServeForward (fleet owner) rid afate freq' = (s', rsp, used)"
    using prod_cases3 by blast
  have "used = Some conn"
    using serve pick freq'(3,4) cr by (auto simp: ServeForward_def pickConn_def split: prod.splits sum.splits)
  with fwd freq' serve show ?thesis by (simp add: forwardOnce_def forwardCancelled_def)
qed

text \<open>C40: A request that was handed to an agent can be answered with 403 Forbidden. When this replica has agents of the
  plane but none authorised for the CR, and the request was forwarded to a replica whose authorised agent
  received it, but the link broke before the answer, the error of the forward is dropped: the client is told
  that no agent is authorised, although the request, which may have side effects, may have been executed.\<close>

theorem executed_request_reported_forbidden:
  assumes "parseProxyPath (hrPath r) = Some t" and "ValidateRequest v r (ptTarget t) (ptPath t) = None"
    and "\<not> isStreamingRequest r (ptPath t)" and "hrBody r = Some body" and unsafe: "\<not> isSafeHTTPMethod (hrMethod r)"
    and plane: "plane = planeIdentifierOf (ptPlaneType t) (ptPlaneID t)"
    and here: "snd (GetForCR (svConnMgr s) plane (proxyCRKey t)) = Inl (NoAuthorizedAgents (proxyCRKey t))"
    and mesh: "svMesh s = Some m" and found: "snd (Lookup (mRegistry m) plane (proxyCRKey t)) = cand # cands"
    and link: "fmlookup (mLinks m) (raOwner cand) = Some link" "plUp link"
    and there: "snd (GetForCR (svConnMgr (fleet (raOwner cand))) plane (proxyCRKey t)) = Inr conn"
    and lost: "fates 0 = (fid0, Reaches rid0 afate False)"
  shows "\<exists>fleet' s'. handleHTTPProxy fleet s host v rid r fid fate fates = (fleet', s', HttpStatus 403, [(raOwner cand, conn)])"
proof -
  let ?cr = "proxyCRKey t"
  let ?req = "\<lparr>trRequestID = [], trGatewayRequestID = rid, trTarget = ptTarget t, trMethod = hrMethod r, trPath = ptPath t,
      trQuery = hrRawQuery r, trHeaders = hrHeaders r, trBody = body\<rparr>"
  let ?freq = "\<lparr>fqCorrID = [], fqPlaneIdentifier = plane, fqCRKey = ?cr, fqTimeoutMillis = proxyTimeout, fqRequest = ?req\<rparr>"
  obtain reg where look: "Lookup (mRegistry m) plane ?cr = (reg, cand # cands)"
    using found by (cases "Lookup (mRegistry m) plane ?cr") simp
  obtain cm where get: "GetForCR (svConnMgr s) plane ?cr = (cm, Inl (NoAuthorizedAgents ?cr))"
    using here by (cases "GetForCR (svConnMgr s) plane ?cr") simp
  obtain rest where attempts: "zip (forwardAttempts (cand # cands)) [fates 0, fates 1] = (cand, fates 0) # rest"
    using forwardAttempts_first[of cand cands] by auto
  have "fmlookup (mLinks (m\<lparr>mRegistry := reg\<rparr>)) (raOwner cand) = Some link" using link(1) by simp
  from answer_lost[OF this link(2), of fleet ?freq conn fid0 rid0 afate] there obtain fleet' m'
    where once: "forwardOnce fleet (m\<lparr>mRegistry := reg\<rparr>) fid0 (Reaches rid0 afate False) (raOwner cand) ?freq =
      (fleet', m', Inl (ErrForwardMayHaveExecuted (raOwner cand)), Some conn)" by auto
  have "forwardLoop plane ?cr ?req proxyTimeout ((cand, fates 0) # rest) e fleet (m\<lparr>mRegistry := reg\<rparr>) =
      (fleet', m', Inl (MeshError (ErrForwardMayHaveExecuted (raOwner cand))), [(raOwner cand, conn)])" for e
    using once unsafe by (simp add: lost forwardIsSafeToRetry_def)
  with look mesh attempts have via: "forwardViaMesh fleet (s\<lparr>svConnMgr := cm\<rparr>) plane ?cr ?req proxyTimeout fates =
      (fleet', s\<lparr>svConnMgr := cm, svMesh := Some m'\<rparr>, Inl (MeshError (ErrForwardMayHaveExecuted (raOwner cand))), [(raOwner cand, conn)])"
    by (simp add: forwardViaMesh_def Let_def)
  have "containsStr (cmErrorText (NoAuthorizedAgents ?cr)) ''no agents authorized for CR''"
    using containsStr_append[of "''no agents authorized for CR''" "'' '' @ ?cr"] by (simp del: containsStr.simps)
  with assms(1-4) get via show ?thesis
    by (simp add: handleHTTPProxy_def SendHTTPTunnelRequestForCR_def Let_def plane proxyCRKey_def del: containsStr.simps)
qed

subsection \<open>Rebalancing\<close>

lemma shedCount_bounds:
  fixes peers :: "nat list" and n :: nat
  defines "replicas \<equiv> length peers + 1"
  shows "shedCount n peers \<le> rebalanceMaxShedPerCycle"
    and "0 < shedCount n peers \<Longrightarrow> n + sum_list peers + replicas \<le> (n - shedCount n peers) * replicas"
    and "peers \<noteq> [] \<Longrightarrow> n + sum_list peers + 2 * replicas \<le> n * replicas \<Longrightarrow> 0 < shedCount n peers"
proof -
  let ?total = "n + sum_list peers"
  define fair where "fair = (?total + replicas - 1) div replicas"
  have "replicas > 0" by (simp add: replicas_def)
  have "fair * replicas + (?total + replicas - 1) mod replicas = ?total + replicas - 1"
    by (simp only: fair_def div_mult_mod_eq)
  moreover have "(?total + replicas - 1) mod replicas < replicas" using \<open>replicas > 0\<close> by simp
  ultimately have up: "?total \<le> fair * replicas" and down: "fair * replicas < ?total + replicas"
    using \<open>replicas > 0\<close> by linarith+
  show "shedCount n peers \<le> rebalanceMaxShedPerCycle"
    by (simp add: shedCount_def Let_def)
  show "?total + replicas \<le> (n - shedCount n peers) * replicas" if "0 < shedCount n peers"
  proof -
    from that have "fair + 1 + shedCount n peers \<le> n"
      by (auto simp: shedCount_def Let_def fair_def replicas_def rebalanceSlack_def split: if_splits)
    then have "fair + 1 \<le> n - shedCount n peers" by simp
    then have "(fair + 1) * replicas \<le> (n - shedCount n peers) * replicas" by (rule mult_le_mono1)
    with up show ?thesis by (simp add: algebra_simps)
  qed
  show "0 < shedCount n peers" if "peers \<noteq> []" "?total + 2 * replicas \<le> n * replicas"
  proof -
    have "(fair + 1) * replicas < n * replicas" using down that(2) by (simp add: algebra_simps)
    then have "fair + 1 < n" by (simp only: mult_less_cancel2)
    moreover have "\<not> (replicas < 2 \<or> ?total = 0)" using that(1) calculation by (cases peers) (auto simp: replicas_def)
    ultimately show ?thesis
      by (simp add: shedCount_def Let_def fair_def replicas_def rebalanceSlack_def rebalanceMaxShedPerCycle_def)
  qed
qed

text \<open>C27: Rebalancing sheds at most three connections per cycle, all of them its own, and never too many: even if every
  agent it sheds goes elsewhere, the replica keeps at least one connection more than the average over the
  replicas that hold connections, so it cannot oscillate. A replica that exceeds the average by two or more sheds
  at least one, unless it is draining.\<close>

theorem rebalancing_is_bounded:
  assumes "svMesh s = Some m"
  shows "let local = GetAll (svConnMgr s); shed = rebalanceOnce s;
             peers = map snd (sorted_list_of_fmap (fmdrop (SelfID m) (CountByOwner (mRegistry m))));
             replicas = length peers + 1; total = length local + sum_list peers in
    length shed \<le> 3 \<and> shed = take (length shed) local \<and>
    (shed \<noteq> [] \<longrightarrow> total + replicas \<le> (length local - length shed) * replicas) \<and>
    (\<not> svDraining s \<and> peers \<noteq> [] \<and> total + 2 * replicas \<le> length local * replicas \<longrightarrow> shed \<noteq> [])"
proof -
  let ?peers = "map snd (sorted_list_of_fmap (fmdrop (SelfID m) (CountByOwner (mRegistry m))))"
  let ?n = "length (GetAll (svConnMgr s))"
  have shed: "rebalanceOnce s = (if svDraining s then [] else take (shedCount ?n ?peers) (GetAll (svConnMgr s)))"
    by (simp add: rebalanceOnce_def assms Let_def)
  note b = shedCount_bounds[where n = ?n and peers = ?peers]
  have "shedCount ?n ?peers \<le> ?n"
    by (auto simp: shedCount_def Let_def)
  then have len: "length (rebalanceOnce s) = (if svDraining s then 0 else shedCount ?n ?peers)"
    by (simp add: shed)
  have "length (rebalanceOnce s) \<le> 3" using b(1) by (simp add: len rebalanceMaxShedPerCycle_def)
  moreover have "rebalanceOnce s = take (length (rebalanceOnce s)) (GetAll (svConnMgr s))"
    unfolding len by (simp add: shed)
  moreover have "?n + sum_list ?peers + (length ?peers + 1) \<le> (?n - length (rebalanceOnce s)) * (length ?peers + 1)"
    if "rebalanceOnce s \<noteq> []"
  proof -
    from that have "0 < length (rebalanceOnce s)" by simp
    then have pos: "length (rebalanceOnce s) = shedCount ?n ?peers" "0 < shedCount ?n ?peers"
      unfolding len by (simp_all split: if_splits)
    show ?thesis unfolding pos(1) by (rule b(2)[OF pos(2)])
  qed
  moreover have "rebalanceOnce s \<noteq> []"
    if "\<not> svDraining s" "?peers \<noteq> []" "?n + sum_list ?peers + 2 * (length ?peers + 1) \<le> ?n * (length ?peers + 1)"
  proof -
    have "0 < length (rebalanceOnce s)" unfolding len using b(3)[OF that(2,3)] that(1) by simp
    then show ?thesis by simp
  qed
  ultimately show ?thesis unfolding Let_def by blast
qed

subsection \<open>A gateway with two replicas\<close>

text \<open>Plane \<open>p\<close> has the CRs \<open>ns/a\<close> and \<open>ns/b\<close>, with different authorities. The first replica has an agent of
  \<open>ns/a\<close>, the second one of \<open>ns/b\<close>, which the first learns from the snapshot of the second.\<close>

definition exampleCR :: "string \<Rightarrow> string \<Rightarrow> planeCR" where
  "exampleCR name ca = \<lparr>pcKind = DataPlane, pcName = name, pcNamespace = ''ns'', pcPlaneID = ''p'',
     pcClusterAgent = \<lparr>agClientCA = \<lparr>vfSecretKeyRef = None, vfValue = ca\<rparr>\<rparr>\<rparr>"

definition exampleK8s :: k8sReader where
  "exampleK8s = \<lparr>listPlanes = (\<lambda>kind. Inr (if kind = DataPlane then [exampleCR ''a'' ''ca1'', exampleCR ''b'' ''ca2''] else [])),
     getSecret = (\<lambda>_ _. Inl ''not found'')\<rparr>"

definition freshServer :: "string \<Rightarrow> Server" where
  "freshServer self = SetFabric New (NewMesh \<lparr>peerID = self, peerAddr = self\<rparr> NewRegistry)"

definition exampleCreds :: "string \<Rightarrow> agentCredentials" where
  "exampleCreds cert = \<lparr>crClientCert = cert, crIntermediates = []\<rparr>"

definition exampleServer :: Server where
  "exampleServer = fst (handleWebSocket exampleX509 exampleK8s concat (freshServer ''g1'') ''dataplane'' ''p''
     (Inr (exampleCreds ''ca1'')) True ''c1'' 0)"

definition examplePeer :: Server where
  "examplePeer = fst (handleWebSocket exampleX509 exampleK8s concat (freshServer ''g2'') ''dataplane'' ''p''
     (Inr (exampleCreds ''ca2'')) True ''c2'' 0)"

definition exampleMesh :: Mesh where
  "exampleMesh =
     (let m = setLinkUp True (reconcilePeers (the (svMesh exampleServer)) [\<lparr>peerID = ''g2'', peerAddr = ''g2''\<rparr>]) ''g2''
      in fst (handleFrame m ''g2'' (snapshotFrame (localSnapshot (the (svMesh examplePeer))))))"

definition exampleSender :: Server where
  "exampleSender = exampleServer\<lparr>svMesh := Some exampleMesh\<rparr>"

definition exampleProxyRequest :: "string \<Rightarrow> string \<Rightarrow> httpRequest" where
  "exampleProxyRequest method name =
     \<lparr>hrMethod = method, hrPath = ''/api/proxy/dataplane/p/ns/'' @ name @ ''/k8s/api/v1/pods'', hrRawQuery = [], hrHeader = (\<lambda>_. []),
      hrHeaders = fmempty, hrContentLength = 0, hrBody = Some []\<rparr>"

definition exampleTarget :: "string \<Rightarrow> proxyTarget" where
  "exampleTarget name = \<lparr>ptPlaneType = ''dataplane'', ptPlaneID = ''p'', ptNamespace = ''ns'', ptName = name, ptTarget = ''k8s'', ptPath = ''/api/v1/pods''\<rparr>"

definition exampleConn :: "Server \<Rightarrow> AgentConnection" where
  "exampleConn s = hd (connsOf (svConnMgr s) ''dataplane/p'')"

lemma exampleServer_reachable: "serverReachable exampleX509 exampleK8s concat exampleServer"
  unfolding exampleServer_def freshServer_def
  by (rule serverReachable.step[OF serverReachable.start serverStep.connect])
    (simp_all add: SetFabric_def New_def SetListener_def NewConnectionManager_def connsOf_def)

lemma example_conns:
  "list_all (\<lambda>c. acID c = ''c1'' \<and> acValidCRs c = [''ns/a''] \<and> acClientCert c = ''ca1'') (connsOf (svConnMgr exampleServer) ''dataplane/p'')"
  "length (connsOf (svConnMgr exampleServer) ''dataplane/p'') = 1"
  by code_simp+

lemma exampleCRs_distinct: "distinct (map crKeyOf (planeCRs exampleK8s ''dataplane''))"
  by code_simp

lemma example_connected:
  "snd (handleWebSocket exampleX509 exampleK8s concat (freshServer ''g1'') ''dataplane'' ''p'' (Inr (exampleCreds ''ca1'')) True ''c1'' 0) =
   Connected ''c1''"
  by code_simp

theorem admitted_agents_are_verified_witness:
  "\<exists>new. new \<in> set (connsOf (svConnMgr exampleServer) ''dataplane/p'') \<and> acID new = ''c1'' \<and> acClientCert new = ''ca1'' \<and>
     IsValidForCR new ''ns/a'' \<and> \<not> IsValidForCR new ''ns/b''"
proof -
  have call: "handleWebSocket exampleX509 exampleK8s concat (freshServer ''g1'') ''dataplane'' ''p'' (Inr (exampleCreds ''ca1'')) True ''c1'' 0 =
      (exampleServer, Connected ''c1'')"
    using example_connected by (simp add: exampleServer_def prod_eq_iff)
  from admitted_agents_are_verified[OF call exampleCRs_distinct]
  obtain old new where "connsOf (svConnMgr exampleServer) (planeIdentifierOf ''dataplane'' ''p'') = old @ [new]"
      "acID new = ''c1''" "acClientCert new = ''ca1''"
    by (auto simp: exampleCreds_def)
  moreover from this(1) have "acValidCRs new = [''ns/a'']"
    using example_conns(1) by (simp add: planeIdentifierOf_def)
  ultimately show ?thesis by (auto simp: planeIdentifierOf_def IsValidForCR_def exampleCreds_def)
qed

theorem published_entries_are_connections_witness:
  "\<exists>m. svMesh exampleServer = Some m \<and> fmlookup (mLocalEntries m) ''c1'' = Some exampleEntry"
proof -
  obtain conn where "connsOf (svConnMgr exampleServer) ''dataplane/p'' = [conn]"
    using example_conns(2) by (auto simp: length_Suc_conv)
  then have "conn \<in> set (connsOf (svConnMgr exampleServer) ''dataplane/p'')" "acID conn = ''c1''" "acValidCRs conn = [''ns/a'']"
    using example_conns(1) by simp_all
  then show ?thesis
    using published_entries_are_connections[OF exampleServer_reachable] unfolding exampleEntry_def by metis
qed

theorem revalidation_race_publishes_closed_connection_witness:
  "\<exists>m e. svMesh (revalidateTurn exampleX509 (connectionEnded exampleServer ''dataplane/p'' ''c1'') ''dataplane/p'' ''ns/a'' ''new''
       (exampleConn exampleServer)) = Some m \<and>
     fmlookup (mLocalEntries m) ''c1'' = Some e \<and> aePlaneIdentifier e = ''dataplane/p''"
proof -
  let ?c = "exampleConn exampleServer"
  have p: "planeIdentifierOf ''dataplane'' ''p'' = ''dataplane/p''" by (simp add: planeIdentifierOf_def)
  obtain conn where conns: "connsOf (svConnMgr exampleServer) ''dataplane/p'' = [conn]"
    using example_conns(2) by (auto simp: length_Suc_conv)
  then have c: "?c = conn" "acID conn = ''c1''" "acValidCRs conn = [''ns/a'']" "acClientCert conn = ''ca1''"
    using example_conns(1) by (simp_all add: exampleConn_def)
  have mem: "?c \<in> set (connsOf (svConnMgr exampleServer) (planeIdentifierOf ''dataplane'' ''p''))"
    unfolding p conns c(1) by simp
  have change: "IsValidForCR ?c ''ns/a'' \<noteq> (verifyCert exampleX509 ''new'' (acIntermediates ?c) (acClientCert ?c) = None)"
    unfolding c(1) by (simp add: IsValidForCR_def exampleX509_def c)
  from revalidation_race_publishes_closed_connection[OF exampleServer_reachable mem change] show ?thesis
    unfolding p by (simp add: Let_def c)
qed

definition exampleResponse :: HTTPTunnelResponse where
  "exampleResponse = \<lparr>rsRequestID = ''r1'', rsStatusCode = 200, rsHeaders = fmempty, rsBody = [], rsError = None\<rparr>"

text \<open>The fate of a forwarded request: the owner's agent answers, but the answer reaches the sender or not.\<close>

definition exampleFates :: "bool \<Rightarrow> nat \<Rightarrow> string \<times> forwardFate" where
  "exampleFates answered _ = (''f1'', Reaches ''r1'' (Arrives ''c2'' exampleResponse) answered)"

lemma example_forwarded:
  "(case handleHTTPProxy (\<lambda>_. examplePeer) exampleSender [] NewRequestValidator ''q'' (exampleProxyRequest ''POST'' ''b'') ''r0'' NothingArrives
      (exampleFates True) of
      (_, _, outcome, log) \<Rightarrow> map (\<lambda>(owner, conn). (owner, acID conn)) log = [(''g2'', ''c2'')] \<and>
        outcome = Proxied exampleResponse ''g1'' ''g2'')"
  by code_simp

theorem proxied_requests_are_authorised_witness:
  "\<exists>conn. snd (snd (snd (handleHTTPProxy (\<lambda>_. examplePeer) exampleSender [] NewRequestValidator ''q'' (exampleProxyRequest ''POST'' ''b'') ''r0''
        NothingArrives (exampleFates True)))) = [(''g2'', conn)] \<and> acID conn = ''c2'' \<and> IsValidForCR conn ''ns/b''"
proof -
  obtain fleet' s' outcome log where
    call: "handleHTTPProxy (\<lambda>_. examplePeer) exampleSender [] NewRequestValidator ''q'' (exampleProxyRequest ''POST'' ''b'') ''r0'' NothingArrives
      (exampleFates True) = (fleet', s', outcome, log)"
    using prod_cases4 by blast
  with example_forwarded obtain conn where log: "log = [(''g2'', conn)]" "acID conn = ''c2''" by auto
  have target: "parseProxyPath (hrPath (exampleProxyRequest ''POST'' ''b'')) = Some (exampleTarget ''b'')" "proxyCRKey (exampleTarget ''b'') = ''ns/b''"
    by code_simp+
  from proxied_requests_are_authorised[OF call] log target have "IsValidForCR conn ''ns/b''" by auto
  with call log show ?thesis by simp
qed

lemma example_lost:
  "ValidateRequest NewRequestValidator (exampleProxyRequest ''POST'' ''b'') (ptTarget (exampleTarget ''b'')) (ptPath (exampleTarget ''b'')) = None"
  "\<not> isStreamingRequest (exampleProxyRequest ''POST'' ''b'') (ptPath (exampleTarget ''b''))"
  "\<not> isSafeHTTPMethod (hrMethod (exampleProxyRequest ''POST'' ''b''))"
  "''dataplane/p'' = planeIdentifierOf (ptPlaneType (exampleTarget ''b'')) (ptPlaneID (exampleTarget ''b''))"
  "parseProxyPath (hrPath (exampleProxyRequest ''POST'' ''b'')) = Some (exampleTarget ''b'')"
  "snd (GetForCR (svConnMgr exampleSender) ''dataplane/p'' (proxyCRKey (exampleTarget ''b''))) = Inl (NoAuthorizedAgents (proxyCRKey (exampleTarget ''b'')))"
  "snd (Lookup (mRegistry exampleMesh) ''dataplane/p'' (proxyCRKey (exampleTarget ''b''))) =
     [\<lparr>raOwner = ''g2'', raEntry = \<lparr>aePlaneIdentifier = ''dataplane/p'', aeConnID = ''c2'', aeValidCRs = [''ns/b'']\<rparr>\<rparr>]"
  "fmlookup (mLinks exampleMesh) ''g2'' = Some \<lparr>plPeer = \<lparr>peerID = ''g2'', peerAddr = ''g2''\<rparr>, plUp = True\<rparr>"
  "snd (GetForCR (svConnMgr examplePeer) ''dataplane/p'' (proxyCRKey (exampleTarget ''b''))) = Inr (exampleConn examplePeer)"
  "acID (exampleConn examplePeer) = ''c2''"
  by code_simp+

theorem executed_request_reported_forbidden_witness:
  "\<exists>fleet' s' conn. handleHTTPProxy (\<lambda>_. examplePeer) exampleSender [] NewRequestValidator ''q'' (exampleProxyRequest ''POST'' ''b'') ''r0''
      NothingArrives (exampleFates False) = (fleet', s', HttpStatus 403, [(''g2'', conn)]) \<and> acID conn = ''c2''"
proof -
  have "hrBody (exampleProxyRequest ''POST'' ''b'') = Some []" "svMesh exampleSender = Some exampleMesh"
    by (simp_all add: exampleProxyRequest_def exampleSender_def)
  note lost = executed_request_reported_forbidden[OF example_lost(5) example_lost(1) example_lost(2) this(1) example_lost(3)
      example_lost(4) example_lost(6) this(2) example_lost(7), where fleet = "\<lambda>_. examplePeer" and fates = "exampleFates False"]
  have up: "plUp \<lparr>plPeer = \<lparr>peerID = ''g2'', peerAddr = ''g2''\<rparr>, plUp = True\<rparr>" by simp
  from lost[OF _ up, of "exampleConn examplePeer" "''f1''" "''r1''" "Arrives ''c2'' exampleResponse" "[]" "''q''" "''r0''" NothingArrives]
  show ?thesis
    using example_lost(8-10) by (auto simp: exampleFates_def)
qed

definition exampleCrowded :: Server where
  "exampleCrowded = exampleSender\<lparr>svConnMgr :=
     foldl (\<lambda>cm c. fst (Register cm c 0 ''dataplane'' ''p'' [''ns/a''] ''ca1'' None)) NewConnectionManager [''c1'', ''c3'', ''c4'', ''c5'', ''c6'']\<rparr>"

theorem rebalancing_is_bounded_witness:
  "rebalanceOnce exampleCrowded \<noteq> [] \<and> length (rebalanceOnce exampleCrowded) \<le> 3 \<and> length (GetAll (svConnMgr exampleCrowded)) = 5"
proof -
  have mesh: "svMesh exampleCrowded = Some exampleMesh" by (simp add: exampleCrowded_def exampleSender_def)
  have counts: "map snd (sorted_list_of_fmap (fmdrop (SelfID exampleMesh) (CountByOwner (mRegistry exampleMesh)))) = [1]"
    "length (GetAll (svConnMgr exampleCrowded)) = 5" "\<not> svDraining exampleCrowded"
    by code_simp+
  show ?thesis
    using rebalancing_is_bounded[OF mesh] counts by (simp add: Let_def)
qed

end
