(* ===== verification/Template_Engine.thy ===== *)
theory Template_Engine
  imports Json_Value "HOL-Library.Word"
begin

text \<open>
  The template engine: the walk over a template and its expressions
  (\<^verbatim>\<open>src/internal/template/engine.go\<close>), the cost budget (\<^verbatim>\<open>budget.go\<close>) and the errors
  (\<^verbatim>\<open>errors.go\<close>).

  Evaluating one CEL expression is a parameter of the engine: it gives a value, the marker that
  \<open>omit()\<close> leaves, or an error, and what the evaluation cost. \<open>convertCELValue\<close> drops the marker from
  CEL lists and maps, so that it occurs as a whole value. In a native list or map that a function returns the
  code would keep a nested marker until \<open>RemoveOmittedFields\<close> strips it from the rendered resource; the values of the
  parameter are taken to be without nested markers, on which that pass is the identity. Marshalling a value to JSON is a parameter too.

  A render reads and changes the budgets its context carries. The context can be cancelled or expire at any
  time: \<open>rsClock\<close> is the number of times the render can still ask before it learns so, and
  \<open>rsCause\<close> what it is told. The cost budget is kept at its 64 bits.
\<close>

subsection \<open>Errors\<close>

datatype errorKind =
    Canceled
  | DeadlineExceeded
  | ErrCostLimitExceeded
  | ErrCostBudgetExceeded
  | ErrExpansionLimitExceeded
  | ErrNestedExpression
  | Failure

datatype renderError =
    Err errorKind string
  | Wrapped string renderError
  | Joined "renderError list"

text \<open>\<open>errors.Is\<close>, which follows wrapped and joined errors.\<close>

fun errorIs :: "errorKind \<Rightarrow> renderError \<Rightarrow> bool" where
  "errorIs kind (Err k _) = (k = kind)"
| "errorIs kind (Wrapped _ e) = errorIs kind e"
| "errorIs kind (Joined es) = list_ex (errorIs kind) es"

definition IsTerminalRenderError :: "renderError \<Rightarrow> bool" where
  "IsTerminalRenderError err \<longleftrightarrow>
     errorIs ErrCostLimitExceeded err \<or> errorIs ErrCostBudgetExceeded err \<or> errorIs ErrExpansionLimitExceeded err"

definition IsRenderAborted :: "renderError \<Rightarrow> bool" where
  "IsRenderAborted err \<longleftrightarrow> IsTerminalRenderError err \<or> errorIs Canceled err \<or> errorIs DeadlineExceeded err"

definition maxErrorExprLen :: nat where "maxErrorExprLen = 256"

definition TruncationMarker :: string where
  "TruncationMarker = [CHR 0xE2, CHR 0x80, CHR 0xA6] @ ''(truncated)''"

definition runeStart :: "char \<Rightarrow> bool" where
  "runeStart c \<longleftrightarrow> \<not> (128 \<le> (of_char c :: nat) \<and> (of_char c :: nat) < 192)"

text \<open>The loop that moves a cut back to the start of a rune.\<close>

fun runeCut :: "string \<Rightarrow> nat \<Rightarrow> nat" where
  "runeCut s 0 = 0"
| "runeCut s (Suc n) = (if Suc n < length s \<and> \<not> runeStart (s ! Suc n) then runeCut s n else Suc n)"

lemma runeCut_code [code]:
  "runeCut s n = (if n = 0 then 0 else if n < length s \<and> \<not> runeStart (s ! n) then runeCut s (n - 1) else n)"
  by (cases n) simp_all

definition TruncateTo :: "string \<Rightarrow> int \<Rightarrow> string" where
  "TruncateTo s maxBytes =
     (if maxBytes \<le> 0 then []
      else if int (length s) \<le> maxBytes then s
      else let cut = maxBytes - int (length TruncationMarker) in
           if cut \<le> 0 then take (runeCut s (nat maxBytes)) s
           else take (runeCut s (nat cut)) s @ TruncationMarker)"

definition TruncateFragment :: "string \<Rightarrow> string" where
  "TruncateFragment s = TruncateTo s (int maxErrorExprLen)"

subsection \<open>The cost budget\<close>

record CostBudget =
  cbSpent :: "64 word"
  cbBudget :: "64 word"

definition NewCostBudget :: "64 word \<Rightarrow> CostBudget" where
  "NewCostBudget budget = \<lparr>cbSpent = 0, cbBudget = budget\<rparr>"

definition breachError :: "CostBudget \<Rightarrow> renderError" where
  "breachError b = Err ErrCostBudgetExceeded (itoa (uint (cbBudget b)))"

definition breachLocked :: "CostBudget \<Rightarrow> renderError option" where
  "breachLocked b = (if cbBudget b > 0 \<and> cbSpent b > cbBudget b then Some (breachError b) else None)"

definition addCost :: "CostBudget \<Rightarrow> 64 word \<Rightarrow> CostBudget \<times> renderError option" where
  "addCost b cost =
     (if cost > - 1 - cbSpent b then
        (let b' = b\<lparr>cbSpent := - 1\<rparr> in (b', if cbBudget b > 0 then Some (breachError b) else None))
      else (let b' = b\<lparr>cbSpent := cbSpent b + cost\<rparr> in (b', breachLocked b')))"

definition exceeded :: "CostBudget \<Rightarrow> renderError option" where
  "exceeded b = (if cbBudget b > 0 \<and> cbSpent b \<ge> cbBudget b then Some (breachError b) else None)"

definition defaultCELCostLimit :: "64 word" where "defaultCELCostLimit = 2000000"
definition renderBudgetFactor :: "64 word" where "renderBudgetFactor = 1"

definition reconcileBudget :: "64 word \<Rightarrow> 64 word" where
  "reconcileBudget costLimit = (if costLimit = 0 then defaultCELCostLimit else costLimit) * renderBudgetFactor"

subsection \<open>Renders\<close>

record renderState =
  rsBudget :: "CostBudget option"
  rsItems :: "nat option"
  rsPatchOps :: "64 word"
  rsApplied :: nat
  rsClock :: "nat option"
  rsCause :: errorKind

type_synonym 'a render = "renderState \<Rightarrow> (renderError, 'a) result \<times> renderState"

definition returnM :: "'a \<Rightarrow> 'a render" where
  "returnM a rs = (Inr a, rs)"

definition failM :: "renderError \<Rightarrow> 'a render" where
  "failM e rs = (Inl e, rs)"

definition bindM :: "'a render \<Rightarrow> ('a \<Rightarrow> 'b render) \<Rightarrow> 'b render" where
  "bindM m f rs = (case m rs of (Inl e, rs') \<Rightarrow> (Inl e, rs') | (Inr a, rs') \<Rightarrow> f a rs')"

text \<open>The error of a call, wrapped with what the caller adds.\<close>

definition wrapM :: "string \<Rightarrow> 'a render \<Rightarrow> 'a render" where
  "wrapM msg m rs = (case m rs of (Inl e, rs') \<Rightarrow> (Inl (Wrapped msg e), rs') | (Inr a, rs') \<Rightarrow> (Inr a, rs'))"

text \<open>A call whose error the caller looks at.\<close>

definition tryM :: "'a render \<Rightarrow> (renderError, 'a) result render" where
  "tryM m rs = (case m rs of (r, rs') \<Rightarrow> (Inr r, rs'))"

text \<open>Loops that stop at the first error: with the results collected, or with a value threaded through.\<close>

fun seqM :: "'a render list \<Rightarrow> 'a list render" where
  "seqM [] = returnM []"
| "seqM (m # ms) = bindM m (\<lambda>a. bindM (seqM ms) (\<lambda>as. returnM (a # as)))"

fun foldM :: "('b \<Rightarrow> 'a \<Rightarrow> 'b render) \<Rightarrow> 'b \<Rightarrow> 'a list \<Rightarrow> 'b render" where
  "foldM f b [] = returnM b"
| "foldM f b (x # xs) = bindM (f b x) (\<lambda>b'. foldM f b' xs)"

text \<open>\<open>ctx.Err\<close>: once it reports an end, it does so forever.\<close>

definition ctxDone :: "bool render" where
  "ctxDone rs =
     (case rsClock rs of
        None \<Rightarrow> (Inr False, rs)
      | Some 0 \<Rightarrow> (Inr True, rs)
      | Some (Suc n) \<Rightarrow> (Inr False, rs\<lparr>rsClock := Some n\<rparr>))"

definition ctxError :: "string \<Rightarrow> 'a render" where
  "ctxError msg rs = (Inl (Wrapped msg (Err (rsCause rs) [])), rs)"

definition ctxCheck :: "string \<Rightarrow> unit render" where
  "ctxCheck msg = bindM ctxDone (\<lambda>fin. if fin then ctxError msg else returnM ())"

subsection \<open>Expressions in strings\<close>

record celSpan =
  spStart :: nat
  spEnd :: nat
  spInner :: string

text \<open>\<open>strings.Index\<close> for the marker that opens an expression.\<close>

fun indexMarker :: "string \<Rightarrow> nat option" where
  "indexMarker (c # d # s) = (if c = CHR ''$'' \<and> d = CHR ''{'' then Some 0 else map_option Suc (indexMarker (d # s)))"
| "indexMarker _ = None"

text \<open>The inner loop of the scanner, from a position with a number of open braces. It ends one past the closing
  brace, at the end of the string, or at the marker of a nested expression.\<close>

datatype scanned = ClosedAt nat | Unclosed | NestedAt nat

fun scanExpr :: "nat \<Rightarrow> bool \<Rightarrow> bool \<Rightarrow> bool \<Rightarrow> nat \<Rightarrow> string \<Rightarrow> scanned" where
  "scanExpr 0 inSingle inDouble escaped pos s = ClosedAt pos"
| "scanExpr (Suc b) inSingle inDouble escaped pos [] = Unclosed"
| "scanExpr (Suc b) inSingle inDouble escaped pos (c # s) =
     (let quoted = (inSingle \<or> inDouble) in
      if c = CHR 0x5C then scanExpr (Suc b) inSingle inDouble (if quoted then \<not> escaped else escaped) (Suc pos) s
      else if c = CHR 0x27 then
        scanExpr (Suc b) (if \<not> inDouble \<and> \<not> escaped then \<not> inSingle else inSingle) inDouble False (Suc pos) s
      else if c = CHR 0x22 then
        scanExpr (Suc b) inSingle (if \<not> inSingle \<and> \<not> escaped then \<not> inDouble else inDouble) False (Suc pos) s
      else if c = CHR ''{'' then scanExpr (if quoted then Suc b else Suc (Suc b)) inSingle inDouble False (Suc pos) s
      else if c = CHR ''}'' then scanExpr (if quoted then Suc b else b) inSingle inDouble False (Suc pos) s
      else if c = CHR ''$'' \<and> \<not> quoted \<and> s \<noteq> [] \<and> hd s = CHR ''{'' then NestedAt pos
      else scanExpr (Suc b) inSingle inDouble False (Suc pos) s)"

lemma scanExpr_code [code]:
  "scanExpr n inSingle inDouble escaped pos s =
     (if n = 0 then ClosedAt pos
      else (case s of
              [] \<Rightarrow> Unclosed
            | c # s' \<Rightarrow>
                (let quoted = (inSingle \<or> inDouble) in
                 if c = CHR 0x5C then scanExpr n inSingle inDouble (if quoted then \<not> escaped else escaped) (Suc pos) s'
                 else if c = CHR 0x27 then
                   scanExpr n (if \<not> inDouble \<and> \<not> escaped then \<not> inSingle else inSingle) inDouble False (Suc pos) s'
                 else if c = CHR 0x22 then
                   scanExpr n inSingle (if \<not> inSingle \<and> \<not> escaped then \<not> inDouble else inDouble) False (Suc pos) s'
                 else if c = CHR ''{'' then scanExpr (if quoted then n else n + 1) inSingle inDouble False (Suc pos) s'
                 else if c = CHR ''}'' then scanExpr (if quoted then n else n - 1) inSingle inDouble False (Suc pos) s'
                 else if c = CHR ''$'' \<and> \<not> quoted \<and> s' \<noteq> [] \<and> hd s' = CHR ''{'' then NestedAt pos
                 else scanExpr n inSingle inDouble False (Suc pos) s')))"
  by (cases n; cases s) (simp_all only: scanExpr.simps, simp_all add: Let_def)

lemma scanExpr_pos: "scanExpr b q d e pos s = ClosedAt p \<Longrightarrow> pos \<le> p \<and> p \<le> pos + length s"
proof (induction s arbitrary: b q d e pos)
  case Nil
  then show ?case by (cases b) simp_all
next
  case (Cons c s)
  show ?case
  proof (cases b)
    case (Suc b')
    with Cons.prems obtain b2 q2 d2 e2 where "scanExpr b2 q2 d2 e2 (Suc pos) s = ClosedAt p"
      by (simp only: scanExpr.simps Let_def split: if_splits) blast+
    from Cons.IH[OF this] show ?thesis by simp
  qed (use Cons.prems in simp)
qed

function celSpansFrom :: "string \<Rightarrow> nat \<Rightarrow> (renderError, celSpan list) result" where
  "celSpansFrom str i =
     (if i < length str then
        (case indexMarker (drop i str) of
           None \<Rightarrow> Inr []
         | Some k \<Rightarrow>
             (case scanExpr 1 False False False (i + k + 2) (drop (i + k + 2) str) of
                NestedAt pos \<Rightarrow> Inl (Err ErrNestedExpression (TruncateFragment (take (pos + 2 - (i + k)) (drop (i + k) str))))
              | Unclosed \<Rightarrow> Inr []
              | ClosedAt pos \<Rightarrow>
                  bindR (celSpansFrom str pos)
                    (\<lambda>spans. Inr (\<lparr>spStart = i + k, spEnd = pos, spInner = take (pos - 1 - (i + k + 2)) (drop (i + k + 2) str)\<rparr> # spans))))
      else Inr [])"
  by pat_completeness auto
termination
proof (relation "measure (\<lambda>(str, i). length str - i)", goal_cases)
  case 1
  show ?case by simp
next
  case (2 str i k pos)
  then show ?case using scanExpr_pos[of 1 False False False "i + k + 2" "drop (i + k + 2) str" pos] by auto
qed

declare celSpansFrom.simps [simp del]

definition findCELSpans :: "string \<Rightarrow> (renderError, celSpan list) result" where
  "findCELSpans str = celSpansFrom str 0"

definition spanText :: "string \<Rightarrow> celSpan \<Rightarrow> string" where
  "spanText str sp = take (spEnd sp - spStart sp) (drop (spStart sp) str)"

record CELMatch =
  cmFullExpr :: string
  cmInnerExpr :: string

definition FindCELExpressions :: "string \<Rightarrow> (renderError, CELMatch list) result" where
  "FindCELExpressions str =
     bindR (findCELSpans str) (\<lambda>spans. Inr (map (\<lambda>sp. \<lparr>cmFullExpr = spanText str sp, cmInnerExpr = spInner sp\<rparr>) spans))"

subsection \<open>Evaluation\<close>

datatype rendered = OmitSentinel | Rendered jval

text \<open>What \<open>cel-go\<close> does with an expression: it cannot be prepared, or it is evaluated with some outcome.\<close>

datatype celOutcome =
    NotPrepared string
  | OmitError
  | CostLimitHit string
  | EvalError string
  | EvalValue rendered

record Engine =
  engEval :: "bool \<Rightarrow> string \<Rightarrow> jobj \<Rightarrow> celOutcome \<times> 64 word"
  engMarshal :: "jval \<Rightarrow> string"
  engCostLimit :: "64 word"

definition checkBudget :: "string \<Rightarrow> unit render" where
  "checkBudget expression rs =
     (case rsBudget rs of
        None \<Rightarrow> (Inr (), rs)
      | Some b \<Rightarrow>
          (case exceeded b of
             None \<Rightarrow> (Inr (), rs)
           | Some e \<Rightarrow> (Inl (Wrapped (''CEL evaluation skipped for expression '' @ TruncateFragment expression) e), rs)))"

definition chargeCost :: "64 word \<Rightarrow> renderError option render" where
  "chargeCost cost rs =
     (case rsBudget rs of
        None \<Rightarrow> (Inr None, rs)
      | Some b \<Rightarrow> (case addCost b cost of (b', breach) \<Rightarrow> (Inr breach, rs\<lparr>rsBudget := Some b'\<rparr>)))"

definition evalErrorText :: "string \<Rightarrow> string" where
  "evalErrorText expression = ''CEL evaluation error in expression '' @ TruncateFragment expression"

definition evaluateCEL :: "Engine \<Rightarrow> string \<Rightarrow> jobj \<Rightarrow> rendered render" where
  "evaluateCEL e expression inputs =
     bindM (checkBudget expression) (\<lambda>_.
     bindM ctxDone (\<lambda>expired.
       (case engEval e expired expression inputs of
          (NotPrepared msg, _) \<Rightarrow> failM (Err Failure msg)
        | (outcome, cost) \<Rightarrow>
            bindM (chargeCost cost) (\<lambda>breach.
              (case (outcome, breach) of
                 (OmitError, Some b) \<Rightarrow> failM (Wrapped (evalErrorText expression) b)
               | (OmitError, None) \<Rightarrow> returnM OmitSentinel
               | (CostLimitHit msg, _) \<Rightarrow>
                   bindM ctxDone (\<lambda>fin.
                     if fin then ctxError (''CEL evaluation interrupted in expression '' @ TruncateFragment expression)
                     else failM (Wrapped (evalErrorText expression) (Err ErrCostLimitExceeded msg)))
               | (EvalError msg, _) \<Rightarrow>
                   bindM ctxDone (\<lambda>fin.
                     if fin then ctxError (''CEL evaluation interrupted in expression '' @ TruncateFragment expression)
                     else failM (Wrapped (evalErrorText expression) (Err Failure msg)))
               | (EvalValue v, Some b) \<Rightarrow> failM (Wrapped (evalErrorText expression) b)
               | (EvalValue v, None) \<Rightarrow> returnM v
               | (NotPrepared msg, _) \<Rightarrow> failM (Err Failure msg))))))"

subsection \<open>Rendering\<close>

text \<open>The text that replaces an expression within a longer string. The marker is a pointer to an empty struct.\<close>

definition replacementText :: "Engine \<Rightarrow> rendered \<Rightarrow> string" where
  "replacementText e v =
     (case v of
        OmitSentinel \<Rightarrow> ''{}''
      | Rendered (JStr s) \<Rightarrow> s
      | Rendered (JInt i) \<Rightarrow> itoa i
      | Rendered (JFloat f) \<Rightarrow> f
      | Rendered (JBool b) \<Rightarrow> (if b then ''true'' else ''false'')
      | Rendered other \<Rightarrow> engMarshal e other)"

text \<open>The pass over the expressions of a string, from a cursor.\<close>

fun interpolate :: "Engine \<Rightarrow> string \<Rightarrow> jobj \<Rightarrow> nat \<Rightarrow> celSpan list \<Rightarrow> string render" where
  "interpolate e str inputs cursor [] = returnM (drop cursor str)"
| "interpolate e str inputs cursor (sp # spans) =
     bindM (evaluateCEL e (spInner sp) inputs) (\<lambda>v.
     bindM (interpolate e str inputs (spEnd sp) spans) (\<lambda>rest.
       returnM (take (spStart sp - cursor) (drop cursor str) @ replacementText e v @ rest)))"

definition interruptedText :: string where
  "interruptedText = ''template render interrupted''"

definition renderString :: "Engine \<Rightarrow> jobj \<Rightarrow> string \<Rightarrow> rendered render" where
  "renderString e inputs str =
     bindM (ctxCheck interruptedText) (\<lambda>_.
       (case findCELSpans str of
          Inl err \<Rightarrow> failM err
        | Inr [] \<Rightarrow> returnM (Rendered (JStr str))
        | Inr [sp] \<Rightarrow>
            if spanText str sp = trimSpace str then evaluateCEL e (spInner sp) inputs
            else bindM (interpolate e str inputs 0 [sp]) (\<lambda>s. returnM (Rendered (JStr s)))
        | Inr spans \<Rightarrow> bindM (interpolate e str inputs 0 spans) (\<lambda>s. returnM (Rendered (JStr s)))))"

definition dropOmitted :: "rendered list \<Rightarrow> jval list" where
  "dropOmitted vs = List.map_filter (\<lambda>v. case v of OmitSentinel \<Rightarrow> None | Rendered j \<Rightarrow> Some j) vs"

text \<open>One key of an object: its name is rendered, then its value, which may be left out.\<close>

definition renderEntry :: "Engine \<Rightarrow> jobj \<Rightarrow> jobj \<Rightarrow> string \<times> rendered render \<Rightarrow> jobj render" where
  "renderEntry e inputs res kv =
     bindM (renderString e inputs (fst kv)) (\<lambda>renderedKey.
       (case renderedKey of
          Rendered (JStr evaluatedKey) \<Rightarrow>
            bindM (snd kv) (\<lambda>v. returnM (case v of OmitSentinel \<Rightarrow> res | Rendered j \<Rightarrow> fmupd evaluatedKey j res))
        | _ \<Rightarrow> failM (Err Failure (''dynamic map key must evaluate to a string: '' @ TruncateFragment (fst kv)))))"

primrec renderValue :: "Engine \<Rightarrow> jobj \<Rightarrow> jval \<Rightarrow> rendered render" where
  "renderValue e inputs JNil = bindM (ctxCheck interruptedText) (\<lambda>_. returnM (Rendered JNil))"
| "renderValue e inputs (JBool b) = bindM (ctxCheck interruptedText) (\<lambda>_. returnM (Rendered (JBool b)))"
| "renderValue e inputs (JInt i) = bindM (ctxCheck interruptedText) (\<lambda>_. returnM (Rendered (JInt i)))"
| "renderValue e inputs (JFloat f) = bindM (ctxCheck interruptedText) (\<lambda>_. returnM (Rendered (JFloat f)))"
| "renderValue e inputs (JStr s) = bindM (ctxCheck interruptedText) (\<lambda>_. renderString e inputs s)"
| "renderValue e inputs (JArr xs) =
     bindM (ctxCheck interruptedText) (\<lambda>_.
     bindM (seqM (map (renderValue e inputs) xs)) (\<lambda>vs. returnM (Rendered (JArr (dropOmitted vs)))))"
| "renderValue e inputs (JMaps ms) = bindM (ctxCheck interruptedText) (\<lambda>_. returnM (Rendered (JMaps ms)))"
| "renderValue e inputs (JObj m) =
     bindM (ctxCheck interruptedText) (\<lambda>_.
     bindM (foldM (renderEntry e inputs) fmempty (sorted_list_of_fmap (fmmap (renderValue e inputs) m)))
       (\<lambda>obj. returnM (Rendered (JObj obj))))"

text \<open>\<open>Render\<close>: without a budget in the context, it has one of its own.\<close>

definition Render :: "Engine \<Rightarrow> jval \<Rightarrow> jobj \<Rightarrow> rendered render" where
  "Render e data inputs rs =
     (case rsBudget rs of
        Some _ \<Rightarrow> renderValue e inputs data rs
      | None \<Rightarrow>
          (case renderValue e inputs data (rs\<lparr>rsBudget := Some (NewCostBudget (engCostLimit e * renderBudgetFactor))\<rparr>) of
             (r, rs') \<Rightarrow> (r, rs'\<lparr>rsBudget := None\<rparr>)))"

end
