(* ===== verification/Component_Render.thy ===== *)
theory Component_Render
  imports Template_Engine Patch_Ops
begin

text \<open>
  Rendering of resource templates (\<^verbatim>\<open>src/internal/pipeline/component/renderer\<close>): conditions, repetition with its
  limits, validation rules, and the resources of a component type.

  A template is what unmarshalling its JSON gives, or nothing if that fails.
\<close>

subsection \<open>Control flow\<close>

definition maxForEachItems :: nat where "maxForEachItems = 100"
definition maxForEachItemsPerRender :: nat where "maxForEachItemsPerRender = 10000"

definition WithForEachBudget :: "renderState \<Rightarrow> renderState" where
  "WithForEachBudget rs = (case rsItems rs of None \<Rightarrow> rs\<lparr>rsItems := Some 0\<rparr> | Some _ \<Rightarrow> rs)"

definition checkForEachLimit :: "nat \<Rightarrow> unit render" where
  "checkForEachLimit n rs =
     (if n > maxForEachItems then (Inl (Err ErrExpansionLimitExceeded (itoa (int n))), rs)
      else (case rsItems rs of
              None \<Rightarrow> (Inr (), rs)
            | Some spent \<Rightarrow>
                if int spent > int maxForEachItemsPerRender - int n
                then (Inl (Err ErrExpansionLimitExceeded []), rs\<lparr>rsItems := Some (maxForEachItemsPerRender + 1)\<rparr>)
                else (Inr (), rs\<lparr>rsItems := Some (spent + n)\<rparr>)))"

definition ToIterableItems :: "rendered \<Rightarrow> jval list render" where
  "ToIterableItems res =
     (case res of
        Rendered (JArr v) \<Rightarrow> bindM (checkForEachLimit (length v)) (\<lambda>_. returnM v)
      | Rendered (JMaps v) \<Rightarrow> bindM (checkForEachLimit (length v)) (\<lambda>_. returnM (map JObj v))
      | Rendered (JObj v) \<Rightarrow>
          bindM (checkForEachLimit (fcard (fmdom v))) (\<lambda>_.
            returnM (map (\<lambda>(k, x). JObj (fmap_of_list [(''key'', JStr k), (''value'', x)])) (sorted_list_of_fmap v)))
      | _ \<Rightarrow> failM (Err Failure ''forEach must evaluate to array or map''))"

definition ShouldInclude :: "Engine \<Rightarrow> string \<Rightarrow> jobj \<Rightarrow> bool render" where
  "ShouldInclude e includeWhen celContext =
     (if includeWhen = [] then returnM True
      else bindM (Render e (JStr includeWhen) celContext) (\<lambda>v.
             (case v of
                Rendered (JBool b) \<Rightarrow> returnM b
              | _ \<Rightarrow> failM (Err Failure ''includeWhen must evaluate to boolean''))))"

definition loopVar :: "string \<Rightarrow> string" where
  "loopVar varName = (if varName = [] then ''item'' else varName)"

definition EvalForEach :: "Engine \<Rightarrow> string \<Rightarrow> string \<Rightarrow> jobj \<Rightarrow> jobj list render" where
  "EvalForEach e forEach varName celContext =
     bindM (Render e (JStr forEach) celContext) (\<lambda>res.
     bindM (ToIterableItems res) (\<lambda>items.
       returnM (map (\<lambda>item. fmupd (loopVar varName) item celContext) items)))"

record ValidationRule =
  vrRule :: string
  vrMessage :: string

text \<open>The loop over the rules: failures are collected, and an aborted render ends it.\<close>

fun validationErrors :: "Engine \<Rightarrow> jobj \<Rightarrow> nat \<Rightarrow> ValidationRule list \<Rightarrow> renderError list render" where
  "validationErrors e celContext i [] = returnM []"
| "validationErrors e celContext i (rule # rules) =
     bindM (tryM (Render e (JStr (vrRule rule)) celContext)) (\<lambda>res.
       (case res of
          Inl err \<Rightarrow>
            (let failed = Wrapped (''rule['' @ itoa (int i) @ ''] evaluation error'') err in
             if IsRenderAborted err then returnM [failed]
             else bindM (validationErrors e celContext (i + 1) rules) (\<lambda>errs. returnM (failed # errs)))
        | Inr v \<Rightarrow>
            bindM (validationErrors e celContext (i + 1) rules) (\<lambda>errs.
              returnM ((case v of
                          Rendered (JBool True) \<Rightarrow> []
                        | Rendered (JBool False) \<Rightarrow> [Err Failure (''rule['' @ itoa (int i) @ ''] evaluated to false: '' @ vrMessage rule)]
                        | _ \<Rightarrow> [Err Failure (''rule['' @ itoa (int i) @ ''] must evaluate to boolean'')]) @ errs))))"

text \<open>\<open>errors.Join\<close>: no error for an empty list.\<close>

definition joinErrors :: "renderError list \<Rightarrow> unit render" where
  "joinErrors errs = (if errs = [] then returnM () else failM (Joined errs))"

definition EvaluateValidationRules :: "Engine \<Rightarrow> ValidationRule list \<Rightarrow> jobj \<Rightarrow> unit render" where
  "EvaluateValidationRules e rules celContext = bindM (validationErrors e celContext 0 rules) joinErrors"

subsection \<open>Resources\<close>

record RenderedResource =
  rrResource :: jobj
  rrTargetPlane :: string

record ResourceTemplate =
  rtID :: string
  rtTargetPlane :: string
  rtIncludeWhen :: string
  rtForEach :: string
  rtVar :: string
  rtTemplate :: "jval option"

text \<open>A field that must be a string; a field that is not is read as the empty string.\<close>

definition strField :: "jobj \<Rightarrow> string \<Rightarrow> string" where
  "strField m k = (case fmlookup m k of Some (JStr s) \<Rightarrow> s | _ \<Rightarrow> [])"

definition objField :: "jobj \<Rightarrow> string \<Rightarrow> jobj option" where
  "objField m k = (case fmlookup m k of Some (JObj o') \<Rightarrow> Some o' | _ \<Rightarrow> None)"

definition validateResource :: "jobj \<Rightarrow> string \<Rightarrow> renderError option" where
  "validateResource res resourceID =
     (let missing = (\<lambda>field. Some (Err Failure (''resource '' @ resourceID @ '' missing required field '' @ field))) in
      if strField res ''kind'' = [] then missing ''kind''
      else if strField res ''apiVersion'' = [] then missing ''apiVersion''
      else (case objField res ''metadata'' of
              None \<Rightarrow> missing ''metadata''
            | Some metadata \<Rightarrow> if strField metadata ''name'' = [] then missing ''metadata.name'' else None))"

text \<open>Unmarshalling a template, rendering it, and requiring an object. \<open>RemoveOmittedFields\<close> comes between the last two: it is
  the identity on values without nested markers of \<open>omit()\<close>.\<close>

definition renderObject :: "Engine \<Rightarrow> string \<Rightarrow> jval option \<Rightarrow> jobj \<Rightarrow> jobj render" where
  "renderObject e what tmpl celContext =
     (case tmpl of
        None \<Rightarrow> failM (Err Failure (''failed to unmarshal template for '' @ what))
      | Some data \<Rightarrow>
          bindM (wrapM (''failed to render template for '' @ what) (Render e data celContext)) (\<lambda>v.
            (case v of
               Rendered (JObj m) \<Rightarrow> returnM m
             | _ \<Rightarrow> failM (Err Failure (''template must render to object for '' @ what)))))"

definition renderSingleResource :: "Engine \<Rightarrow> ResourceTemplate \<Rightarrow> jobj \<Rightarrow> jobj render" where
  "renderSingleResource e tmpl celContext =
     bindM (renderObject e (''resource '' @ rtID tmpl) (rtTemplate tmpl) celContext) (\<lambda>m.
       (case validateResource m (rtID tmpl) of None \<Rightarrow> returnM m | Some err \<Rightarrow> failM err))"

definition renderWithForEach :: "Engine \<Rightarrow> ResourceTemplate \<Rightarrow> jobj \<Rightarrow> jobj list render" where
  "renderWithForEach e tmpl celContext =
     bindM (wrapM (''failed to evaluate forEach for resource '' @ rtID tmpl) (EvalForEach e (rtForEach tmpl) (rtVar tmpl) celContext))
       (\<lambda>itemContexts. seqM (map (renderSingleResource e tmpl) itemContexts))"

text \<open>The resources one template adds.\<close>

definition renderTemplate :: "Engine \<Rightarrow> jobj \<Rightarrow> ResourceTemplate \<Rightarrow> jobj list render" where
  "renderTemplate e celContext tmpl =
     bindM (wrapM (''failed to evaluate includeWhen for resource '' @ rtID tmpl) (ShouldInclude e (rtIncludeWhen tmpl) celContext)) (\<lambda>inc.
       if \<not> inc then returnM []
       else if rtForEach tmpl \<noteq> [] then renderWithForEach e tmpl celContext
       else bindM (renderSingleResource e tmpl celContext) (\<lambda>m. returnM [m]))"

definition RenderResources :: "Engine \<Rightarrow> ResourceTemplate list \<Rightarrow> jobj \<Rightarrow> RenderedResource list render" where
  "RenderResources e templates celContext =
     foldM (\<lambda>resources tmpl. bindM (renderTemplate e celContext tmpl) (\<lambda>ms.
              returnM (resources @ map (\<lambda>m. \<lparr>rrResource = m, rrTargetPlane = rtTargetPlane tmpl\<rparr>) ms)))
       [] templates"

end
