(* ===== verification/Component_Traits.thy ===== *)
theory Component_Traits
  imports Component_Render
begin

text \<open>
  Traits (\<^verbatim>\<open>src/internal/pipeline/component/trait/processor.go\<close>, with the types of
  \<^verbatim>\<open>src/api/v1alpha1/trait_types.go\<close>): creating, patching and removing resources.

  A slice of resources holds references: patches change a resource in place, so a selection of resources is a list
  of positions with the resources found there.

  \<open>rsPatchOps\<close> is the counter of the processor, of 64 bits as in the code; \<open>rsApplied\<close> counts the operations that
  are handed to the patch engine and exists only in the model. An error abandons the render, so the
  resources a failed call has changed in place are not part of its result.
\<close>

subsection \<open>Types\<close>

record PatchTarget =
  ptgGroup :: string
  ptgVersion :: string
  ptgKind :: string
  ptgWhere :: string

record TraitCreate =
  tcTargetPlane :: string
  tcIncludeWhen :: string
  tcForEach :: string
  tcVar :: string
  tcTemplate :: "jval option"

text \<open>The value of an operation, if it has one: what unmarshalling gives, or nothing if that fails.\<close>

record TraitOperation =
  toOp :: string
  toPath :: string
  toValue :: "jval option option"

record TraitPatch =
  tpForEach :: string
  tpVar :: string
  tpTarget :: PatchTarget
  tpTargetPlane :: string
  tpOperations :: "TraitOperation list"

record TraitRemove =
  trmForEach :: string
  trmVar :: string
  trmTarget :: PatchTarget
  trmTargetPlane :: string

record PostRenderValidation =
  pvWhen :: string
  pvForEach :: string
  pvVar :: string
  pvTarget :: PatchTarget
  pvMustMatch :: "bool option"
  pvTargetPlane :: string
  pvRule :: string
  pvMessage :: string

record TraitSpec =
  tsValidations :: "ValidationRule list"
  tsPreRenderValidations :: "ValidationRule list"
  tsPostRenderValidations :: "PostRenderValidation list"
  tsCreates :: "TraitCreate list"
  tsPatches :: "TraitPatch list"
  tsRemoves :: "TraitRemove list"

record Trait =
  tKind :: string
  tName :: string
  tSpec :: TraitSpec

definition EffectivePreRenderValidations :: "ValidationRule list \<Rightarrow> ValidationRule list \<Rightarrow> ValidationRule list" where
  "EffectivePreRenderValidations preRender validations = (if preRender \<noteq> [] then preRender else validations)"

subsection \<open>Targets\<close>

record TargetSpec =
  tgKind :: string
  tgGroup :: string
  tgVersion :: string
  tgWhere :: string
  tgTargetPlane :: string

definition splitAPIVersion :: "string \<Rightarrow> string \<times> string" where
  "splitAPIVersion apiVersion =
     (if apiVersion = [] then ([], [])
      else (case splitN2 (CHR ''/'') apiVersion of [g, v] \<Rightarrow> (g, v) | _ \<Rightarrow> ([], apiVersion)))"

definition matchesTarget :: "RenderedResource \<Rightarrow> TargetSpec \<Rightarrow> bool" where
  "matchesTarget rr target =
     (let (group, version) = (case fmlookup (rrResource rr) ''apiVersion'' of Some (JStr gv) \<Rightarrow> splitAPIVersion gv | _ \<Rightarrow> ([], [])) in
      \<not> (tgTargetPlane target \<noteq> [] \<and> rrTargetPlane rr \<noteq> tgTargetPlane target) \<and>
      \<not> (tgKind target \<noteq> [] \<and> fmlookup (rrResource rr) ''kind'' \<noteq> Some (JStr (tgKind target))) \<and>
      \<not> (tgGroup target \<noteq> [] \<and> group \<noteq> tgGroup target) \<and>
      \<not> (tgVersion target \<noteq> [] \<and> version \<noteq> tgVersion target))"

type_synonym selection = "(nat \<times> RenderedResource) list"

definition FindTargetResources :: "RenderedResource list \<Rightarrow> TargetSpec \<Rightarrow> selection" where
  "FindTargetResources resources target = filter (\<lambda>(_, rr). matchesTarget rr target) (List.enumerate 0 resources)"

definition targetSpec :: "PatchTarget \<Rightarrow> string \<Rightarrow> TargetSpec" where
  "targetSpec t plane =
     \<lparr>tgKind = ptgKind t, tgGroup = ptgGroup t, tgVersion = ptgVersion t, tgWhere = ptgWhere t, tgTargetPlane = plane\<rparr>"

text \<open>A where clause for one resource, which the context binds.\<close>

definition evalWhere :: "Engine \<Rightarrow> string \<Rightarrow> jobj \<Rightarrow> RenderedResource \<Rightarrow> bool render" where
  "evalWhere e whereClause baseContext rr =
     bindM (wrapM (''failed to evaluate where clause '' @ TruncateFragment whereClause)
              (Render e (JStr whereClause) (fmupd ''resource'' (JObj (rrResource rr)) baseContext)))
       (\<lambda>v. (case v of
               Rendered (JBool b) \<Rightarrow> returnM b
             | _ \<Rightarrow> failM (Err Failure (''where clause must evaluate to boolean: '' @ TruncateFragment whereClause))))"

definition filterTargets :: "Engine \<Rightarrow> selection \<Rightarrow> string \<Rightarrow> jobj \<Rightarrow> selection render" where
  "filterTargets e targets whereClause baseContext =
     foldM (\<lambda>filtered irr. bindM (evalWhere e whereClause baseContext (snd irr)) (\<lambda>b.
              returnM (if b then filtered @ [irr] else filtered))) [] targets"

subsection \<open>Creates\<close>

definition renderSingleCreate :: "Engine \<Rightarrow> string \<Rightarrow> TraitCreate \<Rightarrow> jobj \<Rightarrow> RenderedResource render" where
  "renderSingleCreate e path create celContext =
     bindM (renderObject e path (tcTemplate create) celContext) (\<lambda>m.
       returnM \<lparr>rrResource = m, rrTargetPlane = tcTargetPlane create\<rparr>)"

text \<open>The resources one template of a trait adds.\<close>

definition applyCreate :: "Engine \<Rightarrow> string \<Rightarrow> jobj \<Rightarrow> TraitCreate \<Rightarrow> RenderedResource list render" where
  "applyCreate e createPath traitContext create =
     bindM (wrapM (''failed to evaluate includeWhen for '' @ createPath) (ShouldInclude e (tcIncludeWhen create) traitContext)) (\<lambda>inc.
       if \<not> inc then returnM []
       else if tcForEach create \<noteq> [] then
         bindM (wrapM (''failed to evaluate forEach for '' @ createPath) (EvalForEach e (tcForEach create) (tcVar create) traitContext))
           (\<lambda>itemContexts. seqM (map (renderSingleCreate e createPath create) itemContexts))
       else bindM (renderSingleCreate e createPath create traitContext) (\<lambda>rr. returnM [rr]))"

definition ApplyTraitCreates :: "Engine \<Rightarrow> RenderedResource list \<Rightarrow> Trait \<Rightarrow> jobj \<Rightarrow> RenderedResource list render" where
  "ApplyTraitCreates e resources trait traitContext =
     foldM (\<lambda>rs (i, create).
              bindM (applyCreate e (''trait '' @ tName trait @ '' create #'' @ itoa (int i)) traitContext create)
                (\<lambda>new. returnM (rs @ new)))
       resources (List.enumerate 0 (tsCreates (tSpec trait)))"

subsection \<open>Patches\<close>

definition maxPatchOperations :: "64 word" where "maxPatchOperations = 10000"

definition chargePatchOperations :: "64 word \<Rightarrow> 64 word \<Rightarrow> unit render" where
  "chargePatchOperations targets operations rs =
     (if targets = 0 \<or> operations = 0 then (Inr (), rs)
      else let remaining = maxPatchOperations - rsPatchOps rs in
           if targets > remaining div operations
           then (Inl (Err ErrExpansionLimitExceeded (itoa (uint (rsPatchOps rs + targets * operations)))), rs)
           else (Inr (), rs\<lparr>rsPatchOps := rsPatchOps rs + targets * operations\<rparr>))"

text \<open>A path must render to a string. A value that renders to the marker of \<open>omit()\<close> stays a pointer to an empty
  struct, which is written out as an empty object; only \<open>mergeShallow\<close>, which is no operation of a trait, would tell
  them apart.\<close>

definition renderOperation :: "Engine \<Rightarrow> jobj \<Rightarrow> TraitOperation \<Rightarrow> JSONPatchOperation render" where
  "renderOperation e celContext op =
     bindM (wrapM (''failed to render path '' @ toPath op) (Render e (JStr (toPath op)) celContext)) (\<lambda>pathValue.
       (case pathValue of
          Rendered (JStr path) \<Rightarrow>
            (if toOp op = ''remove'' then returnM \<lparr>Op = toOp op, Path = path, Value = JNil\<rparr>
             else (case toValue op of
                     None \<Rightarrow> returnM \<lparr>Op = toOp op, Path = path, Value = JNil\<rparr>
                   | Some None \<Rightarrow> failM (Err Failure ''failed to unmarshal value'')
                   | Some (Some raw) \<Rightarrow>
                       bindM (wrapM ''failed to render value'' (Render e raw celContext)) (\<lambda>v.
                         returnM \<lparr>Op = toOp op, Path = path,
                                  Value = (case v of OmitSentinel \<Rightarrow> JObj fmempty | Rendered j \<Rightarrow> j)\<rparr>)))
        | _ \<Rightarrow> failM (Err Failure (''path must evaluate to string: '' @ toPath op))))"

definition renderOperations :: "Engine \<Rightarrow> TraitOperation list \<Rightarrow> jobj \<Rightarrow> JSONPatchOperation list render" where
  "renderOperations e operations celContext = seqM (map (renderOperation e celContext) operations)"

text \<open>One turn of the loop over the targets.\<close>

definition patchTarget :: "string \<Rightarrow> JSONPatchOperation list \<Rightarrow> RenderedResource list \<Rightarrow> nat \<Rightarrow> RenderedResource list render" where
  "patchTarget what ops resources i =
     bindM (ctxCheck (what @ '' interrupted'')) (\<lambda>_ rs.
       let rs' = rs\<lparr>rsApplied := rsApplied rs + length ops\<rparr> in
       (case ApplyPatches (rrResource (resources ! i)) ops of
          (m, None) \<Rightarrow> (Inr (resources[i := (resources ! i)\<lparr>rrResource := m\<rparr>]), rs')
        | (m, Some err) \<Rightarrow> (Inl (Err Failure (''failed to apply patches for '' @ what)), rs')))"

definition applyPatchOnce :: "Engine \<Rightarrow> string \<Rightarrow> TraitPatch \<Rightarrow> RenderedResource list \<Rightarrow> jobj \<Rightarrow> RenderedResource list render" where
  "applyPatchOnce e what traitPatch resources celContext =
     (let target = targetSpec (tpTarget traitPatch) (tpTargetPlane traitPatch);
          matched = FindTargetResources resources target in
      if matched = [] then returnM resources
      else bindM (if tgWhere target \<noteq> [] then filterTargets e matched (tgWhere target) celContext else returnM matched) (\<lambda>targets.
             if targets = [] then returnM resources
             else bindM (renderOperations e (tpOperations traitPatch) celContext) (\<lambda>ops.
                  bindM (wrapM what (chargePatchOperations (word_of_nat (length targets)) (word_of_nat (length ops)))) (\<lambda>_.
                    foldM (patchTarget what ops) resources (map fst targets)))))"

definition applyPatchWithForEach :: "Engine \<Rightarrow> string \<Rightarrow> TraitPatch \<Rightarrow> RenderedResource list \<Rightarrow> jobj \<Rightarrow> RenderedResource list render" where
  "applyPatchWithForEach e what traitPatch resources baseContext =
     bindM (wrapM (''failed to evaluate forEach expression for '' @ what) (Render e (JStr (tpForEach traitPatch)) baseContext)) (\<lambda>itemsRaw.
     bindM (wrapM (''invalid forEach result for '' @ what) (ToIterableItems itemsRaw)) (\<lambda>items.
       foldM (\<lambda>rs (i, item).
                wrapM (''forEach iteration '' @ itoa (int i) @ '' failed'')
                  (applyPatchOnce e what traitPatch rs (fmupd (loopVar (tpVar traitPatch)) item baseContext)))
         resources (List.enumerate 0 items)))"

definition applyPatch :: "Engine \<Rightarrow> string \<Rightarrow> TraitPatch \<Rightarrow> RenderedResource list \<Rightarrow> jobj \<Rightarrow> RenderedResource list render" where
  "applyPatch e what traitPatch resources baseContext =
     (if tpForEach traitPatch \<noteq> [] then applyPatchWithForEach e what traitPatch resources baseContext
      else applyPatchOnce e what traitPatch resources baseContext)"

definition ApplyTraitPatches :: "Engine \<Rightarrow> RenderedResource list \<Rightarrow> Trait \<Rightarrow> jobj \<Rightarrow> RenderedResource list render" where
  "ApplyTraitPatches e resources trait traitContext =
     foldM (\<lambda>rs (i, traitPatch).
              (let what = ''trait '' @ tName trait @ '' patch #'' @ itoa (int i) in
               wrapM (''failed to apply '' @ what) (applyPatch e what traitPatch rs traitContext)))
       resources (List.enumerate 0 (tsPatches (tSpec trait)))"

subsection \<open>Removes\<close>

text \<open>The resources to remove are marked by their position.\<close>

definition collectRemovalsOnce :: "Engine \<Rightarrow> TraitRemove \<Rightarrow> RenderedResource list \<Rightarrow> nat list \<Rightarrow> jobj \<Rightarrow> nat list render" where
  "collectRemovalsOnce e remove resources toRemove celContext =
     (let target = targetSpec (trmTarget remove) (trmTargetPlane remove) in
      foldM (\<lambda>marked (i, rr).
               if \<not> matchesTarget rr target then returnM marked
               else if tgWhere target \<noteq> [] then
                 bindM (evalWhere e (tgWhere target) celContext rr) (\<lambda>b. returnM (if b then List.insert i marked else marked))
               else returnM (List.insert i marked))
        toRemove (List.enumerate 0 resources))"

definition collectRemovalsForEntry ::
    "Engine \<Rightarrow> string \<Rightarrow> TraitRemove \<Rightarrow> RenderedResource list \<Rightarrow> nat list \<Rightarrow> jobj \<Rightarrow> nat list render" where
  "collectRemovalsForEntry e what remove resources toRemove baseContext =
     (if trmForEach remove = [] then collectRemovalsOnce e remove resources toRemove baseContext
      else bindM (wrapM (''failed to evaluate forEach expression for '' @ what) (Render e (JStr (trmForEach remove)) baseContext)) (\<lambda>itemsRaw.
           bindM (wrapM (''invalid forEach result for '' @ what) (ToIterableItems itemsRaw)) (\<lambda>items.
             foldM (\<lambda>marked (i, item).
                      wrapM (''forEach iteration '' @ itoa (int i) @ '' failed'')
                        (collectRemovalsOnce e remove resources marked (fmupd (loopVar (trmVar remove)) item baseContext)))
               toRemove (List.enumerate 0 items))))"

definition ApplyTraitRemoves :: "Engine \<Rightarrow> RenderedResource list \<Rightarrow> Trait \<Rightarrow> jobj \<Rightarrow> RenderedResource list render" where
  "ApplyTraitRemoves e resources trait traitContext =
     bindM (foldM (\<lambda>marked (i, remove).
                     (let what = ''trait '' @ tName trait @ '' remove #'' @ itoa (int i) in
                      wrapM (''failed to apply '' @ what) (collectRemovalsForEntry e what remove resources marked traitContext)))
              [] (List.enumerate 0 (tsRemoves (tSpec trait))))
       (\<lambda>toRemove. returnM (map snd (filter (\<lambda>(i, rr). i \<notin> set toRemove) (List.enumerate 0 resources))))"

definition ProcessTraits :: "Engine \<Rightarrow> RenderedResource list \<Rightarrow> Trait \<Rightarrow> jobj \<Rightarrow> RenderedResource list render" where
  "ProcessTraits e resources trait traitContext =
     bindM (ApplyTraitCreates e resources trait traitContext) (\<lambda>created.
     bindM (ApplyTraitPatches e created trait traitContext) (\<lambda>patched.
       ApplyTraitRemoves e patched trait traitContext))"

end
