(* ===== verification/Component_Pipeline.thy ===== *)
theory Component_Pipeline
  imports Component_Traits "HOL-Library.Product_Lexorder"
begin

text \<open>
  The rendering pipeline of a component: \<^verbatim>\<open>src/internal/pipeline/component/pipeline.go\<close>, the checks
  on the rendered resources (\<^verbatim>\<open>postrender.go\<close>), the inputs (\<^verbatim>\<open>types.go\<close>) and the bindings
  of embedded traits (\<^verbatim>\<open>context/embedded_trait.go\<close>).

  Building the contexts of the component and of its traits from schemas and workload data, the validation of the
  input by struct tags, and the hash of the resources, are parameters. Error texts are shortened: they name the
  step that failed, and keep the errors they wrap.
\<close>

subsection \<open>Checks on the rendered resources\<close>

definition TargetPlaneDataPlane :: string where "TargetPlaneDataPlane = ''dataplane''"

definition TargetPlaneOrDefault :: "PostRenderValidation \<Rightarrow> string" where
  "TargetPlaneOrDefault v = (if pvTargetPlane v = [] then TargetPlaneDataPlane else pvTargetPlane v)"

definition MustMatchOrDefault :: "PostRenderValidation \<Rightarrow> bool" where
  "MustMatchOrDefault v = (case pvMustMatch v of None \<Rightarrow> True | Some b \<Rightarrow> b)"

record pendingPostRender =
  ppLabel :: string
  ppContext :: jobj
  ppValidations :: "PostRenderValidation list"

definition maxPostRenderErrors :: nat where "maxPostRenderErrors = 20"

text \<open>The collector: the failures so far, and whether the sweep should stop.\<close>

type_synonym sweep = "bool \<times> renderError list"

definition addFailure :: "renderError list \<Rightarrow> renderError \<Rightarrow> sweep" where
  "addFailure errs err = (length errs + 1 \<ge> maxPostRenderErrors \<or> IsRenderAborted err, errs @ [err])"

definition sweepError :: "renderError list \<Rightarrow> renderError list" where
  "sweepError errs =
     (if length errs \<ge> maxPostRenderErrors
      then errs @ [Err Failure (''validation stopped after '' @ itoa (int maxPostRenderErrors) @ '' failures'')] else errs)"

text \<open>A loop of the sweep, which ends as soon as a turn asks to stop.\<close>

fun sweepM :: "(renderError list \<Rightarrow> 'a \<Rightarrow> sweep render) \<Rightarrow> renderError list \<Rightarrow> 'a list \<Rightarrow> sweep render" where
  "sweepM f errs [] = returnM (False, errs)"
| "sweepM f errs (x # xs) = bindM (f errs x) (\<lambda>(stop, errs'). if stop then returnM (True, errs') else sweepM f errs' xs)"

definition filterByWhere :: "Engine \<Rightarrow> selection \<Rightarrow> string \<Rightarrow> jobj \<Rightarrow> selection render" where
  "filterByWhere e resources whereClause baseContext =
     foldM (\<lambda>filtered irr. bindM (evalWhere e whereClause baseContext (snd irr)) (\<lambda>b.
              returnM (if b then filtered @ [irr] else filtered))) [] resources"

definition resourceIdentity :: "RenderedResource \<Rightarrow> string" where
  "resourceIdentity rr =
     (let kind = strField (rrResource rr) ''kind'';
          name = (case objField (rrResource rr) ''metadata'' of None \<Rightarrow> [] | Some metadata \<Rightarrow> strField metadata ''name'') in
      if kind = [] \<and> name = [] then ''unknown resource'' else TruncateFragment kind @ ''/'' @ TruncateFragment name)"

text \<open>The rule on one selected resource.\<close>

definition checkRule :: "Engine \<Rightarrow> string \<Rightarrow> PostRenderValidation \<Rightarrow> jobj \<Rightarrow> renderError list \<Rightarrow> nat \<times> RenderedResource \<Rightarrow> sweep render" where
  "checkRule e label v celContext errs irr =
     (let rr = snd irr in
      bindM (tryM (Render e (JStr (pvRule v)) (fmupd ''resource'' (JObj (rrResource rr)) celContext))) (\<lambda>res.
        returnM (case res of
                   Inl err \<Rightarrow> addFailure errs (Wrapped (label @ '' post-render rule evaluation error on '' @ resourceIdentity rr) err)
                 | Inr (Rendered (JBool True)) \<Rightarrow> (False, errs)
                 | Inr (Rendered (JBool False)) \<Rightarrow>
                     addFailure errs (Err Failure (label @ '' post-render validation on '' @ resourceIdentity rr @ '' failed: '' @ TruncateFragment (pvMessage v)))
                 | Inr _ \<Rightarrow>
                     addFailure errs (Err Failure (label @ '' post-render rule on '' @ resourceIdentity rr @ '' must evaluate to boolean'')))))"

definition evaluatePostRenderSelection ::
    "Engine \<Rightarrow> RenderedResource list \<Rightarrow> string \<Rightarrow> PostRenderValidation \<Rightarrow> renderError list \<Rightarrow> jobj \<Rightarrow> sweep render" where
  "evaluatePostRenderSelection e resources label v errs celContext =
     (let target = (targetSpec (pvTarget v) (TargetPlaneOrDefault v))\<lparr>tgWhere := []\<rparr>;
          matched = FindTargetResources resources target in
      bindM (tryM (if ptgWhere (pvTarget v) \<noteq> [] then filterByWhere e matched (ptgWhere (pvTarget v)) celContext else returnM matched)) (\<lambda>sel.
        (case sel of
           Inl err \<Rightarrow> returnM (addFailure errs (Wrapped (label @ '' post-render validation'') err))
         | Inr [] \<Rightarrow>
             returnM (if MustMatchOrDefault v then addFailure errs (Err Failure (label @ '' post-render validation: no resource matched'')) else (False, errs))
         | Inr chosen \<Rightarrow> sweepM (checkRule e label v celContext) errs chosen)))"

definition evaluateOnePostRender ::
    "Engine \<Rightarrow> RenderedResource list \<Rightarrow> pendingPostRender \<Rightarrow> renderError list \<Rightarrow> PostRenderValidation \<Rightarrow> sweep render" where
  "evaluateOnePostRender e resources p errs v =
     bindM (tryM (if pvWhen v \<noteq> [] then ShouldInclude e (pvWhen v) (ppContext p) else returnM True)) (\<lambda>inc.
       (case inc of
          Inl err \<Rightarrow> returnM (addFailure errs (Wrapped (ppLabel p @ '' post-render validation: when evaluation error'') err))
        | Inr False \<Rightarrow> returnM (False, errs)
        | Inr True \<Rightarrow>
            if pvForEach v = [] then evaluatePostRenderSelection e resources (ppLabel p) v errs (ppContext p)
            else bindM (tryM (bindM (wrapM ''forEach evaluation error'' (Render e (JStr (pvForEach v)) (ppContext p)))
                              (\<lambda>itemsRaw. wrapM ''invalid forEach result'' (ToIterableItems itemsRaw)))) (\<lambda>items.
                   (case items of
                      Inl err \<Rightarrow> returnM (addFailure errs (Wrapped (ppLabel p @ '' post-render validation'') err))
                    | Inr its \<Rightarrow>
                        sweepM (\<lambda>errs' item. evaluatePostRenderSelection e resources (ppLabel p) v errs'
                                  (fmupd (loopVar (pvVar v)) item (ppContext p))) errs its))))"

definition evaluatePostRenderValidations :: "Engine \<Rightarrow> RenderedResource list \<Rightarrow> pendingPostRender list \<Rightarrow> unit render" where
  "evaluatePostRenderValidations e resources pending =
     bindM (sweepM (\<lambda>errs (p, v). evaluateOnePostRender e resources p errs v) []
              (concat (map (\<lambda>p. map (Pair p) (ppValidations p)) pending)))
       (\<lambda>(_, errs). joinErrors (sweepError errs))"

subsection \<open>Inputs\<close>

record traitInstance =
  tiKind :: string
  tiName :: string
  tiInstanceName :: string
  tiParameters :: "jval option option"
  tiEnvironmentConfigs :: "jval option option"

record ComponentTypeSpec =
  ctWorkloadType :: string
  ctTraits :: "traitInstance list"
  ctValidations :: "ValidationRule list"
  ctPreRenderValidations :: "ValidationRule list"
  ctPostRenderValidations :: "PostRenderValidation list"
  ctResources :: "ResourceTemplate list option"

record RenderInput =
  riComponentTypeName :: string
  riComponentType :: ComponentTypeSpec
  riComponentTraits :: "traitInstance list"
  riTraits :: "Trait list"
  riLabels :: "(string, string) fmap"

definition defaultPlane :: "string \<Rightarrow> string" where
  "defaultPlane plane = (if plane = [] then TargetPlaneDataPlane else plane)"

definition ApplyTargetPlaneDefaults :: "RenderInput \<Rightarrow> RenderInput" where
  "ApplyTargetPlaneDefaults input =
     input\<lparr>riComponentType := (riComponentType input)\<lparr>ctResources :=
             map_option (map (\<lambda>r. r\<lparr>rtTargetPlane := defaultPlane (rtTargetPlane r)\<rparr>)) (ctResources (riComponentType input))\<rparr>,
           riTraits := map (\<lambda>t. t\<lparr>tSpec := (tSpec t)\<lparr>
               tsCreates := map (\<lambda>c. c\<lparr>tcTargetPlane := defaultPlane (tcTargetPlane c)\<rparr>) (tsCreates (tSpec t)),
               tsPatches := map (\<lambda>p. p\<lparr>tpTargetPlane := defaultPlane (tpTargetPlane p)\<rparr>) (tsPatches (tSpec t))\<rparr>\<rparr>) (riTraits input)\<rparr>"

record RenderMetadata =
  mdResourceCount :: int
  mdBaseResourceCount :: int
  mdTraitCount :: int
  mdTraitResourceCount :: int

record RenderOutput =
  roResources :: "RenderedResource list"
  roMetadata :: RenderMetadata

text \<open>The checks by struct tags are a parameter.\<close>

definition validateInput :: "(RenderInput \<Rightarrow> renderError option) \<Rightarrow> RenderInput \<Rightarrow> renderError option" where
  "validateInput validateStruct input =
     (case validateStruct input of
        Some err \<Rightarrow> Some (Wrapped ''validation failed'' err)
      | None \<Rightarrow>
          (case ctResources (riComponentType input) of
             None \<Rightarrow> Some (Err Failure ''component type has no resources'')
           | Some _ \<Rightarrow> None))"

definition componentTypePendingPostRenders :: "RenderInput \<Rightarrow> jobj \<Rightarrow> pendingPostRender list" where
  "componentTypePendingPostRenders input componentContext =
     (if ctPostRenderValidations (riComponentType input) = [] then []
      else [\<lparr>ppLabel = ''ComponentType '' @ riComponentTypeName input, ppContext = componentContext,
             ppValidations = ctPostRenderValidations (riComponentType input)\<rparr>])"

definition resolveBindings :: "Engine \<Rightarrow> jval option option \<Rightarrow> jobj \<Rightarrow> jobj render" where
  "resolveBindings e raw contextMap =
     (case raw of
        None \<Rightarrow> returnM fmempty
      | Some None \<Rightarrow> failM (Err Failure ''failed to unmarshal bindings'')
      | Some (Some data) \<Rightarrow>
          bindM (wrapM ''failed to evaluate CEL bindings'' (Render e data contextMap)) (\<lambda>v.
            (case v of Rendered (JObj m) \<Rightarrow> returnM m | _ \<Rightarrow> failM (Err Failure ''resolved bindings is not a map''))))"

definition ResolveEmbeddedTraitBindings :: "Engine \<Rightarrow> traitInstance \<Rightarrow> jobj \<Rightarrow> (jobj \<times> jobj) render" where
  "ResolveEmbeddedTraitBindings e t componentContext =
     bindM (wrapM ''failed to resolve embedded trait parameters'' (resolveBindings e (tiParameters t) componentContext)) (\<lambda>params.
     bindM (wrapM ''failed to resolve embedded trait environmentConfigs'' (resolveBindings e (tiEnvironmentConfigs t) componentContext)) (\<lambda>configs.
       returnM (params, configs)))"

subsection \<open>After rendering\<close>

definition addLabels :: "(string, string) fmap \<Rightarrow> jobj \<Rightarrow> (renderError, jobj) result" where
  "addLabels labelsToAdd res =
     (case objField res ''metadata'' of
        None \<Rightarrow> Inl (Err Failure ''resource missing metadata'')
      | Some metadata \<Rightarrow>
          let existingLabels = (case objField metadata ''labels'' of None \<Rightarrow> fmempty | Some ls \<Rightarrow> ls)
          in Inr (fmupd ''metadata'' (JObj (fmupd ''labels'' (JObj (existingLabels ++\<^sub>f fmmap JStr labelsToAdd)) metadata)) res))"

definition isMainWorkloadKind :: "string \<Rightarrow> string \<Rightarrow> bool" where
  "isMainWorkloadKind kind workloadType =
     (if workloadType = ''deployment'' then kind = ''Deployment''
      else if workloadType = ''statefulset'' then kind = ''StatefulSet''
      else False)"

definition resourceSortKey :: "jobj \<Rightarrow> string \<times> string \<times> string \<times> string" where
  "resourceSortKey m =
     (let metadata = (case objField m ''metadata'' of None \<Rightarrow> fmempty | Some md \<Rightarrow> md)
      in (strField m ''kind'', strField m ''apiVersion'', strField metadata ''namespace'', strField metadata ''name''))"

definition compareResources :: "jobj \<Rightarrow> jobj \<Rightarrow> bool" where
  "compareResources a b \<longleftrightarrow> resourceSortKey a < resourceSortKey b"

definition sortRenderedResources :: "RenderedResource list \<Rightarrow> RenderedResource list" where
  "sortRenderedResources = sort_key (\<lambda>rr. resourceSortKey (rrResource rr))"

definition extractContentExcludingMetadata :: "jobj \<Rightarrow> jobj" where
  "extractContentExcludingMetadata res = fmdrop ''metadata'' res"

definition objOrEmpty :: "jobj \<Rightarrow> string \<Rightarrow> jobj" where
  "objOrEmpty m k = (case objField m k of None \<Rightarrow> fmempty | Some o' \<Rightarrow> o')"

definition addPodTemplateAnnotation :: "string \<Rightarrow> string \<Rightarrow> jobj \<Rightarrow> (renderError, jobj) result" where
  "addPodTemplateAnnotation key val res =
     (case objField res ''spec'' of
        None \<Rightarrow> Inl (Err Failure ''resource missing spec'')
      | Some spec \<Rightarrow>
          let tmpl = objOrEmpty spec ''template'';
              templateMeta = objOrEmpty tmpl ''metadata'';
              annotations = fmupd key (JStr val) (objOrEmpty templateMeta ''annotations'')
          in Inr (fmupd ''spec'' (JObj (fmupd ''template'' (JObj (fmupd ''metadata'' (JObj (fmupd ''annotations'' (JObj annotations)
                templateMeta)) tmpl)) spec)) res))"

definition AnnotationKeyDPResourceHash :: string where
  "AnnotationKeyDPResourceHash = ''openchoreo.dev/dp-resource-hash''"

text \<open>The annotation goes to the first main workload.\<close>

fun annotateFirst :: "string \<Rightarrow> string \<Rightarrow> RenderedResource list \<Rightarrow> (renderError, RenderedResource list) result" where
  "annotateFirst workloadType resourceHash [] = Inr []"
| "annotateFirst workloadType resourceHash (rr # rrs) =
     (if isMainWorkloadKind (strField (rrResource rr) ''kind'') workloadType
      then bindR (addPodTemplateAnnotation AnnotationKeyDPResourceHash resourceHash (rrResource rr)) (\<lambda>m. Inr (rr\<lparr>rrResource := m\<rparr> # rrs))
      else bindR (annotateFirst workloadType resourceHash rrs) (\<lambda>rest. Inr (rr # rest)))"

definition addDPResourceHashAnnotation ::
    "(jobj list \<Rightarrow> string) \<Rightarrow> string \<Rightarrow> RenderedResource list \<Rightarrow> (renderError, RenderedResource list) result" where
  "addDPResourceHashAnnotation computeHash workloadType resources =
     (if workloadType \<noteq> ''deployment'' \<and> workloadType \<noteq> ''statefulset'' then Inr resources
      else let toHash = map rrResource (filter (\<lambda>rr. rrTargetPlane rr = TargetPlaneDataPlane \<and>
                          \<not> isMainWorkloadKind (strField (rrResource rr) ''kind'') workloadType) resources) in
           if toHash = [] then Inr resources
           else annotateFirst workloadType (computeHash (map extractContentExcludingMetadata (sort_key resourceSortKey toHash))) resources)"

definition postProcessResources ::
    "(jobj list \<Rightarrow> string) \<Rightarrow> RenderInput \<Rightarrow> RenderedResource list \<Rightarrow> (renderError, RenderedResource list) result" where
  "postProcessResources computeHash input resources =
     bindR (concatMapR (\<lambda>rr. bindR (addLabels (riLabels input) (rrResource rr)) (\<lambda>m. Inr [rr\<lparr>rrResource := m\<rparr>])) resources)
       (addDPResourceHashAnnotation computeHash (ctWorkloadType (riComponentType input)))"

definition resourceProblem :: "nat \<Rightarrow> jobj \<Rightarrow> renderError option" where
  "resourceProblem i m =
     (let kind = strField m ''kind'';
          resourceID = ''resource #'' @ itoa (int i) @ (if kind \<noteq> [] then '' ('' @ kind @ '')'' else []);
          missing = (\<lambda>field. Some (Err Failure (resourceID @ '' missing '' @ field))) in
      if strField m ''apiVersion'' = [] then missing ''apiVersion''
      else if kind = [] then missing ''kind''
      else (case objField m ''metadata'' of
              None \<Rightarrow> missing ''metadata''
            | Some metadata \<Rightarrow> if strField metadata ''name'' = [] then missing ''metadata.name'' else None))"

definition validateResources :: "RenderedResource list \<Rightarrow> renderError option" where
  "validateResources resources =
     (case List.map_filter (\<lambda>(i, rr). resourceProblem i (rrResource rr)) (List.enumerate 0 resources) of
        [] \<Rightarrow> None
      | err # _ \<Rightarrow> Some err)"

subsection \<open>The pipeline\<close>

record contextBuilder =
  bldValidate :: "RenderInput \<Rightarrow> renderError option"
  bldComponent :: "RenderInput \<Rightarrow> (renderError, jobj) result"
  bldInstanceBindings :: "traitInstance \<Rightarrow> (renderError, jobj \<times> jobj) result"
  bldTrait :: "Trait \<Rightarrow> string \<Rightarrow> jobj \<times> jobj \<Rightarrow> (renderError, jobj) result"

definition liftResult :: "(renderError, 'a) result \<Rightarrow> 'a render" where
  "liftResult r rs = (r, rs)"

definition liftError :: "renderError option \<Rightarrow> unit render" where
  "liftError err = (case err of None \<Rightarrow> returnM () | Some e \<Rightarrow> failM e)"

definition traitKind :: "string \<Rightarrow> string" where
  "traitKind kind = (if kind = [] then ''Trait'' else kind)"

definition traitMap :: "Trait list \<Rightarrow> (string, Trait) fmap" where
  "traitMap traits = foldl (\<lambda>m t. fmupd (traitKind (tKind t) @ '':'' @ tName t) t m) fmempty traits"

text \<open>What the loops over the trait instances carry: the resources, the checks for later and the counts.\<close>

record traitProgress =
  prResources :: "RenderedResource list"
  prPending :: "pendingPostRender list"
  prTraitCount :: int
  prTraitResourceCount :: int

definition processInstance ::
    "Engine \<Rightarrow> contextBuilder \<Rightarrow> (string, Trait) fmap \<Rightarrow> (traitInstance \<Rightarrow> (jobj \<times> jobj) render) \<Rightarrow> traitProgress \<Rightarrow> traitInstance \<Rightarrow> traitProgress render" where
  "processInstance e B traits bindings pr inst =
     (let kind = traitKind (tiKind inst); label = tiName inst @ ''/'' @ tiInstanceName inst in
      (case fmlookup traits (kind @ '':'' @ tiName inst) of
         None \<Rightarrow> failM (Err Failure (''trait '' @ tiName inst @ '' referenced but not found in traits list''))
       | Some t \<Rightarrow>
           bindM (wrapM (''failed to resolve trait bindings for '' @ label) (bindings inst)) (\<lambda>resolved.
           bindM (wrapM (''failed to build trait context for '' @ label) (liftResult (bldTrait B t (tiInstanceName inst) resolved))) (\<lambda>traitContext.
           bindM (wrapM (''trait '' @ label @ '' validation failed'')
                    (EvaluateValidationRules e (EffectivePreRenderValidations (tsPreRenderValidations (tSpec t)) (tsValidations (tSpec t))) traitContext)) (\<lambda>_.
           bindM (wrapM (''failed to process trait '' @ label) (ProcessTraits e (prResources pr) t traitContext)) (\<lambda>resources.
             returnM \<lparr>prResources = resources,
                      prPending = prPending pr @
                        (if tsPostRenderValidations (tSpec t) = [] then []
                         else [\<lparr>ppLabel = kind @ '' '' @ label, ppContext = traitContext, ppValidations = tsPostRenderValidations (tSpec t)\<rparr>]),
                      prTraitCount = prTraitCount pr + 1,
                      prTraitResourceCount = prTraitResourceCount pr + int (length resources) - int (length (prResources pr))\<rparr>))))))"

definition RenderComponent ::
    "Engine \<Rightarrow> contextBuilder \<Rightarrow> (jobj list \<Rightarrow> string) \<Rightarrow> RenderInput \<Rightarrow> RenderOutput render" where
  "RenderComponent e B computeHash input0 =
     bindM (wrapM ''invalid input'' (liftError (validateInput (bldValidate B) input0))) (\<lambda>_.
     bindM (wrapM ''failed to build component context'' (liftResult (bldComponent B input0))) (\<lambda>componentContext.
     bindM (wrapM ''component type validation failed''
              (EvaluateValidationRules e (EffectivePreRenderValidations (ctPreRenderValidations (riComponentType input0)) (ctValidations (riComponentType input0)))
                 componentContext)) (\<lambda>_.
       let pending = componentTypePendingPostRenders input0 componentContext;
           input = ApplyTargetPlaneDefaults input0;
           traits = traitMap (riTraits input) in
       bindM (wrapM ''failed to render base resources''
                (RenderResources e (case ctResources (riComponentType input) of None \<Rightarrow> [] | Some ts \<Rightarrow> ts) componentContext)) (\<lambda>base.
       bindM (foldM (processInstance e B traits (\<lambda>inst. ResolveEmbeddedTraitBindings e inst componentContext))
                \<lparr>prResources = base, prPending = pending, prTraitCount = 0, prTraitResourceCount = 0\<rparr> (ctTraits (riComponentType input))) (\<lambda>pr1.
       bindM (foldM (processInstance e B traits (\<lambda>inst. liftResult (bldInstanceBindings B inst))) pr1 (riComponentTraits input)) (\<lambda>pr2.
       bindM (wrapM ''post-render validation failed'' (evaluatePostRenderValidations e (prResources pr2) (prPending pr2))) (\<lambda>_.
       bindM (wrapM ''failed to post-process resources'' (liftResult (postProcessResources computeHash input (prResources pr2)))) (\<lambda>resources.
       bindM (wrapM ''validation failed'' (liftError (validateResources resources))) (\<lambda>_.
         returnM \<lparr>roResources = sortRenderedResources resources,
                  roMetadata = \<lparr>mdResourceCount = int (length resources), mdBaseResourceCount = int (length base),
                    mdTraitCount = prTraitCount pr2, mdTraitResourceCount = prTraitResourceCount pr2\<rparr>\<rparr>)))))))))"

text \<open>\<open>Pipeline.Render\<close>: the items of a render are counted from zero, and so are the operations of its processor.\<close>

definition pipelineRender ::
    "Engine \<Rightarrow> contextBuilder \<Rightarrow> (jobj list \<Rightarrow> string) \<Rightarrow> RenderInput \<Rightarrow> RenderOutput render" where
  "pipelineRender e B computeHash input rs =
     RenderComponent e B computeHash input ((WithForEachBudget rs)\<lparr>rsPatchOps := 0\<rparr>)"

end
