(* ===== verification/Component_Facts.thy ===== *)
theory Component_Facts
  imports Component_Pipeline
begin

text \<open>
  The rules by which renders are verified, and the cost budget, which computes as if its numbers were unbounded.

  Renders are specified by triples: a render started in a state of the precondition ends in the postcondition,
  or fails in a state of the error condition.
\<close>

subsection \<open>Triples\<close>

definition triple :: "(renderState \<Rightarrow> bool) \<Rightarrow> 'a render \<Rightarrow> ('a \<Rightarrow> renderState \<Rightarrow> bool) \<Rightarrow> (renderState \<Rightarrow> bool) \<Rightarrow> bool" where
  "triple P m Q E \<longleftrightarrow> (\<forall>rs. P rs \<longrightarrow> (case m rs of (Inl _, rs') \<Rightarrow> E rs' | (Inr a, rs') \<Rightarrow> Q a rs'))"

named_theorems keeps \<open>operations that keep an invariant, whether they fail or not\<close>

abbreviation keepsInv :: "(renderState \<Rightarrow> bool) \<Rightarrow> 'a render \<Rightarrow> bool" where
  "keepsInv I m \<equiv> triple I m (\<lambda>_. I) I"

lemma tripleD_Inr: "triple P m Q E \<Longrightarrow> P rs \<Longrightarrow> m rs = (Inr a, rs') \<Longrightarrow> Q a rs'"
  by (fastforce simp: triple_def)

lemma tripleD_Inl: "triple P m Q E \<Longrightarrow> P rs \<Longrightarrow> m rs = (Inl x, rs') \<Longrightarrow> E rs'"
  by (fastforce simp: triple_def)

lemma triple_conseq:
  assumes "triple P m Q E" and "\<And>rs. P' rs \<Longrightarrow> P rs" and "\<And>a rs. Q a rs \<Longrightarrow> Q' a rs" and "\<And>rs. E rs \<Longrightarrow> E' rs"
  shows "triple P' m Q' E'"
  using assms by (fastforce simp: triple_def split: sum.splits prod.splits)

lemma triple_return: "(\<And>rs. P rs \<Longrightarrow> Q a rs) \<Longrightarrow> triple P (returnM a) Q E"
  by (simp add: triple_def returnM_def)

lemma triple_fail: "(\<And>rs. P rs \<Longrightarrow> E rs) \<Longrightarrow> triple P (failM e) Q E"
  by (simp add: triple_def failM_def)

lemma triple_iff:
  "triple P m Q E \<longleftrightarrow>
     (\<forall>rs a rs'. P rs \<longrightarrow> m rs = (Inr a, rs') \<longrightarrow> Q a rs') \<and> (\<forall>rs x rs'. P rs \<longrightarrow> m rs = (Inl x, rs') \<longrightarrow> E rs')"
  by (fastforce simp: triple_def split: prod.splits sum.splits)

lemma bindM_Inr: "bindM m f rs = (Inr b, rs') \<longleftrightarrow> (\<exists>a rs1. m rs = (Inr a, rs1) \<and> f a rs1 = (Inr b, rs'))"
  by (auto simp: bindM_def split: prod.splits sum.splits)

lemma bindM_Inl:
  "bindM m f rs = (Inl x, rs') \<longleftrightarrow> m rs = (Inl x, rs') \<or> (\<exists>a rs1. m rs = (Inr a, rs1) \<and> f a rs1 = (Inl x, rs'))"
  by (auto simp: bindM_def split: prod.splits sum.splits)

lemma triple_bind:
  assumes "triple P m R E" and "\<And>a. triple (R a) (f a) Q E"
  shows "triple P (bindM m f) Q E"
  using assms unfolding triple_iff bindM_Inr bindM_Inl by blast

lemma triple_wrap: "triple P m Q E \<Longrightarrow> triple P (wrapM msg m) Q E"
  by (fastforce simp: triple_def wrapM_def split: sum.splits prod.splits)

lemma triple_try: "triple P m (\<lambda>_. Q) Q \<Longrightarrow> triple P (tryM m) (\<lambda>_. Q) E"
  by (fastforce simp: triple_def tryM_def split: sum.splits prod.splits)

lemma triple_foldM:
  assumes "\<And>b x. x \<in> set xs \<Longrightarrow> triple (I b) (f b x) I E"
  shows "triple (I b) (foldM f b xs) I E"
  using assms by (induction xs arbitrary: b) (auto intro: triple_return intro!: triple_bind)

lemma triple_seqM:
  assumes "\<And>m. m \<in> set ms \<Longrightarrow> keepsInv I m"
  shows "keepsInv I (seqM ms)"
  using assms by (induction ms) (auto intro!: triple_return triple_bind)

lemma keeps_basic [keeps]:
  "keepsInv I (returnM a)" "keepsInv I (failM e)" "keepsInv I (ctxError msg)"
  by (simp_all add: triple_def returnM_def failM_def ctxError_def)

lemma keeps_bind [keeps]: "keepsInv I m \<Longrightarrow> (\<And>a. keepsInv I (f a)) \<Longrightarrow> keepsInv I (bindM m f)"
  by (rule triple_bind)

lemma keeps_wrap [keeps]: "keepsInv I m \<Longrightarrow> keepsInv I (wrapM msg m)"
  by (rule triple_wrap)

lemma keeps_try [keeps]: "keepsInv I m \<Longrightarrow> keepsInv I (tryM m)"
  by (rule triple_try)

lemma keeps_fold [keeps]: "(\<And>b x. keepsInv I (f b x)) \<Longrightarrow> keepsInv I (foldM f b xs)"
  using triple_foldM[of xs "\<lambda>_. I" f I b] by simp

lemmas keeps_seq [keeps] = triple_seqM

lemma foldM_results:
  assumes step: "\<And>b x rs1 b1 rs2. I b \<Longrightarrow> x \<in> set xs \<Longrightarrow> f b x rs1 = (Inr b1, rs2) \<Longrightarrow> I b1"
  shows "I b \<Longrightarrow> foldM f b xs rs = (Inr b', rs') \<Longrightarrow> I b'"
proof -
  have sub: "I b \<Longrightarrow> set ys \<subseteq> set xs \<Longrightarrow> foldM f b ys rs = (Inr b', rs') \<Longrightarrow> I b'" for ys
  proof (induction ys arbitrary: b rs)
    case Nil
    then show ?case by (simp add: returnM_def)
  next
    case (Cons x ys)
    from Cons.prems(3) obtain b1 rs1 where b1: "f b x rs = (Inr b1, rs1)" "foldM f b1 ys rs1 = (Inr b', rs')"
      by (auto simp: bindM_Inr)
    have "I b1" using step[OF Cons.prems(1) _ b1(1)] Cons.prems(2) by simp
    from Cons.IH[OF this _ b1(2)] Cons.prems(2) show ?case by simp
  qed
  show "I b \<Longrightarrow> foldM f b xs rs = (Inr b', rs') \<Longrightarrow> I b'" by (rule sub[OF _ subset_refl])
qed

lemma wrapM_Inr [simp]: "wrapM msg m rs = (Inr a, rs') \<longleftrightarrow> m rs = (Inr a, rs')"
  by (auto simp: wrapM_def split: prod.splits sum.splits)

lemma returnM_Inr [simp]: "returnM a rs = (Inr b, rs') \<longleftrightarrow> a = b \<and> rs = rs'"
  by (auto simp: returnM_def)

lemma failM_Inr [simp]: "failM e rs \<noteq> (Inr b, rs')"
  by (simp add: failM_def)

lemma lift_Inr [simp]:
  "liftResult r rs = (Inr a, rs') \<longleftrightarrow> r = Inr a \<and> rs = rs'"
  "liftError err rs = (Inr (), rs') \<longleftrightarrow> err = None \<and> rs = rs'"
  by (auto simp: liftResult_def liftError_def split: option.splits)

subsection \<open>The cost budget\<close>

definition chargeAll :: "CostBudget \<Rightarrow> 64 word list \<Rightarrow> CostBudget" where
  "chargeAll = foldl (\<lambda>b c. fst (addCost b c))"

lemma unat_max64: "unat (- 1 :: 64 word) = 2 ^ 64 - 1"
  by (simp add: unsigned_minus_1_eq_mask mask_eq_exp_minus_1)

lemma unat_lt64: "unat (w :: 64 word) < 2 ^ 64"
  using unsigned_less[of w] by simp

lemma room_left: "unat (- 1 - w) = 2 ^ 64 - 1 - unat (w :: 64 word)"
  by (subst unat_sub) (simp_all add: unat_max64)

lemma no_room_iff: "(- 1 - w < c) \<longleftrightarrow> 2 ^ 64 \<le> unat w + unat (c :: 64 word)"
  using unat_lt64[of w] by (auto simp: word_less_nat_alt room_left)

lemma addCost_spent: "unat (cbSpent (fst (addCost b c))) = min (unat (cbSpent b) + unat c) (2 ^ 64 - 1)"
  by (auto simp: addCost_def Let_def no_room_iff unat_max64 unat_word_ariths)

lemma addCost_budget [simp]: "cbBudget (fst (addCost b c)) = cbBudget b"
  by (simp add: addCost_def Let_def)

lemma addCost_breach:
  "snd (addCost b c) \<noteq> None \<longleftrightarrow> 0 < cbBudget b \<and> unat (cbBudget b) < unat (cbSpent b) + unat c"
proof (cases "- 1 - cbSpent b < c")
  case True
  then have "unat (cbBudget b) < unat (cbSpent b) + unat c"
    using unat_lt64[of "cbBudget b"] by (simp add: no_room_iff)
  with True show ?thesis by (simp add: addCost_def Let_def)
next
  case False
  then have "unat (cbSpent b + c) = unat (cbSpent b) + unat c" by (simp add: no_room_iff unat_word_ariths)
  with False show ?thesis by (simp add: addCost_def Let_def breachLocked_def word_less_nat_alt)
qed

lemma chargeAll_spent:
  "unat (cbSpent (chargeAll b cs)) = min (unat (cbSpent b) + sum_list (map unat cs)) (2 ^ 64 - 1)"
proof (induction cs arbitrary: b)
  case Nil
  show ?case using unat_lt64[of "cbSpent b"] by (simp add: chargeAll_def)
next
  case (Cons c cs)
  from Cons.IH[of "fst (addCost b c)"] show ?case by (simp add: chargeAll_def addCost_spent)
qed

lemma chargeAll_budget [simp]: "cbBudget (chargeAll b cs) = cbBudget b"
  by (induction cs arbitrary: b) (simp_all add: chargeAll_def)

text \<open>C26: The cost budget counts as if it were unbounded, although it is kept in 64 bits. After any charges, the budget
  holds their sum, or the largest number if the sum is larger; the pre-check refuses exactly when there
  is a budget and the charges have reached it; and one more charge reports a breach exactly when
  it takes the sum above the budget. The last claim has one exception, a charge of nothing on a budget
  of the largest number.\<close>

theorem cost_budget_is_exact:
  "let b = chargeAll (NewCostBudget B) cs; total = sum_list (map unat cs) in
     unat (cbSpent b) = min total (2 ^ 64 - 1) \<and>
     (exceeded b = None \<longleftrightarrow> B = 0 \<or> total < unat B) \<and>
     (0 < c \<or> B < - 1 \<longrightarrow> (snd (addCost b c) = None \<longleftrightarrow> B = 0 \<or> total + unat c \<le> unat B))"
proof -
  define b where "b = chargeAll (NewCostBudget B) cs"
  define total where "total = sum_list (map unat cs)"
  have spent: "unat (cbSpent b) = min total (2 ^ 64 - 1)" and budget: "cbBudget b = B"
    by (simp_all add: b_def total_def chargeAll_spent NewCostBudget_def)
  have B: "unat B \<le> 2 ^ 64 - 1" using unat_lt64[of B] by simp
  have "exceeded b = None \<longleftrightarrow> B = 0 \<or> total < unat B"
    using B by (auto simp: exceeded_def budget word_le_nat_alt spent word_gt_0)
  moreover have "snd (addCost b c) = None \<longleftrightarrow> B = 0 \<or> total + unat c \<le> unat B" if "0 < c \<or> B < - 1"
  proof -
    have "unat c > 0 \<or> unat B < 2 ^ 64 - 1" using that by (simp add: word_less_nat_alt unat_max64 unat_gt_0)
    then show ?thesis using addCost_breach[of b c] B by (auto simp: budget spent word_gt_0 min_def split: if_splits)
  qed
  ultimately show ?thesis using spent by (simp add: Let_def b_def total_def)
qed

theorem cost_budget_is_exact_witness:
  "(0::64 word) < 7 \<and> snd (addCost (chargeAll (NewCostBudget 10) [2, 6]) 7) \<noteq> None"
  using cost_budget_is_exact[of 10 "[2, 6]" 7] by (simp add: Let_def)

end
