(* ===== verification/Component_Output.thy ===== *)
theory Component_Output
  imports Component_Facts
begin

text \<open>
  What a successful render returns: every resource is complete and labelled, has a target plane, the resources are
  in order, and the counts of the metadata add up.
\<close>

subsection \<open>After rendering\<close>

definition hasIdentity :: "jobj \<Rightarrow> bool" where
  "hasIdentity m \<longleftrightarrow> strField m ''apiVersion'' \<noteq> [] \<and> strField m ''kind'' \<noteq> [] \<and>
     (case objField m ''metadata'' of None \<Rightarrow> False | Some metadata \<Rightarrow> strField metadata ''name'' \<noteq> [])"

definition hasLabels :: "(string, string) fmap \<Rightarrow> jobj \<Rightarrow> bool" where
  "hasLabels labels m \<longleftrightarrow>
     (case objField m ''metadata'' of
        None \<Rightarrow> False
      | Some metadata \<Rightarrow> (case objField metadata ''labels'' of None \<Rightarrow> False | Some ls \<Rightarrow> fmmap JStr labels \<subseteq>\<^sub>f ls))"

lemma field_upd [simp]:
  "strField (fmupd k v m) k' = (if k' = k then (case v of JStr s \<Rightarrow> s | _ \<Rightarrow> []) else strField m k')"
  "objField (fmupd k v m) k' = (if k' = k then (case v of JObj o' \<Rightarrow> Some o' | _ \<Rightarrow> None) else objField m k')"
  by (auto simp: strField_def objField_def split: jval.splits)

lemma resourceProblem_None: "resourceProblem i m = None \<longleftrightarrow> hasIdentity m"
  by (auto simp: resourceProblem_def hasIdentity_def Let_def split: option.splits)

lemma validateResources_None:
  "validateResources resources = None \<Longrightarrow> \<forall>rr \<in> set resources. hasIdentity (rrResource rr)"
proof -
  assume "validateResources resources = None"
  then have "List.map_filter (\<lambda>(i, rr). resourceProblem i (rrResource rr)) (List.enumerate 0 resources) = []"
    by (auto simp: validateResources_def split: list.splits)
  then have "\<forall>(i, rr) \<in> set (List.enumerate 0 resources). resourceProblem i (rrResource rr) = None"
    by (auto simp: List.map_filter_def filter_empty_conv)
  then show ?thesis by (force simp: in_set_conv_nth nth_enumerate_eq resourceProblem_None)
qed

lemma fmsubset_added: "m \<subseteq>\<^sub>f m" "m \<subseteq>\<^sub>f n ++\<^sub>f m"
  by (auto simp: fmsubset_alt_def fmpred_iff dest: fmdomI)

lemma addLabels_labels: "addLabels labels m = Inr m' \<Longrightarrow> hasLabels labels m'"
  by (auto simp: addLabels_def hasLabels_def Let_def fmsubset_added split: option.splits)

lemma addPodTemplateAnnotation_labels:
  "addPodTemplateAnnotation key val m = Inr m' \<Longrightarrow> hasLabels labels m' = hasLabels labels m"
  by (auto simp: addPodTemplateAnnotation_def hasLabels_def Let_def split: option.splits)

text \<open>Resources before and after a step that changes some of them: as many, in the same planes.\<close>

definition samePlaces :: "RenderedResource list \<Rightarrow> RenderedResource list \<Rightarrow> bool" where
  "samePlaces rrs rrs' \<longleftrightarrow> map rrTargetPlane rrs = map rrTargetPlane rrs'"

lemma annotateFirst_keeps:
  "annotateFirst w h rrs = Inr rrs' \<Longrightarrow> samePlaces rrs rrs' \<and>
     ((\<forall>rr \<in> set rrs. hasLabels labels (rrResource rr)) \<longrightarrow> (\<forall>rr \<in> set rrs'. hasLabels labels (rrResource rr)))"
  by (induction rrs arbitrary: rrs')
     (auto simp: bindR_eq_Inr samePlaces_def addPodTemplateAnnotation_labels split: if_splits)

lemma labelling_keeps:
  "concatMapR (\<lambda>rr. bindR (addLabels labels (rrResource rr)) (\<lambda>m. Inr [rr\<lparr>rrResource := m\<rparr>])) rrs = Inr rrs' \<Longrightarrow>
   samePlaces rrs rrs' \<and> (\<forall>rr \<in> set rrs'. hasLabels labels (rrResource rr))"
  by (induction rrs arbitrary: rrs') (auto simp: bindR_eq_Inr samePlaces_def addLabels_labels)

lemma postProcessResources_keeps:
  assumes "postProcessResources computeHash input rrs = Inr rrs'"
  shows "samePlaces rrs rrs'" and "\<forall>rr \<in> set rrs'. hasLabels (riLabels input) (rrResource rr)"
proof -
  from assms obtain mid where mid:
    "concatMapR (\<lambda>rr. bindR (addLabels (riLabels input) (rrResource rr)) (\<lambda>m. Inr [rr\<lparr>rrResource := m\<rparr>])) rrs = Inr mid"
    "addDPResourceHashAnnotation computeHash (ctWorkloadType (riComponentType input)) mid = Inr rrs'"
    by (auto simp: postProcessResources_def bindR_eq_Inr)
  have "samePlaces mid rrs' \<and> (\<forall>rr \<in> set rrs'. hasLabels (riLabels input) (rrResource rr))"
    using mid(2) labelling_keeps[OF mid(1)] annotateFirst_keeps[of _ _ mid rrs']
    by (auto simp: addDPResourceHashAnnotation_def Let_def samePlaces_def split: if_splits)
  with labelling_keeps[OF mid(1)]
  show "samePlaces rrs rrs'" and "\<forall>rr \<in> set rrs'. hasLabels (riLabels input) (rrResource rr)"
    by (simp_all add: samePlaces_def)
qed

subsection \<open>Target planes\<close>

definition inPlanes :: "RenderedResource list \<Rightarrow> bool" where
  "inPlanes rrs \<longleftrightarrow> list_all (\<lambda>rr. rrTargetPlane rr \<noteq> []) rrs"

lemma inPlanes_same: "samePlaces rrs rrs' \<Longrightarrow> inPlanes rrs \<Longrightarrow> inPlanes rrs'"
  unfolding inPlanes_def samePlaces_def list_all_iff by (metis image_iff list.set_map)

lemma enumerate_mem: "(i, x) \<in> set (List.enumerate n xs) \<Longrightarrow> x \<in> set xs"
  by (auto simp: in_set_enumerate_eq)

lemma seqM_results:
  "seqM ms rs = (Inr as, rs') \<Longrightarrow> a \<in> set as \<Longrightarrow> \<exists>m \<in> set ms. \<exists>rs1 rs2. m rs1 = (Inr a, rs2)"
  by (induction ms arbitrary: rs as) (auto simp: bindM_Inr, blast+)

lemma RenderResources_planes:
  assumes "RenderResources e templates ctx rs = (Inr rrs, rs')" and "\<forall>t \<in> set templates. rtTargetPlane t \<noteq> []"
  shows "inPlanes rrs"
  using assms(1) unfolding RenderResources_def
  by (rule foldM_results[where I = inPlanes, rotated 2])
     (use assms(2) in \<open>auto simp: inPlanes_def list_all_iff bindM_Inr\<close>)

lemma renderSingleCreate_plane:
  "renderSingleCreate e path create ctx rs = (Inr rr, rs') \<Longrightarrow> rrTargetPlane rr = tcTargetPlane create"
  by (auto simp: renderSingleCreate_def bindM_Inr)

lemma applyCreate_planes:
  "applyCreate e path ctx create rs = (Inr new, rs') \<Longrightarrow> tcTargetPlane create \<noteq> [] \<Longrightarrow> inPlanes new"
  by (auto simp: applyCreate_def bindM_Inr renderSingleCreate_plane inPlanes_def list_all_iff dest!: seqM_results split: if_splits)

lemma ApplyTraitCreates_planes:
  assumes "ApplyTraitCreates e rrs trait ctx rs = (Inr rrs', rs')" and "inPlanes rrs"
    and "\<forall>c \<in> set (tsCreates (tSpec trait)). tcTargetPlane c \<noteq> []"
  shows "inPlanes rrs'"
proof (rule foldM_results[where I = inPlanes, OF _ assms(2) assms(1)[unfolded ApplyTraitCreates_def]])
  fix b x rs1 b1 rs2
  assume b: "inPlanes b" and x: "x \<in> set (List.enumerate 0 (tsCreates (tSpec trait)))"
    and step: "(case x of (i, create) \<Rightarrow>
        bindM (applyCreate e (''trait '' @ tName trait @ '' create #'' @ itoa (int i)) ctx create) (\<lambda>new. returnM (b @ new))) rs1
      = (Inr b1, rs2)"
  obtain i create where ic: "x = (i, create)" by (cases x)
  with step obtain new rs3 where "applyCreate e (''trait '' @ tName trait @ '' create #'' @ itoa (int i)) ctx create rs1 = (Inr new, rs3)"
    and "b1 = b @ new" by (auto simp: bindM_Inr)
  moreover from x ic assms(3) have "tcTargetPlane create \<noteq> []" by (auto dest: enumerate_mem)
  ultimately show "inPlanes b1" using b applyCreate_planes by (simp add: inPlanes_def)
qed

lemma update_places [simp]: "samePlaces rrs (rrs[i := (rrs ! i)\<lparr>rrResource := m\<rparr>])"
  by (cases "i < length rrs") (auto simp: samePlaces_def nth_list_update not_less intro!: nth_equalityI)

lemma samePlaces_refl [simp]: "samePlaces rrs rrs"
  by (simp add: samePlaces_def)

lemma fold_places:
  assumes "\<And>b x rs1 b1 rs2. f b x rs1 = (Inr b1, rs2) \<Longrightarrow> samePlaces b b1"
    and "foldM f rrs xs rs = (Inr rrs', rs')"
  shows "samePlaces rrs rrs'"
  by (rule foldM_results[where I = "samePlaces rrs", OF _ samePlaces_refl assms(2)])
     (simp add: samePlaces_def assms(1)[unfolded samePlaces_def])

lemma patchTarget_places: "patchTarget what ops rrs i rs = (Inr rrs', rs') \<Longrightarrow> samePlaces rrs rrs'"
  by (cases "ApplyPatches (rrResource (rrs ! i)) ops") (auto simp: patchTarget_def bindM_Inr Let_def split: option.splits)

lemma applyPatchOnce_places: "applyPatchOnce e what p rrs ctx rs = (Inr rrs', rs') \<Longrightarrow> samePlaces rrs rrs'"
  by (auto simp: applyPatchOnce_def Let_def bindM_Inr split: if_splits intro: fold_places[OF patchTarget_places])

lemma applyPatchWithForEach_places:
  assumes "applyPatchWithForEach e what p rrs ctx rs = (Inr rrs', rs')"
  shows "samePlaces rrs rrs'"
proof -
  from assms obtain items rs1 where "foldM (\<lambda>rs (i, item).
      wrapM (''forEach iteration '' @ itoa (int i) @ '' failed'') (applyPatchOnce e what p rs (fmupd (loopVar (tpVar p)) item ctx)))
      rrs (List.enumerate 0 items) rs1 = (Inr rrs', rs')"
    by (auto simp: applyPatchWithForEach_def bindM_Inr)
  then show ?thesis
    by (rule fold_places[rotated]) (auto simp: applyPatchOnce_places split: prod.splits)
qed

lemma applyPatch_places: "applyPatch e what p rrs ctx rs = (Inr rrs', rs') \<Longrightarrow> samePlaces rrs rrs'"
  by (auto simp: applyPatch_def applyPatchOnce_places applyPatchWithForEach_places split: if_splits)

lemma ApplyTraitPatches_places: "ApplyTraitPatches e rrs trait ctx rs = (Inr rrs', rs') \<Longrightarrow> samePlaces rrs rrs'"
  unfolding ApplyTraitPatches_def
  by (rule fold_places[rotated], assumption) (auto simp: Let_def applyPatch_places split: prod.splits)

lemma ApplyTraitRemoves_subset:
  "ApplyTraitRemoves e rrs trait ctx rs = (Inr rrs', rs') \<Longrightarrow> set rrs' \<subseteq> set rrs"
  by (auto simp: ApplyTraitRemoves_def bindM_Inr dest!: enumerate_mem)

lemma ProcessTraits_planes:
  assumes "ProcessTraits e rrs trait ctx rs = (Inr rrs', rs')" and "inPlanes rrs"
    and "\<forall>c \<in> set (tsCreates (tSpec trait)). tcTargetPlane c \<noteq> []"
  shows "inPlanes rrs'"
proof -
  from assms(1) obtain created patched rs1 rs2 where
    "ApplyTraitCreates e rrs trait ctx rs = (Inr created, rs1)"
    "ApplyTraitPatches e created trait ctx rs1 = (Inr patched, rs2)"
    "ApplyTraitRemoves e patched trait ctx rs2 = (Inr rrs', rs')"
    by (auto simp: ProcessTraits_def bindM_Inr)
  with assms show ?thesis
    using ApplyTraitCreates_planes[of e rrs trait ctx rs created rs1] ApplyTraitRemoves_subset[of e patched trait ctx rs2 rrs' rs']
      inPlanes_same[of created patched] ApplyTraitPatches_places[of e created trait ctx rs1 patched rs2]
    by (auto simp: inPlanes_def list_all_iff)
qed

subsection \<open>The pipeline\<close>

lemma traitMap_mem: "fmlookup (traitMap ts) k = Some t \<Longrightarrow> t \<in> set ts"
proof -
  have "fmlookup (foldl (\<lambda>m t. fmupd (traitKind (tKind t) @ '':'' @ tName t) t m) m0 ts) k = Some t \<Longrightarrow>
      t \<in> set ts \<or> fmlookup m0 k = Some t" for m0
  proof (induction ts arbitrary: m0)
    case (Cons a ts)
    then show ?case using Cons.IH[of "fmupd (traitKind (tKind a) @ '':'' @ tName a) a m0"] by (auto split: if_splits)
  qed simp
  from this[of fmempty] show "fmlookup (traitMap ts) k = Some t \<Longrightarrow> t \<in> set ts" by (simp add: traitMap_def)
qed

lemma defaultPlane_nonempty [simp]: "defaultPlane plane \<noteq> []"
  by (simp add: defaultPlane_def TargetPlaneDataPlane_def)

lemma defaults_planes:
  "\<forall>t \<in> set (case ctResources (riComponentType (ApplyTargetPlaneDefaults input)) of None \<Rightarrow> [] | Some ts \<Rightarrow> ts). rtTargetPlane t \<noteq> []"
  "\<forall>t \<in> set (riTraits (ApplyTargetPlaneDefaults input)). \<forall>c \<in> set (tsCreates (tSpec t)). tcTargetPlane c \<noteq> []"
  by (auto simp: ApplyTargetPlaneDefaults_def split: option.splits)

lemma defaults_keep [simp]:
  "riLabels (ApplyTargetPlaneDefaults input) = riLabels input"
  "riComponentTraits (ApplyTargetPlaneDefaults input) = riComponentTraits input"
  "ctTraits (riComponentType (ApplyTargetPlaneDefaults input)) = ctTraits (riComponentType input)"
  by (simp_all add: ApplyTargetPlaneDefaults_def)

text \<open>What the loops over the trait instances keep, for a number of resources of the component type.\<close>

definition progressOk :: "nat \<Rightarrow> traitProgress \<Rightarrow> bool" where
  "progressOk base pr \<longleftrightarrow> inPlanes (prResources pr) \<and> int base + prTraitResourceCount pr = int (length (prResources pr))"

lemma processInstance_progress:
  assumes "processInstance e B traits bindings pr inst rs = (Inr pr', rs')" and "progressOk base pr"
    and "\<And>k t c. fmlookup traits k = Some t \<Longrightarrow> c \<in> set (tsCreates (tSpec t)) \<Longrightarrow> tcTargetPlane c \<noteq> []"
  shows "progressOk base pr'" and "prTraitCount pr' = prTraitCount pr + 1"
proof -
  from assms(1) obtain t traitContext rs1 rs2 where
    t: "fmlookup traits (traitKind (tiKind inst) @ '':'' @ tiName inst) = Some t"
    and run: "ProcessTraits e (prResources pr) t traitContext rs1 = (Inr (prResources pr'), rs2)"
    and counts: "prTraitCount pr' = prTraitCount pr + 1"
      "prTraitResourceCount pr' = prTraitResourceCount pr + int (length (prResources pr')) - int (length (prResources pr))"
    by (auto simp: processInstance_def Let_def bindM_Inr split: option.splits)
  show "prTraitCount pr' = prTraitCount pr + 1" by (rule counts(1))
  have "inPlanes (prResources pr')"
    using run by (rule ProcessTraits_planes) (use assms(2,3) t in \<open>auto simp: progressOk_def\<close>)
  with counts(2) assms(2) show "progressOk base pr'" by (simp add: progressOk_def)
qed

lemma fold_progress:
  assumes run: "foldM (processInstance e B (traitMap (riTraits (ApplyTargetPlaneDefaults input))) bindings) pr insts rs = (Inr pr', rs')"
    and ok: "progressOk base pr"
  shows "progressOk base pr' \<and> prTraitCount pr' = prTraitCount pr + int (length insts)"
  using run ok
proof (induction insts arbitrary: pr rs)
  case (Cons inst insts)
  let ?traits = "traitMap (riTraits (ApplyTargetPlaneDefaults input))"
  from Cons.prems(1) obtain pr1 rs1 where
    step: "processInstance e B ?traits bindings pr inst rs = (Inr pr1, rs1)"
    and rest: "foldM (processInstance e B ?traits bindings) pr1 insts rs1 = (Inr pr', rs')"
    by (auto simp: bindM_Inr)
  have planes: "\<And>k t c. fmlookup ?traits k = Some t \<Longrightarrow> c \<in> set (tsCreates (tSpec t)) \<Longrightarrow> tcTargetPlane c \<noteq> []"
    using defaults_planes(2)[of input] traitMap_mem by blast
  note first = processInstance_progress[OF step Cons.prems(2) planes]
  from Cons.IH[OF rest first(1)] first(2) show ?case by simp
qed simp

lemma RenderComponent_Inr:
  assumes "RenderComponent e B computeHash input rs = (Inr out, rs')"
  obtains base :: "RenderedResource list" and pr2 resources where
    "progressOk (length base) pr2"
    and "prTraitCount pr2 = int (length (ctTraits (riComponentType input)) + length (riComponentTraits input))"
    and "postProcessResources computeHash (ApplyTargetPlaneDefaults input) (prResources pr2) = Inr resources"
    and "validateResources resources = None"
    and "out = \<lparr>roResources = sortRenderedResources resources,
                roMetadata = \<lparr>mdResourceCount = int (length resources), mdBaseResourceCount = int (length base),
                  mdTraitCount = prTraitCount pr2, mdTraitResourceCount = prTraitResourceCount pr2\<rparr>\<rparr>"
proof -
  let ?input = "ApplyTargetPlaneDefaults input" and ?traits = "traitMap (riTraits (ApplyTargetPlaneDefaults input))"
  from assms obtain ctx base pr1 pr2 resources rs1 rs2 rs3 rs4 where
    base: "RenderResources e (case ctResources (riComponentType ?input) of None \<Rightarrow> [] | Some ts \<Rightarrow> ts) ctx rs1 = (Inr base, rs2)"
    and f1: "foldM (processInstance e B ?traits (\<lambda>inst. ResolveEmbeddedTraitBindings e inst ctx))
        \<lparr>prResources = base, prPending = componentTypePendingPostRenders input ctx, prTraitCount = 0, prTraitResourceCount = 0\<rparr>
        (ctTraits (riComponentType input)) rs2 = (Inr pr1, rs3)"
    and f2: "foldM (processInstance e B ?traits (\<lambda>inst. liftResult (bldInstanceBindings B inst))) pr1 (riComponentTraits input) rs3 = (Inr pr2, rs4)"
    and rest: "postProcessResources computeHash ?input (prResources pr2) = Inr resources" "validateResources resources = None"
      "out = \<lparr>roResources = sortRenderedResources resources,
                roMetadata = \<lparr>mdResourceCount = int (length resources), mdBaseResourceCount = int (length base),
                  mdTraitCount = prTraitCount pr2, mdTraitResourceCount = prTraitResourceCount pr2\<rparr>\<rparr>"
    unfolding RenderComponent_def by (auto simp: bindM_Inr Let_def)
  have "inPlanes base"
    by (rule RenderResources_planes[OF base defaults_planes(1)])
  then have "progressOk (length base)
      \<lparr>prResources = base, prPending = componentTypePendingPostRenders input ctx, prTraitCount = 0, prTraitResourceCount = 0\<rparr>"
    by (simp add: progressOk_def)
  from fold_progress[OF f1 this] have "progressOk (length base) pr1" "prTraitCount pr1 = int (length (ctTraits (riComponentType input)))"
    by simp_all
  with fold_progress[OF f2 this(1)] show ?thesis by (intro that[of base pr2 resources, OF _ _ rest]) simp_all
qed

lemma sortRenderedResources_sorted:
  "sorted_wrt (\<lambda>a b. \<not> compareResources (rrResource b) (rrResource a)) (sortRenderedResources rrs)"
proof -
  have "sorted (map (\<lambda>rr. resourceSortKey (rrResource rr)) (sortRenderedResources rrs))"
    by (simp add: sortRenderedResources_def)
  then show ?thesis by (simp add: sorted_map compareResources_def not_less)
qed

text \<open>C10: What a successful render returns is typed and consistent, whatever the templates, traits and patches. Every
  resource has an \<open>apiVersion\<close>, a \<open>kind\<close>, a \<open>metadata\<close> object with a \<open>name\<close> and, in its labels, every
  label of the input with its value, and it has a target plane. The resources are in the order of \<open>compareResources\<close>.
  The metadata has the number of resources, which is the number of resources of the component type plus
  what the traits added and removed, and the number of trait instances, all of which were processed.\<close>

theorem rendered_component_is_complete:
  assumes "pipelineRender e B computeHash input rs = (Inr out, rs')"
  shows "list_all (\<lambda>rr. hasIdentity (rrResource rr) \<and> hasLabels (riLabels input) (rrResource rr) \<and> rrTargetPlane rr \<noteq> [])
           (roResources out) \<and>
         sorted_wrt (\<lambda>a b. \<not> compareResources (rrResource b) (rrResource a)) (roResources out) \<and>
         (let md = roMetadata out in
            mdResourceCount md = int (length (roResources out)) \<and>
            mdResourceCount md = mdBaseResourceCount md + mdTraitResourceCount md \<and>
            mdTraitCount md = int (length (ctTraits (riComponentType input)) + length (riComponentTraits input)))"
proof -
  from assms have "RenderComponent e B computeHash input ((WithForEachBudget rs)\<lparr>rsPatchOps := 0\<rparr>) = (Inr out, rs')"
    by (simp add: pipelineRender_def)
  then obtain base :: "RenderedResource list" and pr2 resources where
    progress: "progressOk (length base) pr2"
    and count: "prTraitCount pr2 = int (length (ctTraits (riComponentType input)) + length (riComponentTraits input))"
    and post: "postProcessResources computeHash (ApplyTargetPlaneDefaults input) (prResources pr2) = Inr resources"
    and valid: "validateResources resources = None"
    and out: "out = \<lparr>roResources = sortRenderedResources resources,
                roMetadata = \<lparr>mdResourceCount = int (length resources), mdBaseResourceCount = int (length base),
                  mdTraitCount = prTraitCount pr2, mdTraitResourceCount = prTraitResourceCount pr2\<rparr>\<rparr>"
    by (rule RenderComponent_Inr)
  note same = postProcessResources_keeps[OF post]
  have "length resources = length (prResources pr2)" using same(1) unfolding samePlaces_def by (metis length_map)
  moreover have "inPlanes resources" using inPlanes_same[OF same(1)] progress by (simp add: progressOk_def)
  ultimately show ?thesis
    using validateResources_None[OF valid] same(2) progress count sortRenderedResources_sorted[of resources]
    by (simp add: out Let_def list_all_iff inPlanes_def progressOk_def) (simp add: sortRenderedResources_def)
qed

text \<open>An engine that looks names up, and a component with a deployment that a trait patches, beside a config map that the
  trait creates.\<close>

definition lookupEngine :: Engine where
  "lookupEngine =
     \<lparr>engEval = (\<lambda>expired expression inputs.
        (case fmlookup inputs expression of None \<Rightarrow> (EvalError ''no such key'', 1) | Some v \<Rightarrow> (EvalValue (Rendered v), 3))),
      engMarshal = (\<lambda>_. []), engCostLimit = 100\<rparr>"

definition obj :: "(string \<times> jval) list \<Rightarrow> jval" where
  "obj kvs = JObj (fmap_of_list kvs)"

definition sampleTrait :: Trait where
  "sampleTrait = \<lparr>tKind = [], tName = ''t'', tSpec = \<lparr>tsValidations = [], tsPreRenderValidations = [], tsPostRenderValidations = [],
     tsCreates = [\<lparr>tcTargetPlane = [], tcIncludeWhen = [], tcForEach = [], tcVar = [],
       tcTemplate = Some (obj [(''apiVersion'', JStr ''v1''), (''kind'', JStr ''ConfigMap''), (''metadata'', obj [(''name'', JStr ''${name}'')])])\<rparr>],
     tsPatches = [\<lparr>tpForEach = [], tpVar = [], tpTarget = \<lparr>ptgGroup = ''apps'', ptgVersion = [], ptgKind = ''Deployment'', ptgWhere = []\<rparr>,
       tpTargetPlane = [], tpOperations = [\<lparr>toOp = ''add'', toPath = ''/spec/replicas'', toValue = Some (Some (JInt 3))\<rparr>]\<rparr>],
     tsRemoves = []\<rparr>\<rparr>"

definition sampleInput :: RenderInput where
  "sampleInput = \<lparr>riComponentTypeName = ''web'',
     riComponentType = \<lparr>ctWorkloadType = ''deployment'', ctTraits = [], ctValidations = [], ctPreRenderValidations = [],
       ctPostRenderValidations = [],
       ctResources = Some [\<lparr>rtID = ''d'', rtTargetPlane = [], rtIncludeWhen = [], rtForEach = [], rtVar = [],
         rtTemplate = Some (obj [(''apiVersion'', JStr ''apps/v1''), (''kind'', JStr ''Deployment''),
           (''metadata'', obj [(''name'', JStr ''${name}'')]), (''spec'', obj [])])\<rparr>]\<rparr>,
     riComponentTraits = [\<lparr>tiKind = [], tiName = ''t'', tiInstanceName = ''i'', tiParameters = None, tiEnvironmentConfigs = None\<rparr>],
     riTraits = [sampleTrait], riLabels = fmap_of_list [(''team'', ''a'')]\<rparr>"

definition sampleBuilder :: contextBuilder where
  "sampleBuilder = \<lparr>bldValidate = (\<lambda>_. None), bldComponent = (\<lambda>_. Inr (fmap_of_list [(''name'', JStr ''x'')])),
     bldInstanceBindings = (\<lambda>_. Inr (fmempty, fmempty)), bldTrait = (\<lambda>_ _ _. Inr (fmap_of_list [(''name'', JStr ''y'')]))\<rparr>"

definition sampleState :: renderState where
  "sampleState = \<lparr>rsBudget = Some (NewCostBudget 100), rsItems = None, rsPatchOps = 0, rsApplied = 0, rsClock = None, rsCause = Canceled\<rparr>"

definition sampleRun :: "(renderError, RenderOutput) result \<times> renderState" where
  "sampleRun = pipelineRender lookupEngine sampleBuilder (\<lambda>_. ''h'') sampleInput sampleState"

lemma sampleRun_result:
  "(case fst sampleRun of
      Inl _ \<Rightarrow> False
    | Inr out \<Rightarrow> map (\<lambda>rr. strField (rrResource rr) ''kind'') (roResources out) = [''ConfigMap'', ''Deployment''])"
  by code_simp

theorem rendered_component_is_complete_witness:
  "\<exists>out rs'. pipelineRender lookupEngine sampleBuilder (\<lambda>_. ''h'') sampleInput sampleState = (Inr out, rs') \<and>
     map (\<lambda>rr. strField (rrResource rr) ''kind'') (roResources out) = [''ConfigMap'', ''Deployment''] \<and>
     list_all (\<lambda>rr. hasLabels (fmap_of_list [(''team'', ''a'')]) (rrResource rr)) (roResources out)"
proof -
  obtain out rs' where run: "sampleRun = (Inr out, rs')"
    using sampleRun_result by (metis (no_types, lifting) prod.collapse sum.case_eq_if sum.collapse(2))
  have labels: "riLabels sampleInput = fmap_of_list [(''team'', ''a'')]" by (simp add: sampleInput_def)
  have "map (\<lambda>rr. strField (rrResource rr) ''kind'') (roResources out) = [''ConfigMap'', ''Deployment'']"
    using sampleRun_result by (simp add: run)
  moreover have "list_all (\<lambda>rr. hasLabels (fmap_of_list [(''team'', ''a'')]) (rrResource rr)) (roResources out)"
    using rendered_component_is_complete[OF run[unfolded sampleRun_def]] by (simp add: labels list_all_iff)
  ultimately show ?thesis using run unfolding sampleRun_def by (intro exI conjI)
qed

end
