(* ===== verification/Component_Bounds.thy ===== *)
theory Component_Bounds
  imports Component_Output
begin

text \<open>
  How much work a render does, whatever the templates say. What every part of a render keeps is proved once for
  the invariants that the cost of an evaluation and the passing of time respect.
\<close>

subsection \<open>Invariants of rendering\<close>

locale render_invariant =
  fixes e :: Engine and I :: "renderState \<Rightarrow> bool"
  assumes clock: "I rs \<Longrightarrow> I (rs\<lparr>rsClock := c\<rparr>)"
    and budgeted: "I rs \<Longrightarrow> rsBudget rs \<noteq> None"
    and charge: "I rs \<Longrightarrow> rsBudget rs = Some b \<Longrightarrow> exceeded b = None \<Longrightarrow>
      I (rs\<lparr>rsBudget := Some (fst (addCost b (snd (engEval e expired x inputs))))\<rparr>)"
begin

abbreviation funded :: "renderState \<Rightarrow> bool" where
  "funded rs \<equiv> I rs \<and> (\<exists>b. rsBudget rs = Some b \<and> exceeded b = None)"

lemma ctxDone_funded: "triple funded ctxDone (\<lambda>_. funded) I"
  by (auto simp: triple_def ctxDone_def clock split: option.splits nat.splits)

lemma ctxDone_keeps: "keepsInv I ctxDone"
  by (auto simp: triple_def ctxDone_def clock split: option.splits nat.splits)

lemma ctxCheck_keeps: "keepsInv I (ctxCheck msg)"
  unfolding ctxCheck_def by (auto intro!: keeps ctxDone_keeps)

lemma checkBudget_funds: "triple I (checkBudget x) (\<lambda>_. funded) I"
  using budgeted by (fastforce simp: triple_def checkBudget_def split: option.splits)

lemma chargeCost_keeps:
  assumes "engEval e expired x inputs = (outcome, cost)"
  shows "triple funded (chargeCost cost) (\<lambda>_. I) I"
  using charge[of _ _ expired x inputs] assms
  by (auto simp: triple_def chargeCost_def split: prod.splits option.splits) (metis fst_conv)

lemma charged_keeps:
  assumes "engEval e expired x inputs = (outcome, cost)" and "\<And>breach. keepsInv I (f breach)"
  shows "triple funded (bindM (chargeCost cost) f) (\<lambda>_. I) I"
  by (rule triple_bind[OF chargeCost_keeps[OF assms(1)] assms(2)])

lemma outcome_keeps:
  "triple funded
     (case engEval e expired x inputs of
        (NotPrepared msg, _) \<Rightarrow> failM (Err Failure msg)
      | (outcome, cost) \<Rightarrow>
          bindM (chargeCost cost) (\<lambda>breach.
            (case (outcome, breach) of
               (OmitError, Some b) \<Rightarrow> failM (Wrapped (evalErrorText x) b)
             | (OmitError, None) \<Rightarrow> returnM OmitSentinel
             | (CostLimitHit msg, _) \<Rightarrow>
                 bindM ctxDone (\<lambda>fin.
                   if fin then ctxError (''CEL evaluation interrupted in expression '' @ TruncateFragment x)
                   else failM (Wrapped (evalErrorText x) (Err ErrCostLimitExceeded msg)))
             | (EvalError msg, _) \<Rightarrow>
                 bindM ctxDone (\<lambda>fin.
                   if fin then ctxError (''CEL evaluation interrupted in expression '' @ TruncateFragment x)
                   else failM (Wrapped (evalErrorText x) (Err Failure msg)))
             | (EvalValue v, Some b) \<Rightarrow> failM (Wrapped (evalErrorText x) b)
             | (EvalValue v, None) \<Rightarrow> returnM v
             | (NotPrepared msg, _) \<Rightarrow> failM (Err Failure msg)))) (\<lambda>_. I) I"
proof -
  obtain outcome cost where run: "engEval e expired x inputs = (outcome, cost)" by (cases "engEval e expired x inputs")
  show ?thesis
    by (cases outcome)
       (auto simp: run intro!: charged_keeps[OF run] keeps ctxDone_keeps triple_fail split: option.splits)
qed

lemma evaluateCEL_keeps [keeps]: "keepsInv I (evaluateCEL e x inputs)"
  unfolding evaluateCEL_def
  by (intro triple_bind[OF checkBudget_funds] triple_bind[OF ctxDone_funded] outcome_keeps)

lemma interpolate_keeps: "keepsInv I (interpolate e str inputs cursor spans)"
  by (induction spans arbitrary: cursor) (auto intro!: keeps evaluateCEL_keeps)

lemma renderString_keeps: "keepsInv I (renderString e inputs str)"
  unfolding renderString_def
  by (auto intro!: keeps ctxCheck_keeps evaluateCEL_keeps interpolate_keeps split: sum.splits list.splits simp del: interpolate.simps)

lemma renderEntry_keeps: "keepsInv I (snd kv) \<Longrightarrow> keepsInv I (renderEntry e inputs res kv)"
  unfolding renderEntry_def by (auto intro!: keeps renderString_keeps split: rendered.splits jval.splits)

lemma renderValue_keeps: "keepsInv I (renderValue e inputs data)"
proof (induction data)
  case (JObj m)
  have "keepsInv I (foldM (renderEntry e inputs) fmempty (sorted_list_of_fmap (fmmap (renderValue e inputs) m)))"
  proof (rule triple_foldM[where I = "\<lambda>_. I"])
    fix b kv
    assume "kv \<in> set (sorted_list_of_fmap (fmmap (renderValue e inputs) m))"
    then obtain k v where "fmlookup m k = Some v" "snd kv = renderValue e inputs v"
      by (auto simp: sorted_list_of_fmap_def elim!: fmdomE)
    with JObj[OF fmran'I] show "keepsInv I (renderEntry e inputs b kv)" by (auto intro: renderEntry_keeps)
  qed
  then show ?case by (auto intro!: keeps ctxCheck_keeps)
qed (auto intro!: keeps ctxCheck_keeps renderString_keeps)

lemma Render_keeps [keeps]: "keepsInv I (Render e data inputs)"
proof -
  have "I rs \<Longrightarrow> Render e data inputs rs = renderValue e inputs data rs" for rs
    using budgeted[of rs] by (auto simp: Render_def)
  with renderValue_keeps[of inputs data] show ?thesis by (simp add: triple_def)
qed

lemma ShouldInclude_keeps [keeps]: "keepsInv I (ShouldInclude e cond inputs)"
  unfolding ShouldInclude_def by (auto intro!: keeps Render_keeps split: rendered.splits jval.splits)

lemma validationErrors_keeps: "keepsInv I (validationErrors e ctx i rules)"
  by (induction rules arbitrary: i) (auto simp: Let_def intro!: keeps Render_keeps split: sum.splits)

lemma joinErrors_keeps [keeps]: "keepsInv I (joinErrors errs)"
  by (auto simp: joinErrors_def intro!: keeps)

lemma EvaluateValidationRules_keeps [keeps]: "keepsInv I (EvaluateValidationRules e rules ctx)"
  unfolding EvaluateValidationRules_def by (intro keeps validationErrors_keeps joinErrors_keeps)

lemma renderObject_keeps [keeps]: "keepsInv I (renderObject e what tmpl ctx)"
  unfolding renderObject_def by (auto intro!: keeps Render_keeps split: option.splits rendered.splits jval.splits)

lemma renderSingle_keeps [keeps]:
  "keepsInv I (renderSingleResource e rt ctx)" "keepsInv I (renderSingleCreate e path create ctx)"
  unfolding renderSingleResource_def renderSingleCreate_def by (auto intro!: keeps renderObject_keeps split: option.splits)

lemma evalWhere_keeps [keeps]: "keepsInv I (evalWhere e clause ctx rr)"
  unfolding evalWhere_def by (auto intro!: keeps Render_keeps split: rendered.splits jval.splits)

lemma filters_keep [keeps]: "keepsInv I (filterTargets e sel clause ctx)" "keepsInv I (filterByWhere e sel clause ctx)"
  unfolding filterTargets_def filterByWhere_def by (intro keeps evalWhere_keeps)+

lemma renderOperation_keeps [keeps]: "keepsInv I (renderOperation e ctx op)"
  unfolding renderOperation_def by (auto intro!: keeps Render_keeps split: option.splits rendered.splits jval.splits)

lemma renderOperations_keeps [keeps]: "keepsInv I (renderOperations e ops ctx)"
  unfolding renderOperations_def by (auto intro!: keeps renderOperation_keeps)

lemma collectRemovalsOnce_keeps [keeps]: "keepsInv I (collectRemovalsOnce e rm rrs marked ctx)"
  unfolding collectRemovalsOnce_def by (auto simp: Let_def intro!: keeps evalWhere_keeps)

lemma resolveBindings_keeps [keeps]: "keepsInv I (resolveBindings e raw ctx)"
  unfolding resolveBindings_def by (auto intro!: keeps Render_keeps split: option.splits rendered.splits jval.splits)

lemma ResolveEmbeddedTraitBindings_keeps [keeps]: "keepsInv I (ResolveEmbeddedTraitBindings e t ctx)"
  unfolding ResolveEmbeddedTraitBindings_def by (intro keeps resolveBindings_keeps)

end

text \<open>Invariants that say nothing of the items expanded are kept by the sweep after rendering too.\<close>

locale expansion_invariant = render_invariant +
  assumes items: "I rs \<Longrightarrow> I (rs\<lparr>rsItems := n\<rparr>)"
begin

lemma ToIterableItems_keeps [keeps]: "keepsInv I (ToIterableItems res)"
proof -
  have "keepsInv I (checkForEachLimit n)" for n
    by (auto simp: triple_def checkForEachLimit_def items split: option.splits)
  then show ?thesis unfolding ToIterableItems_def by (auto intro!: keeps split: rendered.splits jval.splits)
qed

lemma sweepM_keeps:
  "(\<And>errs x. keepsInv I (f errs x)) \<Longrightarrow> keepsInv I (sweepM f errs xs)"
  by (induction xs arbitrary: errs) (auto intro!: keeps)

lemma checkRule_keeps: "keepsInv I (checkRule e label v ctx errs irr)"
  unfolding checkRule_def Let_def by (intro keeps Render_keeps)

lemma evaluatePostRenderSelection_keeps: "keepsInv I (evaluatePostRenderSelection e rrs label v errs ctx)"
  unfolding evaluatePostRenderSelection_def Let_def
  by (auto intro!: keeps filters_keep sweepM_keeps checkRule_keeps split: sum.splits list.splits simp del: sweepM.simps)

lemma evaluateOnePostRender_keeps: "keepsInv I (evaluateOnePostRender e rrs p errs v)"
  unfolding evaluateOnePostRender_def
  by (auto intro!: keeps ShouldInclude_keeps Render_keeps ToIterableItems_keeps sweepM_keeps evaluatePostRenderSelection_keeps
        split: sum.splits bool.splits)

lemma evaluatePostRenderValidations_keeps: "keepsInv I (evaluatePostRenderValidations e rrs pending)"
  unfolding evaluatePostRenderValidations_def
  by (auto intro!: keeps sweepM_keeps evaluateOnePostRender_keeps joinErrors_keeps)

end

subsection \<open>Costs, patches and items\<close>

text \<open>With evaluations that cost at most \<open>L\<close>: the cost is less than one evaluation above the budget, the operations charged
  stay within their limit, and the operations applied since there were \<open>A\<close>, with \<open>d\<close> more that may
  follow, are charged.\<close>

definition work :: "Engine \<Rightarrow> nat \<Rightarrow> 64 word \<Rightarrow> nat \<Rightarrow> nat \<Rightarrow> renderState \<Rightarrow> bool" where
  "work e L C A d rs \<longleftrightarrow>
     (\<forall>expired x inputs. unat (snd (engEval e expired x inputs)) \<le> L) \<and> 0 < C \<and>
     (\<exists>b. rsBudget rs = Some b \<and> cbBudget b = C \<and> unat (cbSpent b) < unat C + L) \<and>
     unat (rsPatchOps rs) \<le> unat maxPatchOperations \<and> rsApplied rs + d \<le> A + unat (rsPatchOps rs)"

text \<open>At least \<open>k\<close> items are charged, and no more than a render may expand.\<close>

definition expanded :: "Engine \<Rightarrow> nat \<Rightarrow> 64 word \<Rightarrow> nat \<Rightarrow> nat \<Rightarrow> nat \<Rightarrow> renderState \<Rightarrow> bool" where
  "expanded e L C A d k rs \<longleftrightarrow>
     work e L C A d rs \<and> (\<exists>n. rsItems rs = Some n \<and> k \<le> n \<and> n \<le> maxForEachItemsPerRender)"

lemma work_charge:
  assumes "work e L C A d rs" and "rsBudget rs = Some b" and "exceeded b = None"
  shows "work e L C A d (rs\<lparr>rsBudget := Some (fst (addCost b (snd (engEval e expired x inputs))))\<rparr>)"
proof -
  have "unat (snd (engEval e expired x inputs)) \<le> L" and "unat (cbSpent b) < unat C"
    using assms by (auto simp: work_def exceeded_def word_less_nat_alt not_le split: if_splits)
  then have "unat (cbSpent (fst (addCost b (snd (engEval e expired x inputs))))) < unat C + L"
    by (simp add: addCost_spent)
  with assms show ?thesis by (auto simp: work_def)
qed

interpretation wk: expansion_invariant e "work e L C A d" for e L C A d
  by unfold_locales (auto simp: work_charge, auto simp: work_def)

interpretation ex: render_invariant e "expanded e L C A d k" for e L C A d k
  by unfold_locales (auto simp: expanded_def work_charge, auto simp: work_def)

lemma expanded_weaken: "expanded e L C A d k rs \<Longrightarrow> k' \<le> k \<Longrightarrow> expanded e L C A d k' rs"
  by (auto simp: expanded_def)

lemma expanded_pred: "expanded e L C A d k rs \<Longrightarrow> expanded e L C A d (k - Suc 0) rs"
  by (erule expanded_weaken) (rule diff_le_self)

lemma expanded_work: "expanded e L C A d k rs \<Longrightarrow> work e L C A 0 rs"
  by (auto simp: expanded_def work_def)

text \<open>What a render keeps on success; when it fails, the work is bounded still.\<close>

abbreviation costs :: "Engine \<Rightarrow> nat \<Rightarrow> 64 word \<Rightarrow> nat \<Rightarrow> nat \<Rightarrow> 'a render \<Rightarrow> ('a \<Rightarrow> nat) \<Rightarrow> bool" where
  "costs e L C A k m k' \<equiv> triple (expanded e L C A 0 k) m (\<lambda>a. expanded e L C A 0 (k' a)) (work e L C A 0)"

lemma costs_keeps: "keepsInv (expanded e L C A 0 k) m \<Longrightarrow> costs e L C A k m (\<lambda>_. k)"
  by (erule triple_conseq) (auto simp: expanded_work)

lemma costs_weaken: "costs e L C A k m f \<Longrightarrow> (\<And>a. g a \<le> f a) \<Longrightarrow> costs e L C A k m g"
  by (erule triple_conseq) (auto intro: expanded_weaken)

lemma triple_value:
  "triple P m Q E \<Longrightarrow> (\<And>rs a rs'. m rs = (Inr a, rs') \<Longrightarrow> V a) \<Longrightarrow> triple P m (\<lambda>a rs. Q a rs \<and> V a) E"
  unfolding triple_iff by blast

lemma triple_pre: "(\<And>rs. P rs \<Longrightarrow> triple P m Q E) \<Longrightarrow> triple P m Q E"
  unfolding triple_iff by blast

lemma triple_assume: "(V \<Longrightarrow> triple P m Q E) \<Longrightarrow> triple (\<lambda>rs. P rs \<and> V) m Q E"
  by (auto simp: triple_def)

lemma costs_bind:
  assumes "costs e L C A k m (\<lambda>_. k)" and "\<And>a. costs e L C A k (f a) g"
  shows "costs e L C A k (bindM m f) g"
  by (rule triple_bind[OF assms])

lemma seqM_length: "seqM ms rs = (Inr as, rs') \<Longrightarrow> length as = length ms"
  by (induction ms arbitrary: rs as) (auto simp: bindM_Inr)

lemma checkForEachLimit_costs: "costs e L C A k (checkForEachLimit n) (\<lambda>_. k + n)"
  by (auto simp: triple_def checkForEachLimit_def expanded_def work_def split: option.splits)

lemma ToIterableItems_costs: "costs e L C A k (ToIterableItems res) (\<lambda>its. k + length its)"
proof -
  have len: "length (sorted_list_of_fmap m) = fcard (fmdom m)" for m :: jobj
    by (simp add: sorted_list_of_fmap_def sorted_list_of_fset.rep_eq fcard.rep_eq)
  have charged: "costs e L C A k (bindM (checkForEachLimit n) (\<lambda>_. returnM its)) (\<lambda>its. k + length its)" if "length its = n" for n its
    using that by (auto intro!: triple_bind[OF checkForEachLimit_costs] triple_return)
  show ?thesis
    unfolding ToIterableItems_def
    by (auto split: rendered.splits jval.splits simp: len intro!: charged triple_fail expanded_work)
qed

lemma EvalForEach_costs: "costs e L C A k (EvalForEach e forEach var ctx) (\<lambda>ctxs. k + length ctxs)"
  unfolding EvalForEach_def
  by (intro costs_bind costs_keeps ex.Render_keeps triple_bind[OF ToIterableItems_costs] triple_return) simp

lemma seqM_costs:
  assumes "\<And>x. keepsInv (expanded e L C A 0 k) (f x)"
  shows "costs e L C A k (seqM (map f xs)) (\<lambda>ys. k + length ys - length xs)"
proof -
  have "costs e L C A k (seqM (map f xs)) (\<lambda>_. k)"
    by (rule costs_keeps) (auto intro!: keeps assms)
  then have "triple (expanded e L C A 0 k) (seqM (map f xs)) (\<lambda>ys rs. expanded e L C A 0 k rs \<and> length ys = length xs) (work e L C A 0)"
    by (rule triple_value) (simp add: seqM_length)
  then show ?thesis by (rule triple_conseq) auto
qed

subsection \<open>Resources\<close>

text \<open>A number of resources, of which all but \<open>c\<close> are paid for by items.\<close>

abbreviation sized :: "Engine \<Rightarrow> nat \<Rightarrow> 64 word \<Rightarrow> nat \<Rightarrow> nat \<Rightarrow> RenderedResource list \<Rightarrow> renderState \<Rightarrow> bool" where
  "sized e L C A c rrs \<equiv> expanded e L C A 0 (length rrs - c)"

lemma triple_count:
  assumes "\<And>c b x. x \<in> set xs \<Longrightarrow> c + w x \<le> N \<Longrightarrow> triple (J c b) (f b x) (J (c + w x)) E"
    and "c + sum_list (map w xs) \<le> (N :: nat)"
  shows "triple (J c b) (foldM f b xs) (J (c + sum_list (map w xs))) E"
  using assms
proof (induction xs arbitrary: c b)
  case (Cons x xs)
  have "triple (J c b) (f b x) (J (c + w x)) E"
    by (rule Cons.prems(1)) (use Cons.prems(2) in simp_all)
  moreover have "triple (J (c + w x) b') (foldM f b' xs) (J (c + w x + sum_list (map w xs))) E" for b'
    by (rule Cons.IH) (use Cons.prems in \<open>simp_all add: add.assoc\<close>)
  ultimately show ?case by (auto simp: add.assoc intro: triple_bind)
qed (auto intro: triple_return)

lemma added_costs:
  assumes "\<And>k. costs e L C A k m (\<lambda>new. k + length new - 1)" and "\<And>new. length (g new) = length new"
  shows "triple (sized e L C A c rrs) (bindM m (\<lambda>new. returnM (rrs @ g new))) (sized e L C A (c + 1)) (work e L C A 0)"
  by (rule triple_bind[OF assms(1)]) (auto intro!: triple_return elim: expanded_weaken simp: assms(2))

lemma renderTemplate_costs: "costs e L C A k (renderTemplate e ctx t) (\<lambda>ms. k + length ms - 1)"
proof -
  have single: "costs e L C A k (bindM (renderSingleResource e t ctx) (\<lambda>m. returnM [m])) (\<lambda>ms. k + length ms - 1)"
    by (intro costs_bind costs_keeps ex.renderSingle_keeps triple_return) simp
  have "costs e L C A k (renderWithForEach e t ctx) (\<lambda>ms. k + length ms - 1)"
    unfolding renderWithForEach_def
    by (rule triple_bind[OF triple_wrap[OF EvalForEach_costs]])
       (rule costs_weaken[OF seqM_costs[OF ex.renderSingle_keeps(1)]], simp)
  with single show ?thesis
    unfolding renderTemplate_def
    by (auto intro!: costs_bind costs_keeps keeps_wrap ex.ShouldInclude_keeps triple_return) (erule expanded_pred)+
qed

lemma applyCreate_costs: "costs e L C A k (applyCreate e path ctx create) (\<lambda>new. k + length new - 1)"
proof -
  have single: "costs e L C A k (bindM (renderSingleCreate e path create ctx) (\<lambda>m. returnM [m])) (\<lambda>ms. k + length ms - 1)"
    by (intro costs_bind costs_keeps ex.renderSingle_keeps triple_return) simp
  have "costs e L C A k (bindM (wrapM msg (EvalForEach e (tcForEach create) (tcVar create) ctx))
      (\<lambda>ctxs. seqM (map (renderSingleCreate e path create) ctxs))) (\<lambda>ms. k + length ms - 1)" for msg
    by (rule triple_bind[OF triple_wrap[OF EvalForEach_costs]])
       (rule costs_weaken[OF seqM_costs[OF ex.renderSingle_keeps(2)]], simp)
  with single show ?thesis
    unfolding applyCreate_def
    by (auto intro!: costs_bind costs_keeps keeps_wrap ex.ShouldInclude_keeps triple_return) (erule expanded_pred)+
qed

lemma RenderResources_sized:
  "triple (sized e L C A c []) (RenderResources e templates ctx) (sized e L C A (c + length templates)) (work e L C A 0)"
proof -
  have "triple (sized e L C A c []) (RenderResources e templates ctx)
      (sized e L C A (c + sum_list (map (\<lambda>_. 1) templates))) (work e L C A 0)"
    unfolding RenderResources_def by (rule triple_count[OF _ order_refl]) (rule added_costs[OF renderTemplate_costs], simp)
  then show ?thesis by (simp add: sum_list_triv)
qed

lemma ApplyTraitCreates_sized:
  "triple (sized e L C A c rrs) (ApplyTraitCreates e rrs trait ctx)
     (sized e L C A (c + length (tsCreates (tSpec trait)))) (work e L C A 0)"
proof -
  have "triple (sized e L C A c rrs) (ApplyTraitCreates e rrs trait ctx)
      (sized e L C A (c + sum_list (map (\<lambda>_. 1) (List.enumerate 0 (tsCreates (tSpec trait)))))) (work e L C A 0)"
    unfolding ApplyTraitCreates_def
    by (rule triple_count[OF _ order_refl]) (simp only: case_prod_beta, rule added_costs[OF applyCreate_costs, where g = "\<lambda>new. new"], rule refl)
  then show ?thesis by (simp add: sum_list_triv)
qed

subsection \<open>Patches\<close>

lemma patchTarget_costs:
  "triple (expanded e L C A (d + length ops) k) (patchTarget what ops rrs i) (\<lambda>_. expanded e L C A d k) (work e L C A 0)"
proof -
  have check: "triple (expanded e L C A (d + length ops) k) (ctxCheck msg) (\<lambda>_. expanded e L C A (d + length ops) k) (work e L C A 0)" for msg
    by (rule triple_conseq[OF ex.ctxCheck_keeps]) (auto intro: expanded_work)
  show ?thesis
    unfolding patchTarget_def
    by (rule triple_bind[OF check]) (auto simp: triple_def expanded_def work_def Let_def split: prod.splits option.splits)
qed

lemma patchTargets_costs:
  "triple (expanded e L C A (length ts * length ops) k) (foldM (patchTarget what ops) rrs ts)
     (\<lambda>_. expanded e L C A 0 k) (work e L C A 0)"
proof (induction ts arbitrary: rrs)
  case (Cons i ts)
  have "triple (expanded e L C A (length ts * length ops + length ops) k) (foldM (patchTarget what ops) rrs (i # ts))
     (\<lambda>_. expanded e L C A 0 k) (work e L C A 0)"
    unfolding foldM.simps by (rule triple_bind[OF patchTarget_costs Cons.IH])
  then show ?case by (simp add: add.commute)
qed (auto intro: triple_return)

lemma remaining_operations:
  fixes u :: "64 word"
  assumes "t < 2 ^ 64" "n < 2 ^ 64" "unat u \<le> unat maxPatchOperations" "n > 0"
    and "\<not> word_of_nat t > (maxPatchOperations - u) div word_of_nat n"
  shows "unat (u + word_of_nat t * word_of_nat n) = unat u + t * n" "unat u + t * n \<le> unat maxPatchOperations"
proof -
  have tn: "unat (word_of_nat t :: 64 word) = t" "unat (word_of_nat n :: 64 word) = n"
    using assms(1,2) by (simp_all add: unat_of_nat)
  have "t \<le> (unat maxPatchOperations - unat u) div n"
    using assms(3,5) by (simp add: word_less_nat_alt not_less unat_div unat_sub word_le_nat_alt tn)
  then have le: "t * n \<le> unat maxPatchOperations - unat u"
    using assms(4) by (simp add: less_eq_div_iff_mult_less_eq)
  then show "unat u + t * n \<le> unat maxPatchOperations" using assms(3) by simp
  then show "unat (u + word_of_nat t * word_of_nat n) = unat u + t * n"
    by (simp add: unat_word_ariths tn maxPatchOperations_def)
qed

lemma chargePatchOperations_costs:
  assumes "t < 2 ^ 64" and "n < 2 ^ 64"
  shows "triple (expanded e L C A 0 k) (chargePatchOperations (word_of_nat t) (word_of_nat n))
           (\<lambda>_. expanded e L C A (t * n) k) (work e L C A 0)"
proof (cases "t = 0 \<or> n = 0")
  case True
  then show ?thesis by (auto simp: triple_def chargePatchOperations_def)
next
  case False
  then have "(word_of_nat t :: 64 word) \<noteq> 0" "(word_of_nat n :: 64 word) \<noteq> 0"
    using assms by (simp_all add: word_of_nat_eq_0_iff nat_dvd_not_less)
  then show ?thesis
    using remaining_operations[OF assms] False
    by (auto simp: triple_def chargePatchOperations_def expanded_def work_def Let_def)
qed

lemma filterTargets_length: "filterTargets e sel clause ctx rs = (Inr targets, rs') \<Longrightarrow> length targets \<le> length sel"
proof -
  have "foldM (\<lambda>filtered irr. bindM (evalWhere e clause ctx (snd irr)) (\<lambda>b. returnM (if b then filtered @ [irr] else filtered)))
      acc sel rs = (Inr targets, rs') \<Longrightarrow> length targets \<le> length acc + length sel" for acc
    by (induction sel arbitrary: acc rs) (fastforce simp: bindM_Inr split: if_splits)+
  from this[of "[]"] show "filterTargets e sel clause ctx rs = (Inr targets, rs') \<Longrightarrow> length targets \<le> length sel"
    by (simp add: filterTargets_def)
qed

lemma applyOperations_costs:
  assumes "length targets < 2 ^ 64" and "length ops < 2 ^ 64"
  shows "costs e L C A k
      (bindM (wrapM what (chargePatchOperations (word_of_nat (length targets)) (word_of_nat (length ops))))
         (\<lambda>_. foldM (patchTarget what ops) rrs (map fst targets))) (\<lambda>_. k)"
  by (rule triple_bind[OF triple_wrap[OF chargePatchOperations_costs[OF assms]]])
     (rule patchTargets_costs[of e L C A "map fst targets", unfolded length_map])

lemma applyPatchOnce_costs:
  assumes "length rrs < 2 ^ 64" and "length (tpOperations p) < 2 ^ 64"
  shows "costs e L C A k (applyPatchOnce e what p rrs ctx) (\<lambda>_. k)"
proof -
  define sel where "sel = FindTargetResources rrs (targetSpec (tpTarget p) (tpTargetPlane p))"
  have sel: "length sel < 2 ^ 64"
    using assms(1) length_filter_le[of _ "List.enumerate 0 rrs"] by (fastforce simp: sel_def FindTargetResources_def intro: le_less_trans)
  have where_target: "tgWhere (targetSpec (tpTarget p) (tpTargetPlane p)) = ptgWhere (tpTarget p)"
    by (simp add: targetSpec_def)
  have ops: "triple (expanded e L C A 0 k) (renderOperations e (tpOperations p) ctx)
      (\<lambda>ops rs. expanded e L C A 0 k rs \<and> length ops < 2 ^ 64) (work e L C A 0)"
    by (rule triple_value[OF costs_keeps[OF ex.renderOperations_keeps]])
       (use assms(2) in \<open>simp add: renderOperations_def seqM_length\<close>)
  have targets: "triple (expanded e L C A 0 k)
      (if ptgWhere (tpTarget p) \<noteq> [] then filterTargets e sel (ptgWhere (tpTarget p)) ctx else returnM sel)
      (\<lambda>targets rs. expanded e L C A 0 k rs \<and> length targets < 2 ^ 64) (work e L C A 0)"
    by (rule triple_value[OF costs_keeps])
       (use sel in \<open>auto intro!: keeps ex.filters_keep dest!: filterTargets_length split: if_splits\<close>)
  note unfolded = applyPatchOnce_def Let_def sel_def[symmetric] where_target
  show ?thesis
  proof (cases "sel = []")
    case True
    then show ?thesis unfolding unfolded by (simp add: triple_return)
  next
    case False
    show ?thesis
      unfolding unfolded if_not_P[OF False]
      by (rule triple_bind[OF targets], rule triple_assume)
         (auto intro!: triple_return triple_bind[OF ops] triple_assume applyOperations_costs)
  qed
qed

text \<open>Folds over resources whose number does not change.\<close>

lemma fold_costs:
  assumes "\<And>b x. length b = length rrs \<Longrightarrow> x \<in> set xs \<Longrightarrow> costs e L C A k (f b x) (\<lambda>_. k)"
    and "\<And>b x rs b' rs'. f b x rs = (Inr b', rs') \<Longrightarrow> samePlaces b b'"
  shows "costs e L C A k (foldM f rrs xs) (\<lambda>_. k)"
proof -
  have "triple (\<lambda>rs. expanded e L C A 0 k rs \<and> length b = length rrs) (f b x)
      (\<lambda>b' rs. expanded e L C A 0 k rs \<and> length b' = length rrs) (work e L C A 0)" if "x \<in> set xs" for b x
  proof (rule triple_assume)
    assume len: "length b = length rrs"
    have "length b' = length rrs" if "f b x rs = (Inr b', rs')" for rs b' rs'
      using assms(2)[OF that] len unfolding samePlaces_def by (metis length_map)
    then show "triple (expanded e L C A 0 k) (f b x) (\<lambda>b' rs. expanded e L C A 0 k rs \<and> length b' = length rrs) (work e L C A 0)"
      by (rule triple_value[OF assms(1)[OF len \<open>x \<in> set xs\<close>]])
  qed
  then have "triple (\<lambda>rs. expanded e L C A 0 k rs \<and> length rrs = length rrs) (foldM f rrs xs)
      (\<lambda>b' rs. expanded e L C A 0 k rs \<and> length b' = length rrs) (work e L C A 0)"
    by (rule triple_foldM[where I = "\<lambda>b rs. expanded e L C A 0 k rs \<and> length b = length rrs"])
  then show ?thesis by (rule triple_conseq) simp_all
qed

lemma items_costs:
  assumes "\<And>its. costs e L C A k (f its) (\<lambda>_. k)"
  shows "costs e L C A k (bindM (wrapM msg (Render e data ctx)) (\<lambda>raw. bindM (wrapM msg' (ToIterableItems raw)) f)) (\<lambda>_. k)"
  by (intro costs_bind triple_wrap costs_keeps[OF ex.Render_keeps] costs_weaken[OF ToIterableItems_costs] assms) simp

lemma applyPatch_costs:
  assumes "length rrs < 2 ^ 64" and "length (tpOperations p) < 2 ^ 64"
  shows "costs e L C A k (applyPatch e what p rrs ctx) (\<lambda>_. k)"
proof -
  have "costs e L C A k (applyPatchWithForEach e what p rrs ctx) (\<lambda>_. k)"
    unfolding applyPatchWithForEach_def
    by (rule items_costs, rule fold_costs)
       (use assms in \<open>auto simp: case_prod_beta applyPatchOnce_places intro!: triple_wrap applyPatchOnce_costs\<close>)
  then show ?thesis using applyPatchOnce_costs[OF assms] by (simp add: applyPatch_def)
qed

lemma ApplyTraitPatches_costs:
  assumes "length rrs < 2 ^ 64" and "\<forall>p \<in> set (tsPatches (tSpec trait)). length (tpOperations p) < 2 ^ 64"
  shows "costs e L C A k (ApplyTraitPatches e rrs trait ctx) (\<lambda>_. k)"
  unfolding ApplyTraitPatches_def
  by (rule fold_costs)
     (use assms in \<open>auto simp: case_prod_beta Let_def applyPatch_places intro!: triple_wrap applyPatch_costs dest!: enumerate_mem\<close>)

subsection \<open>Removes\<close>

lemma collectRemovalsForEntry_costs: "costs e L C A k (collectRemovalsForEntry e what rm rrs marked ctx) (\<lambda>_. k)"
proof -
  have fold: "costs e L C A k (foldM (\<lambda>marked (i, item). wrapM (msg i) (collectRemovalsOnce e rm rrs marked (ctx' item))) marked its) (\<lambda>_. k)"
    for msg ctx' and its :: "(nat \<times> jval) list"
    by (rule costs_keeps) (auto intro!: keeps ex.collectRemovalsOnce_keeps)
  show ?thesis
    unfolding collectRemovalsForEntry_def by (auto intro!: costs_keeps[OF ex.collectRemovalsOnce_keeps] items_costs fold)
qed

lemma ApplyTraitRemoves_sized:
  "triple (sized e L C A c rrs) (ApplyTraitRemoves e rrs trait ctx) (sized e L C A c) (work e L C A 0)"
proof -
  have "costs e L C A k (foldM (\<lambda>marked (i, rm). (let what = f i in
      wrapM (g what) (collectRemovalsForEntry e what rm rrs marked ctx))) [] rms) (\<lambda>_. k)"
    for k f g and rms :: "(nat \<times> TraitRemove) list"
    unfolding Let_def case_prod_beta
    by (rule triple_foldM[where I = "\<lambda>_. expanded e L C A 0 k"]) (intro triple_wrap collectRemovalsForEntry_costs)
  then have run: "costs e L C A k (ApplyTraitRemoves e rrs trait ctx) (\<lambda>_. k)" for k
    unfolding ApplyTraitRemoves_def by (intro costs_bind triple_return) assumption+
  have "length rrs' \<le> length rrs" if "ApplyTraitRemoves e rrs trait ctx rs = (Inr rrs', rs')" for rs rrs' rs'
    using that length_filter_le[of _ "List.enumerate 0 rrs"] by (auto simp: ApplyTraitRemoves_def bindM_Inr)
  from triple_value[OF run this] show ?thesis
    by (rule triple_conseq) (auto elim!: expanded_weaken intro: diff_le_mono)
qed

lemma ApplyTraitPatches_sized:
  assumes "c + maxForEachItemsPerRender < 2 ^ 64" and "\<forall>p \<in> set (tsPatches (tSpec trait)). length (tpOperations p) < 2 ^ 64"
  shows "triple (sized e L C A c rrs) (ApplyTraitPatches e rrs trait ctx) (sized e L C A c) (work e L C A 0)"
proof (rule triple_pre)
  fix rs
  assume "sized e L C A c rrs rs"
  then have "length rrs < 2 ^ 64" using assms(1) by (auto simp: expanded_def)
  note run = ApplyTraitPatches_costs[OF this assms(2), of e L C A "length rrs - c" ctx]
  have "length rrs' = length rrs" if "ApplyTraitPatches e rrs trait ctx rs = (Inr rrs', rs')" for rs rrs' rs'
    using ApplyTraitPatches_places[OF that] unfolding samePlaces_def by (metis length_map)
  from triple_value[OF run this]
  show "triple (sized e L C A c rrs) (ApplyTraitPatches e rrs trait ctx) (sized e L C A c) (work e L C A 0)"
    by (rule triple_conseq) auto
qed

lemma ProcessTraits_sized:
  assumes "c + length (tsCreates (tSpec trait)) + maxForEachItemsPerRender < 2 ^ 64"
    and "\<forall>p \<in> set (tsPatches (tSpec trait)). length (tpOperations p) < 2 ^ 64"
  shows "triple (sized e L C A c rrs) (ProcessTraits e rrs trait ctx)
           (sized e L C A (c + length (tsCreates (tSpec trait)))) (work e L C A 0)"
  unfolding ProcessTraits_def
  by (rule triple_bind[OF ApplyTraitCreates_sized], rule triple_bind[OF ApplyTraitPatches_sized[OF assms] ApplyTraitRemoves_sized])

subsection \<open>The pipeline\<close>

text \<open>The number of templates that the trait of an instance creates resources from.\<close>

definition instanceCreates :: "(string, Trait) fmap \<Rightarrow> traitInstance \<Rightarrow> nat" where
  "instanceCreates traits inst =
     (case fmlookup traits (traitKind (tiKind inst) @ '':'' @ tiName inst) of
        None \<Rightarrow> 0
      | Some t \<Rightarrow> length (tsCreates (tSpec t)))"

lemma processInstance_sized:
  assumes "c + instanceCreates traits inst + maxForEachItemsPerRender < 2 ^ 64"
    and "\<And>k t p. fmlookup traits k = Some t \<Longrightarrow> p \<in> set (tsPatches (tSpec t)) \<Longrightarrow> length (tpOperations p) < 2 ^ 64"
    and "\<And>k. keepsInv (expanded e L C A 0 k) (bindings inst)"
  shows "triple (sized e L C A c (prResources pr)) (processInstance e B traits bindings pr inst)
           (\<lambda>pr'. sized e L C A (c + instanceCreates traits inst) (prResources pr')) (work e L C A 0)"
proof (cases "fmlookup traits (traitKind (tiKind inst) @ '':'' @ tiName inst)")
  case None
  then show ?thesis by (auto simp: processInstance_def Let_def intro!: triple_fail expanded_work)
next
  case (Some t)
  have creates: "instanceCreates traits inst = length (tsCreates (tSpec t))" unfolding instanceCreates_def Some by simp
  have lift: "keepsInv (expanded e L C A 0 k) (liftResult r)" for k and r :: "(renderError, jobj) result"
    by (cases r) (simp_all add: triple_def liftResult_def)
  show ?thesis
    unfolding processInstance_def Let_def Some option.case creates
    by (rule costs_bind[OF triple_wrap[OF costs_keeps[OF assms(3)]]],
        rule costs_bind[OF triple_wrap[OF costs_keeps[OF lift]]],
        rule costs_bind[OF triple_wrap[OF costs_keeps[OF ex.EvaluateValidationRules_keeps]]],
        rule triple_bind[OF triple_wrap[OF ProcessTraits_sized]])
       (use assms(1) assms(2)[OF Some] creates in \<open>auto intro: triple_return\<close>)
qed

text \<open>All the instances of a render, with the templates of their traits.\<close>

definition renderTemplates :: "RenderInput \<Rightarrow> nat" where
  "renderTemplates input =
     (let traits = traitMap (riTraits (ApplyTargetPlaneDefaults input)) in
      (case ctResources (riComponentType input) of None \<Rightarrow> 0 | Some ts \<Rightarrow> length ts) +
      sum_list (map (instanceCreates traits) (ctTraits (riComponentType input))) +
      sum_list (map (instanceCreates traits) (riComponentTraits input)))"

lemma processInstances_sized:
  assumes "c + sum_list (map (instanceCreates traits) insts) + maxForEachItemsPerRender < 2 ^ 64"
    and "\<And>k t p. fmlookup traits k = Some t \<Longrightarrow> p \<in> set (tsPatches (tSpec t)) \<Longrightarrow> length (tpOperations p) < 2 ^ 64"
    and "\<And>k inst. keepsInv (expanded e L C A 0 k) (bindings inst)"
  shows "triple (sized e L C A c (prResources pr)) (foldM (processInstance e B traits bindings) pr insts)
           (\<lambda>pr'. sized e L C A (c + sum_list (map (instanceCreates traits) insts)) (prResources pr')) (work e L C A 0)"
proof (rule triple_count[where J = "\<lambda>c pr. sized e L C A c (prResources pr)", OF _ order_refl])
  fix c' pr' and inst
  assume "c' + instanceCreates traits inst \<le> c + sum_list (map (instanceCreates traits) insts)"
  then have "c' + instanceCreates traits inst + maxForEachItemsPerRender < 2 ^ 64" using assms(1) by simp
  then show "triple (sized e L C A c' (prResources pr')) (processInstance e B traits bindings pr' inst)
      (\<lambda>pr. sized e L C A (c' + instanceCreates traits inst) (prResources pr)) (work e L C A 0)"
    by (rule processInstance_sized) (rule assms(2), assumption+, rule assms(3))
qed

lemma defaults_patches:
  assumes "\<forall>t \<in> set (riTraits input). \<forall>p \<in> set (tsPatches (tSpec t)). length (tpOperations p) < 2 ^ 64"
    and "fmlookup (traitMap (riTraits (ApplyTargetPlaneDefaults input))) k = Some t" and "p \<in> set (tsPatches (tSpec t))"
  shows "length (tpOperations p) < 2 ^ 64"
  using assms traitMap_mem[OF assms(2)] by (auto simp: ApplyTargetPlaneDefaults_def)

lemma defaults_templates:
  "length (case ctResources (riComponentType (ApplyTargetPlaneDefaults input)) of None \<Rightarrow> [] | Some ts \<Rightarrow> ts) =
   (case ctResources (riComponentType input) of None \<Rightarrow> 0 | Some ts \<Rightarrow> length ts)"
  by (auto simp: ApplyTargetPlaneDefaults_def split: option.splits)

lemma keeps_lift: "keepsInv I (liftResult r)" "keepsInv I (liftError err)"
  by (auto simp: triple_def liftResult_def liftError_def returnM_def failM_def split: sum.splits option.splits)

text \<open>The last steps do not change the number of resources.\<close>

lemma finish_bounded:
  "triple (sized e L C A N rrs)
     (bindM (wrapM m1 (evaluatePostRenderValidations e rrs pending)) (\<lambda>_.
      bindM (wrapM m2 (liftResult (postProcessResources computeHash input rrs))) (\<lambda>resources.
      bindM (wrapM m3 (liftError (validateResources resources))) (\<lambda>_.
        returnM \<lparr>roResources = sortRenderedResources resources, roMetadata = md resources\<rparr>))))
     (\<lambda>out rs. work e L C A 0 rs \<and> length (roResources out) \<le> N + maxForEachItemsPerRender) (work e L C A 0)"
proof -
  have start: "triple (\<lambda>rs. work e L C A 0 rs \<and> length rrs \<le> N + maxForEachItemsPerRender) m Q E \<Longrightarrow>
      triple (sized e L C A N rrs) m Q E" for m :: "'a render" and Q E
    by (erule triple_conseq) (auto intro: expanded_work simp: expanded_def)
  have len: "length (sortRenderedResources resources) = length rrs"
    if "postProcessResources computeHash input rrs = Inr resources" for resources
    using postProcessResources_keeps(1)[OF that] unfolding samePlaces_def sortRenderedResources_def
    by (metis length_map length_sort)
  have post: "triple (work e L C A 0) (wrapM m2 (liftResult (postProcessResources computeHash input rrs)))
      (\<lambda>resources rs. work e L C A 0 rs \<and> length (sortRenderedResources resources) = length rrs) (work e L C A 0)"
    by (rule triple_value[OF keeps_wrap[OF keeps_lift(1)]]) (auto dest: len)
  show ?thesis
    by (rule start, rule triple_assume,
        rule triple_bind[OF keeps_wrap[OF wk.evaluatePostRenderValidations_keeps]], rule triple_bind[OF post],
        rule triple_assume, rule triple_bind[OF keeps_wrap[OF keeps_lift(2)]], rule triple_return) simp
qed

lemma RenderComponent_bounded:
  assumes slices: "renderTemplates input + maxForEachItemsPerRender < 2 ^ 64"
    and ops: "\<forall>t \<in> set (riTraits input). \<forall>p \<in> set (tsPatches (tSpec t)). length (tpOperations p) < 2 ^ 64"
  shows "triple (expanded e L C A 0 0) (RenderComponent e B computeHash input)
           (\<lambda>out rs. work e L C A 0 rs \<and> length (roResources out) \<le> renderTemplates input + maxForEachItemsPerRender) (work e L C A 0)"
proof -
  let ?traits = "traitMap (riTraits (ApplyTargetPlaneDefaults input))"
  let ?T = "case ctResources (riComponentType input) of None \<Rightarrow> 0 | Some ts \<Rightarrow> length ts"
  let ?S1 = "sum_list (map (instanceCreates ?traits) (ctTraits (riComponentType input)))"
  let ?S2 = "sum_list (map (instanceCreates ?traits) (riComponentTraits input))"
  have N: "renderTemplates input = ?T + ?S1 + ?S2" by (simp add: renderTemplates_def Let_def)
  have base: "triple (expanded e L C A 0 0) (wrapM msg (RenderResources e
      (case ctResources (riComponentType (ApplyTargetPlaneDefaults input)) of None \<Rightarrow> [] | Some ts \<Rightarrow> ts) ctx))
      (sized e L C A ?T) (work e L C A 0)" for msg ctx
    using triple_wrap[OF RenderResources_sized[of e L C A 0 "case ctResources (riComponentType (ApplyTargetPlaneDefaults input)) of
        None \<Rightarrow> [] | Some ts \<Rightarrow> ts" ctx]]
    by (simp only: defaults_templates list.size(3) add_0 diff_0_eq_0)
  have embedded: "triple (sized e L C A ?T (prResources pr))
      (foldM (processInstance e B ?traits (\<lambda>inst. ResolveEmbeddedTraitBindings e inst ctx)) pr (ctTraits (riComponentType input)))
      (\<lambda>pr'. sized e L C A (?T + ?S1) (prResources pr')) (work e L C A 0)" for ctx pr
    by (rule processInstances_sized) (use slices N defaults_patches[OF ops] in \<open>auto intro: ex.ResolveEmbeddedTraitBindings_keeps\<close>)
  have instances: "triple (sized e L C A (?T + ?S1) (prResources pr))
      (foldM (processInstance e B ?traits (\<lambda>inst. liftResult (bldInstanceBindings B inst))) pr (riComponentTraits input))
      (\<lambda>pr'. sized e L C A (?T + ?S1 + ?S2) (prResources pr')) (work e L C A 0)" for pr
    by (rule processInstances_sized) (use slices N defaults_patches[OF ops] in \<open>auto intro: keeps_lift\<close>)
  show ?thesis
    unfolding RenderComponent_def Let_def defaults_keep N
    by (rule triple_bind[OF triple_wrap[OF costs_keeps[OF keeps_lift(2)]]],
        rule triple_bind[OF triple_wrap[OF costs_keeps[OF keeps_lift(1)]]],
        rule triple_bind[OF triple_wrap[OF costs_keeps[OF ex.EvaluateValidationRules_keeps]]],
        rule triple_bind[OF base], rule triple_bind[OF _ triple_bind[OF instances finish_bounded]],
        rule embedded[where pr = "\<lparr>prResources = _, prPending = _, prTraitCount = _, prTraitResourceCount = _\<rparr>", simplified])
qed

text \<open>C5: Whatever the templates, traits and validations of a component are, and whether its render succeeds or not, the
  render does a bounded amount of work. If one evaluation costs at most \<open>L\<close>, the cost charged stays below the budget
  plus \<open>L\<close>. At most 10000 patch operations are applied. If the render succeeds, it returns at most 10000 resources
  more than the component type and the traits of its instances have templates. The hypotheses on lengths say that
  the input fits a 64-bit address space, as the code computes with 64-bit products of lengths.\<close>

theorem render_work_is_bounded:
  assumes "\<And>expired x inputs. unat (snd (engEval e expired x inputs)) \<le> L"
    and "rsBudget rs = Some b" and "0 < cbBudget b" and "unat (cbSpent b) < unat (cbBudget b) + L" and "rsItems rs = None"
    and slices: "renderTemplates input + 10000 < 2 ^ 64"
    and ops: "\<forall>t \<in> set (riTraits input). \<forall>p \<in> set (tsPatches (tSpec t)). length (tpOperations p) < 2 ^ 64"
    and run: "pipelineRender e B computeHash input rs = (r, rs')"
  shows "(\<exists>b'. rsBudget rs' = Some b' \<and> unat (cbSpent b') < unat (cbBudget b) + L) \<and>
         rsApplied rs' \<le> rsApplied rs + 10000 \<and>
         (\<forall>out. r = Inr out \<longrightarrow> length (roResources out) \<le> renderTemplates input + 10000)"
proof -
  let ?start = "(WithForEachBudget rs)\<lparr>rsPatchOps := 0\<rparr>"
  have items: "maxForEachItemsPerRender = 10000" and patches: "unat maxPatchOperations = 10000"
    by (simp_all add: maxForEachItemsPerRender_def maxPatchOperations_def)
  have start: "expanded e L (cbBudget b) (rsApplied rs) 0 0 ?start"
    using assms(1-5) by (simp add: expanded_def work_def WithForEachBudget_def)
  note bounded = RenderComponent_bounded[unfolded items, OF slices ops]
  have "RenderComponent e B computeHash input ?start = (r, rs')" using run by (simp add: pipelineRender_def)
  then have "work e L (cbBudget b) (rsApplied rs) 0 rs' \<and> (\<forall>out. r = Inr out \<longrightarrow> length (roResources out) \<le> renderTemplates input + 10000)"
    using tripleD_Inr[OF bounded start] tripleD_Inl[OF bounded start] by (cases r) auto
  then show ?thesis by (auto simp: work_def patches)
qed

theorem render_work_is_bounded_witness:
  "\<exists>b'. rsBudget (snd sampleRun) = Some b' \<and> unat (cbSpent b') < 103 \<and> rsApplied (snd sampleRun) \<le> 10000"
proof -
  have templates: "renderTemplates sampleInput = 2" by code_simp
  have L: "unat (snd (engEval lookupEngine expired x inputs)) \<le> 3" for expired x inputs
    by (simp add: lookupEngine_def split: option.splits)
  have ops: "\<forall>t \<in> set (riTraits sampleInput). \<forall>p \<in> set (tsPatches (tSpec t)). length (tpOperations p) < 2 ^ 64"
    by (simp add: sampleInput_def sampleTrait_def)
  have "pipelineRender lookupEngine sampleBuilder (\<lambda>_. ''h'') sampleInput sampleState = (fst sampleRun, snd sampleRun)"
    by (simp add: sampleRun_def)
  from render_work_is_bounded[OF L _ _ _ _ _ ops this, of "NewCostBudget 100"] show ?thesis
    by (auto simp: sampleState_def NewCostBudget_def templates)
qed

end
