(* ===== verification/Spec2Isabelle.thy ===== *)
theory Spec2Isabelle
  imports Patch_Properties Authz_Profile_Facts Authz_Sync_Facts Authz_Pap Gateway_Auth_Facts Gateway_Properties Component_Output Component_Bounds
begin

text \<open>
  \<^bold>\<open>A verification library for OpenChoreo.\<close> OpenChoreo is a platform on Kubernetes. This development models three of its
  subsystems, as they are written in Go, and proves what makes them correct: who may do what
  (\<^verbatim>\<open>src/internal/authz\<close>), how requests reach the clusters of the platform
  (\<^verbatim>\<open>src/internal/cluster-gateway\<close>), and how the resources of a component are rendered
  (\<^verbatim>\<open>src/internal/template\<close>, \<^verbatim>\<open>src/internal/pipeline/component\<close>,
  \<^verbatim>\<open>src/internal/patch\<close>).

  \<^bold>\<open>How the parts interact.\<close> Roles and bindings are Kubernetes objects. The policy administration point writes them, a
  watcher turns them into tuples of a policy store, and the policy decision point answers requests from that
  store. Clusters connect to the gateway through agents; a replica of the gateway admits an agent by its
  certificate, holds its connection, and tells the other replicas over a mesh, so that a request that arrives
  at any replica reaches an agent that may serve it. A component type and the traits of a component are
  templates; the pipeline renders them with the template engine, lets the traits create, patch and remove
  resources with the patch engine, and checks and labels the result.

  \<^bold>\<open>Conventions.\<close> A Go string is a list of bytes, a map a finite map, a struct a record, an error a value of a sum. State that
  Go changes in place is passed explicitly. Counters and sequence numbers whose overflow matters are 64-bit
  words. Code outside the repository is a parameter: the Casbin enforcer, the Kubernetes client, PEM decoding
  and certificate verification, the evaluation of a CEL expression, JSON marshalling, and the builders of
  rendering contexts. What is assumed of such a parameter is a hypothesis or a locale, and is instantiated.

  \<^bold>\<open>Foundations.\<close>
  \<^item> \<open>Go_Prelude\<close>: results and loops that stop at an error, and the functions of \<open>strings\<close>, \<open>strconv\<close> and \<open>slices\<close>
    the code uses, with their lemmas.
  \<^item> \<open>Json_Value\<close>: the dynamically typed values of documents.

  \<^bold>\<open>Patch engine\<close> (\<^verbatim>\<open>src/internal/patch\<close>, \<^verbatim>\<open>src/internal/clone\<close>).
  \<^item> \<open>Patch_Path\<close> models \<^verbatim>\<open>helpers.go\<close> and \<^verbatim>\<open>expand_paths.go\<close>; \<open>Patch_Path_Facts\<close> shows that expansion names
    independent places of the document.
  \<^item> \<open>Patch_Ops\<close> models \<^verbatim>\<open>rfc6902.go\<close>, \<^verbatim>\<open>merge.go\<close> and \<^verbatim>\<open>patch.go\<close>; \<open>Patch_Facts\<close> relates each operation to RFC 6902,
    with the locale \<open>place_writer\<close> for operations that write every place a path expands to.
  \<^item> \<open>Patch_Properties\<close>: every match is written and nothing else, missing parents are created, merges overlay,
    pointers round-trip, and a removal of two matches removes the wrong elements, whatever the document.

  \<^bold>\<open>Authorization\<close> (\<^verbatim>\<open>src/internal/authz\<close>, types in \<^verbatim>\<open>src/api/v1alpha1\<close>).
  \<^item> \<open>Authz_Actions\<close> (\<^verbatim>\<open>core/actions.go\<close>, \<^verbatim>\<open>core/condition_registry.go\<close>) and its facts: enforcement, the index of
    profiles and the admission of conditions read an action pattern alike.
  \<^item> \<open>Authz_Match\<close> (\<^verbatim>\<open>casbin/helpers.go\<close>) and its facts: matching is containment of scopes, and conditions fail closed
    on every input.
  \<^item> \<open>Authz_Pdp\<close> (\<^verbatim>\<open>casbin/pdp.go\<close>); \<open>Authz_Pdp_Facts\<close> characterises decisions over the locale \<open>casbin_enforcer\<close>, and
    \<open>Authz_Profile_Facts\<close> compares subject profiles with enforcement, where they agree and where they do not.
  \<^item> \<open>Authz_Sync\<close> (\<^verbatim>\<open>casbin/k8s_watcher.go\<close>); \<open>Authz_Sync_Facts\<close> shows, over the locale \<open>casbin_store\<close>, that incremental
    synchronisation equals a rebuild and that enforcement over the store says what the live roles and bindings say.
    Its runs leave out a cluster-wide and a namespaced binding of one name and updates after which a binding can be
    read when it could not before, or the other way round; what the handlers do then is shown for every store
    and every reachable state.
  \<^item> \<open>Authz_Pap\<close> (\<^verbatim>\<open>casbin/pap.go\<close>): the operations of the policy administration point over any Kubernetes client. What they
    achieve is what the client does, so there are no theorems about them.

  \<^bold>\<open>Cluster gateway\<close> (\<^verbatim>\<open>src/internal/cluster-gateway\<close>).
  \<^item> \<open>Conn_Manager\<close> (\<^verbatim>\<open>connection_manager.go\<close>) and its facts: an invariant of the manager, fair rotation (the locale
    \<open>round_robin\<close>, interpreted for planes and for CRs), and routing after a re-validation.
  \<^item> \<open>Fabric\<close> (\<^verbatim>\<open>fabric/\<close>) and its facts: the mesh as a step relation of a replica and its peers; what a replica knows is a
    past state of the owner, frames in order bring it up to date, and one order of frames loses a change.
  \<^item> \<open>Gateway_Auth\<close> (\<^verbatim>\<open>agent_auth.go\<close>, \<^verbatim>\<open>plane_client_ca.go\<close>, verification in \<^verbatim>\<open>server.go\<close>) and its facts: the text a
    client controls cannot change the forwarded certificate, and authentication always ends.
  \<^item> \<open>Gateway\<close> and \<open>Gateway_Api\<close> (\<^verbatim>\<open>server.go\<close>, \<^verbatim>\<open>validator.go\<close>, \<^verbatim>\<open>plane_api.go\<close>); \<open>Gateway_Facts\<close> and
    \<open>Gateway_Properties\<close> show, with the locale \<open>connection_listener\<close>, that the mesh publishes exactly the connections
    of the replica, with the turns of re-validations among all other steps as long as the connection of a turn is still
    held, that a request reaches only agents authorised for its CR and is not executed twice, that
    rebalancing is bounded, and two races in which the code misreports.

  \<^bold>\<open>Component rendering.\<close>
  \<^item> \<open>Template_Engine\<close> (\<^verbatim>\<open>src/internal/template/engine.go\<close>, \<^verbatim>\<open>budget.go\<close>, \<^verbatim>\<open>errors.go\<close>): rendering in a monad of the state a
    render carries, its cost budget, its expansion budget and its context.
  \<^item> \<open>Component_Render\<close> (\<^verbatim>\<open>renderer/\<close>), \<open>Component_Traits\<close> (\<^verbatim>\<open>trait/processor.go\<close>) and \<open>Component_Pipeline\<close>
    (\<^verbatim>\<open>pipeline.go\<close>, \<^verbatim>\<open>postrender.go\<close>, \<^verbatim>\<open>types.go\<close>, \<^verbatim>\<open>context/embedded_trait.go\<close>).
  \<^item> \<open>Component_Facts\<close>: triples for renders, and the exactness of the cost budget. \<open>Component_Output\<close>: a render returns
    complete, labelled and ordered resources. \<open>Component_Bounds\<close>: the work of a render is bounded, over the locales
    \<open>render_invariant\<close> and \<open>expansion_invariant\<close>, which are interpreted on the invariants of the bound.

  \<^bold>\<open>Bounds and termination.\<close> There is no fuel. Loops are structural recursions or come with a measure: the distance of the cursor
    from the end for the scanners of strings. The loop over PEM blocks is a partial function, which is proved to return
    because each decoded block shortens the rest. Retries of a forwarded request are bounded by the two attempts of the code. How long
    a wait takes is not modelled, only what ends it; the end of a context is a number of checks after which it
    is seen, which is universally quantified. Bounds on lengths in hypotheses say that slices fit a 64-bit
    address space.

  \<^bold>\<open>Not modelled.\<close>
  \<^item> Goroutines are modelled by the order of the steps they take under their locks; data races within a step are not.
  \<^item> Start-up, TLS, websocket framing, pings and redial delays of the gateway, its exec, wire-log and resource-tree
    streams, and peer discovery: socket handling whose behaviour is that of libraries.
  \<^item> \<open>cel-go\<close> with its caches and the custom functions that run inside it, and the contexts and schemas of rendering,
    which are built with the structural schema library of Kubernetes.
  \<^item> The project, resource and workflow pipelines, which use the same engine on other contexts.
  \<^item> Controllers, webhooks and validation: their state is the Kubernetes API server and their checks are calls to its
    libraries, whose semantics is not in the repository.
  \<^item> The API server (mostly generated code and forwarding to Kubernetes), the observer, the command-line client, the
    cluster and remote agents, the event forwarder and the MCP servers: input and output of other services.
  \<^item> Error texts are kept where the code decides by them, and shortened elsewhere; logs are left out.
\<close>

end
